theory Spec2Isabelle
  imports Main
begin

section \<open>Chart of accounts: strings\<close>

text \<open>
  The account module (\<^verbatim>\<open>src/modules/account/utils.py\<close>) compares and rewrites Python
  strings with \<^verbatim>\<open>str.lower\<close>, \<^verbatim>\<open>str.strip\<close>, the substring test \<^verbatim>\<open>in\<close>,
  \<^verbatim>\<open>str.endswith\<close>, \<^verbatim>\<open>int\<close>, \<^verbatim>\<open>str\<close> and \<^verbatim>\<open>str.zfill\<close>. Strings are
  modelled as \<^typ>\<open>string\<close> over ASCII: \<open>lower\<close> maps the letters A to Z and leaves every
  other character alone, and \<open>strip\<close> removes the ASCII whitespace characters.
\<close>

definition upper_to_lower :: "(char \<times> char) list" where
  "upper_to_lower = zip ''ABCDEFGHIJKLMNOPQRSTUVWXYZ'' ''abcdefghijklmnopqrstuvwxyz''"

definition char_lower :: "char \<Rightarrow> char" where
  "char_lower c = (case map_of upper_to_lower c of None \<Rightarrow> c | Some l \<Rightarrow> l)"

definition lower :: "string \<Rightarrow> string" where
  "lower s = map char_lower s"

definition is_space :: "char \<Rightarrow> bool" where
  "is_space c = (c \<in> set [CHR 0x20, CHR 0x09, CHR 0x0A, CHR 0x0B, CHR 0x0C, CHR 0x0D,
                          CHR 0x1C, CHR 0x1D, CHR 0x1E, CHR 0x1F])"

definition strip :: "string \<Rightarrow> string" where
  "strip s = rev (dropWhile is_space (rev (dropWhile is_space s)))"

fun starts_with :: "string \<Rightarrow> string \<Rightarrow> bool" where
  "starts_with [] s = True"
| "starts_with (p # ps) [] = False"
| "starts_with (p # ps) (c # cs) = (p = c \<and> starts_with ps cs)"

text \<open>\<open>contains sub s\<close> is Python's \<^verbatim>\<open>sub in s\<close>.\<close>

fun contains :: "string \<Rightarrow> string \<Rightarrow> bool" where
  "contains sub [] = (sub = [])"
| "contains sub (c # cs) = (starts_with sub (c # cs) \<or> contains sub cs)"

definition endswith :: "string \<Rightarrow> string \<Rightarrow> bool" where
  "endswith s suf = starts_with (rev suf) (rev s)"

text \<open>\<open>last3 s\<close> is the slice \<^verbatim>\<open>s[-3:]\<close>: the whole string when it is shorter than three.\<close>

definition last3 :: "string \<Rightarrow> string" where
  "last3 s = drop (length s - 3) s"

definition digit_chars :: "(char \<times> nat) list" where
  "digit_chars = zip ''0123456789'' [0, 1, 2, 3, 4, 5, 6, 7, 8, 9]"

definition digit_val :: "char \<Rightarrow> nat option" where
  "digit_val c = map_of digit_chars c"

definition digit_char :: "nat \<Rightarrow> char" where
  "digit_char d = ''0123456789'' ! (d mod 10)"

text \<open>
  \<open>py_int\<close> is \<^verbatim>\<open>int(s)\<close> on the strings the code generator writes: a non-empty run of
  decimal digits gives its value, anything else is the \<^verbatim>\<open>ValueError\<close> (\<open>None\<close>).
  (Python also accepts a sign, surrounding whitespace and underscores; no code written
  by \<open>generate_code\<close> has them.)
\<close>

fun digits_val :: "nat \<Rightarrow> string \<Rightarrow> nat option" where
  "digits_val acc [] = Some acc"
| "digits_val acc (c # cs) =
     (case digit_val c of None \<Rightarrow> None | Some d \<Rightarrow> digits_val (10 * acc + d) cs)"

definition py_int :: "string \<Rightarrow> nat option" where
  "py_int s = (if s = [] then None else digits_val 0 s)"

text \<open>\<open>py_str n\<close> is \<^verbatim>\<open>str(n)\<close> for a non-negative integer.\<close>

fun py_str :: "nat \<Rightarrow> string" where
  "py_str n = (if n < 10 then [digit_char n] else py_str (n div 10) @ [digit_char (n mod 10)])"

declare py_str.simps [simp del]

definition zfill3 :: "string \<Rightarrow> string" where
  "zfill3 s = replicate (3 - length s) CHR ''0'' @ s"

text \<open>
  String comparison as \<^verbatim>\<open>ORDER BY code\<close> uses it: lexicographic by character code,
  a proper prefix first.
\<close>

fun str_le :: "string \<Rightarrow> string \<Rightarrow> bool" where
  "str_le [] t = True"
| "str_le (c # cs) [] = False"
| "str_le (c # cs) (d # ds) =
     (if c = d then str_le cs ds else (of_char c :: nat) < of_char d)"


section \<open>Data model\<close>

text \<open>
  Modelled from the spec: the ORM classes \<^verbatim>\<open>Account\<close>, \<^verbatim>\<open>DailyEntries\<close>,
  \<^verbatim>\<open>SalesTransaction\<close>, \<^verbatim>\<open>PurchaseTransaction\<close> and \<^verbatim>\<open>ExpenseTransaction\<close> are
  imported by the account module but not defined in the sources at hand. An account
  carries the fields the module reads and writes (section 3 of the specification); a
  journal entry carries the debit and credit account names and the two amounts; of a
  sales, purchase or expense transaction only the \<^verbatim>\<open>account_id\<close> column is used, so each of
  these tables is the list of its \<^verbatim>\<open>account_id\<close> values. Amounts are exact integers.
  \<^verbatim>\<open>Account.to_dict()\<close> is the account record itself.
\<close>

record account =
  acc_id :: nat
  name :: string
  code :: string
  parent_id :: "nat option"
  nature :: "string option"
  cc_required :: bool
  account_type :: "string option"

record daily_entry =
  debit :: string
  credit :: string
  debit_amount :: int
  credit_amount :: int

text \<open>
  The database behind a session. Rows are kept in insertion order, which is the order
  an unordered \<^verbatim>\<open>.first()\<close> reads them in. Modelled from the spec: \<open>next_id\<close> is the
  surrogate-key sequence of the accounts table (ids are assigned at creation and are
  never reused).
\<close>

record db =
  accounts :: "account list"
  daily_entries :: "daily_entry list"
  sales_transactions :: "nat list"
  purchase_transactions :: "nat list"
  expense_transactions :: "nat list"
  next_id :: nat

definition empty_db :: db where
  "empty_db = \<lparr>accounts = [], daily_entries = [], sales_transactions = [],
     purchase_transactions = [], expense_transactions = [], next_id = 1\<rparr>"

text \<open>
  Every \<^verbatim>\<open>raise\<close> of the module is a value. \<open>BadRequest\<close> carries which of the
  module's messages it is; \<open>AttributeError\<close> (reading a field of \<^verbatim>\<open>None\<close>) and
  \<open>ValueError\<close> (\<^verbatim>\<open>int\<close> of a string that is no number) are the two exceptions the
  module's own code can raise without a \<^verbatim>\<open>raise\<close>. \<^verbatim>\<open>AccountNotFoundException\<close> is
  raised with an id by \<^verbatim>\<open>get_single_account\<close> and with a name by
  \<^verbatim>\<open>get_accounts_by_parent_name\<close>.
\<close>

datatype bad_request =
    NoNewRootAccounts
  | AssetsNature | AssetsAccountType
  | LiabilityNature | LiabilityAccountType
  | ExpensesAccountType | RevenueAccountType
  | DatabaseError
  | NatureInvalid | AccountTypeInvalid
  | NameNotString | NameEmpty
  | NameHasTransactions string
  | CcNotBoolean
  | CcCannotDisable string
  | AccountTypeNotString
  | BalanceSheetNotAllowed string
  | PnlNotAllowed string
  | IsParentAccount nat
  | UsedInTransactions string
  | SalesReferenced nat nat
  | PurchaseReferenced nat nat
  | ExpenseReferenced nat nat

datatype error =
    BadRequest bad_request
  | AccountExistsException string
  | ParentNotFoundException nat
  | AccountNotFoundException nat
  | AccountNameNotFoundException string
  | AttributeError
  | ValueError

text \<open>Python truthiness of an optional string: \<^verbatim>\<open>None\<close> and \<^verbatim>\<open>''\<close> are false.\<close>

definition truthy :: "string option \<Rightarrow> bool" where
  "truthy v = (case v of None \<Rightarrow> False | Some s \<Rightarrow> s \<noteq> [])"

section \<open>Queries\<close>

definition is_root :: "account \<Rightarrow> bool" where
  "is_root a = (parent_id a = None)"

definition get_by_id :: "db \<Rightarrow> nat \<Rightarrow> account option" where
  "get_by_id s i = find (\<lambda>a. acc_id a = i) (accounts s)"

definition children_of :: "db \<Rightarrow> nat \<Rightarrow> account list" where
  "children_of s i = filter (\<lambda>a. parent_id a = Some i) (accounts s)"

text \<open>
  \<^verbatim>\<open>order_by(Account.code.desc()).first()\<close>: the row with the greatest code, the earliest
  such row when several share it.
\<close>

fun last_by_code :: "account list \<Rightarrow> account option" where
  "last_by_code [] = None"
| "last_by_code (a # as) =
     (case last_by_code as of
        None \<Rightarrow> Some a
      | Some b \<Rightarrow> if str_le (code b) (code a) then Some a else Some b)"

text \<open>\<^verbatim>\<open>order_by(Account.code)\<close>: a stable insertion sort by code.\<close>

fun insert_by_code :: "account \<Rightarrow> account list \<Rightarrow> account list" where
  "insert_by_code a [] = [a]"
| "insert_by_code a (b # bs) =
     (if str_le (code a) (code b) then a # b # bs else b # insert_by_code a bs)"

definition sort_by_code :: "account list \<Rightarrow> account list" where
  "sort_by_code as = foldr insert_by_code as []"

definition get_single_account :: "db \<Rightarrow> nat \<Rightarrow> error + account" where
  "get_single_account s account_id =
     (case get_by_id s account_id of
        None \<Rightarrow> Inl (AccountNotFoundException account_id)
      | Some a \<Rightarrow> Inr a)"

definition check_if_account_exist :: "db \<Rightarrow> string \<Rightarrow> error + unit" where
  "check_if_account_exist s nm =
     (case find (\<lambda>a. lower (name a) = lower nm) (accounts s) of
        Some a \<Rightarrow> Inl (AccountExistsException nm)
      | None \<Rightarrow> Inr ())"

text \<open>
  \<^verbatim>\<open>get_parent_account_with_id\<close>: a falsy id (\<^verbatim>\<open>None\<close> or \<^verbatim>\<open>0\<close>) gives no parent
  and no error.
\<close>

definition get_parent_account_with_id :: "db \<Rightarrow> nat option \<Rightarrow> error + account option" where
  "get_parent_account_with_id s parent_id' =
     (case parent_id' of
        None \<Rightarrow> Inr None
      | Some p \<Rightarrow>
          if p = 0 then Inr None
          else (case get_by_id s p of
                  Some parent \<Rightarrow> Inr (Some parent)
                | None \<Rightarrow> Inl (ParentNotFoundException p)))"

text \<open>
  \<^verbatim>\<open>get_root_account\<close> follows \<^verbatim>\<open>parent_id\<close> until it is \<^verbatim>\<open>None\<close>. The loop
  need not end (a cycle of parents): \<open>None\<close> is "does not return". A parent id with no
  row makes \<^verbatim>\<open>current\<close> \<^verbatim>\<open>None\<close>, and the next test raises \<^verbatim>\<open>AttributeError\<close>.
\<close>

partial_function (option) get_root_account :: "db \<Rightarrow> account \<Rightarrow> (error + account) option" where
  "get_root_account s current =
     (case parent_id current of
        None \<Rightarrow> Some (Inr current)
      | Some p \<Rightarrow>
          (case get_by_id s p of
             None \<Rightarrow> Some (Inl AttributeError)
           | Some parent \<Rightarrow> get_root_account s parent))"

declare get_root_account.simps [code]

section \<open>Code generator\<close>

definition root_shaped :: "string \<Rightarrow> bool" where
  "root_shaped parent_code = (length parent_code = 4 \<and> endswith parent_code ''000'')"

text \<open>
  \<^verbatim>\<open>generate_code\<close>. \<open>None\<close> is the \<^verbatim>\<open>ValueError\<close> of \<^verbatim>\<open>int\<close> on a sibling code
  that is not a number. In the child branch the three cases of the source are kept; the
  last two build the same string. \<^verbatim>\<open>parent_code[0]\<close> is taken only where the code has
  four characters.
\<close>

definition next_suffix :: "account \<Rightarrow> string option" where
  "next_suffix last_sibling =
     (case py_int (last3 (code last_sibling)) of
        None \<Rightarrow> None
      | Some last_suffix \<Rightarrow> Some (zfill3 (py_str (last_suffix + 1))))"

definition generate_code :: "db \<Rightarrow> account option \<Rightarrow> string option" where
  "generate_code s parent =
     (case parent of
        None \<Rightarrow>
          (case last_by_code (filter is_root (accounts s)) of
             Some last_sibling \<Rightarrow>
               (case py_int (code last_sibling) of
                  None \<Rightarrow> None
                | Some n \<Rightarrow> Some (py_str ((n div 1000 + 1) * 1000)))
           | None \<Rightarrow> Some ''1000'')
      | Some p \<Rightarrow>
          (let parent_code = code p in
           case last_by_code (children_of s (acc_id p)) of
             Some last_sibling \<Rightarrow>
               (if root_shaped parent_code then
                  map_option (\<lambda>new_suffix. take 1 parent_code @ new_suffix) (next_suffix last_sibling)
                else if length parent_code = 4 then
                  map_option (\<lambda>new_suffix. parent_code @ new_suffix) (next_suffix last_sibling)
                else
                  map_option (\<lambda>new_suffix. parent_code @ new_suffix) (next_suffix last_sibling))
           | None \<Rightarrow>
               (if root_shaped parent_code then Some (take 1 parent_code @ ''001'')
                else Some (parent_code @ ''001''))))"

text \<open>
  \<^verbatim>\<open>session.add\<close> (flushed by the next query or the commit): the new row takes the next
  id of the sequence, whatever \<open>acc_id\<close> the unsaved object held.
\<close>

definition add_account :: "db \<Rightarrow> account \<Rightarrow> db \<times> account" where
  "add_account s a =
     (let a' = a\<lparr>acc_id := next_id s\<rparr>
      in (s\<lparr>accounts := accounts s @ [a'], next_id := Suc (next_id s)\<rparr>, a'))"

text \<open>Writing a changed object back: the row the object was read from, found by its id.\<close>

fun replace_account :: "account \<Rightarrow> account list \<Rightarrow> account list" where
  "replace_account a [] = []"
| "replace_account a (b # bs) =
     (if acc_id b = acc_id a then a # bs else b # replace_account a bs)"

fun remove_account :: "nat \<Rightarrow> account list \<Rightarrow> account list" where
  "remove_account i [] = []"
| "remove_account i (b # bs) = (if acc_id b = i then bs else b # remove_account i bs)"


section \<open>Root bootstrapper\<close>

text \<open>
  The dictionary \<^verbatim>\<open>root_accounts\<close> of \<^verbatim>\<open>validate_root_accounts\<close>, in its insertion
  order: name, nature, account type, cost-centre flag.
\<close>

definition root_accounts :: "(string \<times> string \<times> string \<times> bool) list" where
  "root_accounts =
     [(''Assets'', ''debit'', ''balance_sheet'', False),
      (''Liability & Equity'', ''credit'', ''balance_sheet'', False),
      (''Expenses'', ''debit'', ''p&l'', False),
      (''Revenue'', ''credit'', ''p&l'', False)]"

text \<open>One round of the loop of \<^verbatim>\<open>validate_root_accounts\<close>.\<close>

definition validate_root :: "db \<Rightarrow> string \<times> string \<times> string \<times> bool \<Rightarrow> error + db" where
  "validate_root s props =
     (case props of (nm, nat', ty, cc) \<Rightarrow>
        (case find (\<lambda>a. name a = nm \<and> parent_id a = None) (accounts s) of
           None \<Rightarrow>
             (case generate_code s None of
                None \<Rightarrow> Inl ValueError
              | Some c \<Rightarrow>
                  Inr (fst (add_account s
                    \<lparr>acc_id = 0, name = nm, code = c, parent_id = None, nature = Some nat',
                     cc_required = cc, account_type = Some ty\<rparr>)))
         | Some account \<Rightarrow>
             (let a1 = (if account_type account \<noteq> Some ty
                        then account\<lparr>account_type := Some ty\<rparr> else account);
                  a2 = (if cc_required a1 \<noteq> cc then a1\<lparr>cc_required := cc\<rparr> else a1)
              in Inr (s\<lparr>accounts := replace_account a2 (accounts s)\<rparr>))))"

fun validate_roots :: "db \<Rightarrow> (string \<times> string \<times> string \<times> bool) list \<Rightarrow> error + db" where
  "validate_roots s [] = Inr s"
| "validate_roots s (props # rest) =
     (case validate_root s props of Inl e \<Rightarrow> Inl e | Inr s' \<Rightarrow> validate_roots s' rest)"

definition validate_root_accounts :: "db \<Rightarrow> error + db" where
  "validate_root_accounts s = validate_roots s root_accounts"

section \<open>Creation\<close>

text \<open>
  The request body of a creation, with the types the resource class lets through:
  \<open>None\<close> is an absent key (or JSON null for \<^verbatim>\<open>parent_id\<close> and \<^verbatim>\<open>account_type\<close>),
  \<^verbatim>\<open>cc_required\<close> is a boolean defaulting to false.
\<close>

record body =
  b_name :: string
  b_parent_id :: "nat option"
  b_nature :: "string option"
  b_cc_required :: bool
  b_account_type :: "string option"

definition extract_body ::
  "body \<Rightarrow> error + (string \<times> nat option \<times> string option \<times> bool \<times> string option)" where
  "extract_body b =
     (let nature' = map_option (\<lambda>n. lower (strip n)) (b_nature b);
          parent_id' = b_parent_id b;
          cc_required' = b_cc_required b;
          account_type' = b_account_type b
      in if truthy nature' \<and> nature' \<notin> set [Some ''debit'', Some ''credit'', Some ''both'']
         then Inl (BadRequest NatureInvalid)
         else if truthy account_type' \<and> account_type' \<notin> set [Some ''balance_sheet'', Some ''p&l'']
         then Inl (BadRequest AccountTypeInvalid)
         else Inr (strip (b_name b), parent_id', nature', cc_required', account_type'))"

text \<open>
  The \<^verbatim>\<open>if\<close>/\<^verbatim>\<open>elif\<close> chain of \<^verbatim>\<open>create_account_in_account_tree\<close> on the root's
  name: the nature and account type to store, or the rejection.
\<close>

definition apply_root_policy ::
  "string \<Rightarrow> string option \<Rightarrow> string option \<Rightarrow> error + (string option \<times> string option)" where
  "apply_root_policy root_name nature' account_type' =
     (if lower root_name = ''assets'' then
        (if truthy nature' \<and> nature' \<noteq> Some ''debit'' then Inl (BadRequest AssetsNature)
         else if truthy account_type' \<and> account_type' \<noteq> Some ''balance_sheet''
         then Inl (BadRequest AssetsAccountType)
         else Inr (Some ''debit'', Some ''balance_sheet''))
      else if lower root_name = ''liability & equity'' then
        (if truthy nature' \<and> nature' \<noteq> Some ''credit'' then Inl (BadRequest LiabilityNature)
         else if truthy account_type' \<and> account_type' \<noteq> Some ''balance_sheet''
         then Inl (BadRequest LiabilityAccountType)
         else Inr (Some ''credit'', Some ''balance_sheet''))
      else if lower root_name = ''expenses'' then
        (let nature'' = (if \<not> truthy nature' then Some ''debit'' else nature')
         in if truthy account_type' \<and> account_type' \<noteq> Some ''p&l''
            then Inl (BadRequest ExpensesAccountType)
            else Inr (nature'', Some ''p&l''))
      else if lower root_name = ''revenue'' then
        (let nature'' = (if \<not> truthy nature' then Some ''credit'' else nature')
         in if truthy account_type' \<and> account_type' \<noteq> Some ''p&l''
            then Inl (BadRequest RevenueAccountType)
            else Inr (nature'', Some ''p&l''))
      else Inr (nature', account_type'))"

text \<open>The two inference steps of \<^verbatim>\<open>fill_new_account_info\<close>, given the root's name.\<close>

definition infer_account_type :: "string \<Rightarrow> string option" where
  "infer_account_type root_name =
     (if root_name \<in> set [''Assets'', ''Liability & Equity''] then Some ''balance_sheet''
      else if root_name \<in> set [''Revenue'', ''Expenses''] then Some ''p&l''
      else None)"

definition default_cc_required :: "string \<Rightarrow> string \<Rightarrow> bool" where
  "default_cc_required root_name nm =
     (let cc1 = (if root_name = ''Expenses''
                 then (if \<not> contains ''depreciation'' (lower nm) \<and> \<not> contains ''bank charges'' (lower nm)
                       then True else False)
                 else False)
      in if contains ''cost of goods sold'' (lower nm) \<or> contains ''rebate'' (lower nm)
         then True else cc1)"

text \<open>
  \<^verbatim>\<open>fill_new_account_info\<close>. The new object has no id yet (\<open>acc_id = 0\<close> until
  \<open>add_account\<close> assigns one).
\<close>

definition fill_new_account_info ::
  "db \<Rightarrow> string \<Rightarrow> string option \<Rightarrow> account option \<Rightarrow> bool \<Rightarrow> string option
     \<Rightarrow> (error + account) option" where
  "fill_new_account_info s nm nature' parent cc_required' account_type' =
     (case (case parent of
              None \<Rightarrow> Some (Inr (account_type', cc_required'))
            | Some p \<Rightarrow>
                (case (if account_type' = None
                       then (case get_root_account s p of
                               None \<Rightarrow> None
                             | Some (Inl e) \<Rightarrow> Some (Inl e)
                             | Some (Inr root_account) \<Rightarrow>
                                 Some (Inr (infer_account_type (name root_account))))
                       else Some (Inr account_type')) of
                   None \<Rightarrow> None
                 | Some (Inl e) \<Rightarrow> Some (Inl e)
                 | Some (Inr ty) \<Rightarrow>
                     (if \<not> cc_required'
                      then (case get_root_account s p of
                              None \<Rightarrow> None
                            | Some (Inl e) \<Rightarrow> Some (Inl e)
                            | Some (Inr root_account) \<Rightarrow>
                                Some (Inr (ty, default_cc_required (name root_account) nm)))
                      else Some (Inr (ty, cc_required'))))) of
        None \<Rightarrow> None
      | Some (Inl e) \<Rightarrow> Some (Inl e)
      | Some (Inr (ty, cc)) \<Rightarrow>
          (case generate_code s parent of
             None \<Rightarrow> Some (Inl ValueError)
           | Some c \<Rightarrow>
               Some (Inr \<lparr>acc_id = 0, name = nm, code = c, parent_id = map_option acc_id parent,
                          nature = nature', cc_required = cc, account_type = ty\<rparr>)))"

definition add_and_commit :: "db \<Rightarrow> account \<Rightarrow> db \<times> account" where
  "add_and_commit s new_account = add_account s new_account"

text \<open>
  \<^verbatim>\<open>create_account_in_account_tree\<close> returns the database as the request leaves it and
  the error or the new account. The bootstrap commits before the body is read, so its
  rows stay when a later check rejects the request; an exception other than the three
  re-raised ones rolls back what is pending and becomes the "Database error" bad
  request. \<open>None\<close> is a call that does not return.
\<close>

definition create_account_in_account_tree :: "db \<Rightarrow> body \<Rightarrow> (db \<times> (error + account)) option" where
  "create_account_in_account_tree s b =
     (case validate_root_accounts s of
        Inl e \<Rightarrow> Some (s, Inl (BadRequest DatabaseError))
      | Inr s1 \<Rightarrow>
          (case extract_body b of
             Inl e \<Rightarrow> Some (s1, Inl e)
           | Inr (nm, parent_id', nature', cc_required', account_type') \<Rightarrow>
               (case check_if_account_exist s1 (strip nm) of
                  Inl e \<Rightarrow> Some (s1, Inl e)
                | Inr u \<Rightarrow>
                    if parent_id' = None then Some (s1, Inl (BadRequest NoNewRootAccounts))
                    else
                      (case get_parent_account_with_id s1 parent_id' of
                         Inl e \<Rightarrow> Some (s1, Inl e)
                       | Inr None \<Rightarrow> Some (s1, Inl (BadRequest DatabaseError))
                       | Inr (Some parent) \<Rightarrow>
                           (case get_root_account s1 parent of
                              None \<Rightarrow> None
                            | Some (Inl e) \<Rightarrow> Some (s1, Inl (BadRequest DatabaseError))
                            | Some (Inr root_account) \<Rightarrow>
                                (case apply_root_policy (name root_account) nature' account_type' of
                                   Inl e \<Rightarrow> Some (s1, Inl e)
                                 | Inr (nature'', account_type'') \<Rightarrow>
                                     (case fill_new_account_info s1 nm nature'' (Some parent)
                                             cc_required' account_type'' of
                                        None \<Rightarrow> None
                                      | Some (Inl e) \<Rightarrow> Some (s1, Inl (BadRequest DatabaseError))
                                      | Some (Inr new_account) \<Rightarrow>
                                          (case add_and_commit s1 new_account of
                                             (s2, a) \<Rightarrow> Some (s2, Inr a)))))))))"


section \<open>Update\<close>

text \<open>
  A JSON value of the update request. The resource class copies the three keys it knows
  into \<^verbatim>\<open>update_fields\<close>; \<open>None\<close> is an absent key.
\<close>

datatype jval = JNull | JBool bool | JNum int | JStr string | JOther

record update_fields =
  u_name :: "jval option"
  u_cc_required :: "jval option"
  u_account_type :: "jval option"

datatype update_result = NoChanges | Updated "string list"

text \<open>The journal entries whose debit or credit name is exactly \<open>nm\<close>, counted.\<close>

definition related_entries :: "db \<Rightarrow> string \<Rightarrow> nat" where
  "related_entries s nm = length (filter (\<lambda>e. debit e = nm \<or> credit e = nm) (daily_entries s))"

text \<open>
  The three field handlers of \<^verbatim>\<open>update_account\<close>, each returning the changed object and
  what it appends to \<^verbatim>\<open>changes\<close>.
\<close>

definition update_name :: "db \<Rightarrow> account \<Rightarrow> jval option \<Rightarrow> error + (account \<times> string list)" where
  "update_name s account v =
     (case v of
        None \<Rightarrow> Inr (account, [])
      | Some (JStr raw) \<Rightarrow>
          (let new_name = strip raw in
           if new_name = [] then Inl (BadRequest NameEmpty)
           else if lower (name account) \<noteq> lower new_name then
             (if related_entries s (name account) > 0
              then Inl (BadRequest (NameHasTransactions (name account)))
              else (case check_if_account_exist s new_name of
                      Inl e \<Rightarrow> Inl e
                    | Inr u \<Rightarrow> Inr (account\<lparr>name := new_name\<rparr>, [''name''])))
           else Inr (account, []))
      | Some other \<Rightarrow> Inl (BadRequest NameNotString))"

definition update_cc_required :: "db \<Rightarrow> account \<Rightarrow> jval option \<Rightarrow> error + (account \<times> string list)" where
  "update_cc_required s account v =
     (case v of
        None \<Rightarrow> Inr (account, [])
      | Some (JBool cc_required') \<Rightarrow>
          (if cc_required account \<noteq> cc_required' then
             (if \<not> cc_required' \<and> cc_required account then
                (let is_purchase_or_expense =
                       (acc_id account \<in> set (purchase_transactions s)
                        \<or> acc_id account \<in> set (expense_transactions s));
                     is_cogs_or_rebate =
                       (contains ''cost of goods sold'' (lower (name account))
                        \<or> contains ''rebate'' (lower (name account)))
                 in if is_purchase_or_expense \<or> is_cogs_or_rebate
                    then Inl (BadRequest (CcCannotDisable (name account)))
                    else Inr (account\<lparr>cc_required := cc_required'\<rparr>, [''cost center requirement'']))
              else Inr (account\<lparr>cc_required := cc_required'\<rparr>, [''cost center requirement'']))
           else Inr (account, []))
      | Some other \<Rightarrow> Inl (BadRequest CcNotBoolean))"

definition update_account_type ::
  "db \<Rightarrow> account \<Rightarrow> jval option \<Rightarrow> (error + (account \<times> string list)) option" where
  "update_account_type s account v =
     (case v of
        None \<Rightarrow> Some (Inr (account, []))
      | Some jv \<Rightarrow>
          if jv = JNull \<or> jv = JStr [] then
            (if account_type account \<noteq> None
             then Some (Inr (account\<lparr>account_type := None\<rparr>, [''account type'']))
             else Some (Inr (account, [])))
          else
            (case jv of
               JStr raw \<Rightarrow>
                 (let new_account_type = strip raw in
                  if new_account_type \<notin> set [''balance_sheet'', ''p&l'']
                  then Some (Inl (BadRequest AccountTypeInvalid))
                  else if account_type account \<noteq> Some new_account_type then
                    (case get_root_account s account of
                       None \<Rightarrow> None
                     | Some (Inl e) \<Rightarrow> Some (Inl e)
                     | Some (Inr root_account) \<Rightarrow>
                         if new_account_type = ''balance_sheet''
                            \<and> name root_account \<notin> set [''Assets'', ''Liability & Equity'']
                         then Some (Inl (BadRequest (BalanceSheetNotAllowed (name root_account))))
                         else if new_account_type = ''p&l''
                            \<and> name root_account \<notin> set [''Revenue'', ''Expenses'']
                         then Some (Inl (BadRequest (PnlNotAllowed (name root_account))))
                         else Some (Inr (account\<lparr>account_type := Some new_account_type\<rparr>,
                                         [''account type''])))
                  else Some (Inr (account, [])))
             | other \<Rightarrow> Some (Inl (BadRequest AccountTypeNotString))))"

text \<open>
  \<^verbatim>\<open>update_account\<close>. The object is changed in memory field by field and committed
  at the end; an exception leaves the session without a commit, so the database is the
  one the request found. \<open>None\<close> is a call that does not return.
\<close>

definition update_account ::
  "db \<Rightarrow> nat \<Rightarrow> update_fields \<Rightarrow> (db \<times> (error + update_result)) option" where
  "update_account s account_id uf =
     (case get_single_account s account_id of
        Inl e \<Rightarrow> Some (s, Inl e)
      | Inr account \<Rightarrow>
          (case update_name s account (u_name uf) of
             Inl e \<Rightarrow> Some (s, Inl e)
           | Inr (a1, ch1) \<Rightarrow>
               (case update_cc_required s a1 (u_cc_required uf) of
                  Inl e \<Rightarrow> Some (s, Inl e)
                | Inr (a2, ch2) \<Rightarrow>
                    (case update_account_type s a2 (u_account_type uf) of
                       None \<Rightarrow> None
                     | Some (Inl e) \<Rightarrow> Some (s, Inl e)
                     | Some (Inr (a3, ch3)) \<Rightarrow>
                         (let changes = ch1 @ ch2 @ ch3 in
                          if changes = [] then Some (s, Inr NoChanges)
                          else Some (s\<lparr>accounts := replace_account a3 (accounts s)\<rparr>,
                                     Inr (Updated changes)))))))"

section \<open>Deletion\<close>

definition count_refs :: "nat list \<Rightarrow> nat \<Rightarrow> nat" where
  "count_refs table i = length (filter (\<lambda>account_id. account_id = i) table)"

definition delete_account :: "db \<Rightarrow> nat \<Rightarrow> db \<times> (error + account)" where
  "delete_account s account_id =
     (case get_single_account s account_id of
        Inl e \<Rightarrow> (s, Inl e)
      | Inr account \<Rightarrow>
          if length (children_of s (acc_id account)) > 0
          then (s, Inl (BadRequest (IsParentAccount account_id)))
          else if related_entries s (name account) > 0
          then (s, Inl (BadRequest (UsedInTransactions (name account))))
          else if count_refs (sales_transactions s) (acc_id account) > 0
          then (s, Inl (BadRequest (SalesReferenced account_id
                          (count_refs (sales_transactions s) (acc_id account)))))
          else if count_refs (purchase_transactions s) (acc_id account) > 0
          then (s, Inl (BadRequest (PurchaseReferenced account_id
                          (count_refs (purchase_transactions s) (acc_id account)))))
          else if count_refs (expense_transactions s) (acc_id account) > 0
          then (s, Inl (BadRequest (ExpenseReferenced account_id
                          (count_refs (expense_transactions s) (acc_id account)))))
          else (s\<lparr>accounts := remove_account (acc_id account) (accounts s)\<rparr>, Inr account))"

section \<open>Balance aggregator and tree reads\<close>

text \<open>
  A node of the tree that \<^verbatim>\<open>get_all_accounts_from_stmt\<close> returns: the account, its
  \<^verbatim>\<open>debit_amount\<close> and \<^verbatim>\<open>credit_amount\<close> (subtree totals) and its children (the key
  \<^verbatim>\<open>children\<close> is absent when the list is empty).
\<close>

datatype account_dict = AccountDict account int int "account_dict list"

definition own_debit :: "db \<Rightarrow> account \<Rightarrow> int" where
  "own_debit s account =
     sum_list (map debit_amount
       (filter (\<lambda>entry. debit entry = name account)
         (filter (\<lambda>e. debit e = name account \<or> credit e = name account) (daily_entries s))))"

definition own_credit :: "db \<Rightarrow> account \<Rightarrow> int" where
  "own_credit s account =
     sum_list (map credit_amount
       (filter (\<lambda>entry. credit entry = name account)
         (filter (\<lambda>e. debit e = name account \<or> credit e = name account) (daily_entries s))))"

text \<open>
  \<^verbatim>\<open>compute_account_totals\<close> recurses into the children. The first argument bounds the
  depth of the recursion: \<open>None\<close> is a walk that needs more than that.
\<close>

fun compute_account_totals :: "nat \<Rightarrow> db \<Rightarrow> account \<Rightarrow> (account_dict \<times> int \<times> int) option" where
  "compute_account_totals 0 s account = None"
| "compute_account_totals (Suc fuel) s account =
     (let children = sort_by_code (children_of s (acc_id account)) in
      case those (map (compute_account_totals fuel s) children) of
        None \<Rightarrow> None
      | Some results \<Rightarrow>
          (let children_list = map fst results;
               children_total_debit = sum_list (map (\<lambda>r. fst (snd r)) results);
               children_total_credit = sum_list (map (\<lambda>r. snd (snd r)) results);
               total_debit = own_debit s account + children_total_debit;
               total_credit = own_credit s account + children_total_credit
           in Some (AccountDict account total_debit total_credit children_list,
                    total_debit, total_credit)))"

record tree_result =
  accounts_list :: "account_dict list"
  grand_total_debit :: int
  grand_total_credit :: int

definition get_all_accounts_from_stmt :: "nat \<Rightarrow> db \<Rightarrow> account list \<Rightarrow> tree_result option" where
  "get_all_accounts_from_stmt fuel s stmt =
     (case those (map (compute_account_totals fuel s) stmt) of
        None \<Rightarrow> None
      | Some results \<Rightarrow>
          Some \<lparr>accounts_list = map fst results,
                grand_total_debit = sum_list (map (\<lambda>r. fst (snd r)) results),
                grand_total_credit = sum_list (map (\<lambda>r. snd (snd r)) results)\<rparr>)"

definition get_account_tree :: "nat \<Rightarrow> db \<Rightarrow> tree_result option" where
  "get_account_tree fuel s = get_all_accounts_from_stmt fuel s (filter is_root (accounts s))"

datatype account_tree = AccountTree account "account_tree list"

fun build_account_tree :: "nat \<Rightarrow> db \<Rightarrow> account \<Rightarrow> account_tree option" where
  "build_account_tree 0 s account = None"
| "build_account_tree (Suc fuel) s account =
     (case those (map (build_account_tree fuel s) (children_of s (acc_id account))) of
        None \<Rightarrow> None
      | Some children \<Rightarrow> Some (AccountTree account children))"

definition get_accounts_by_parent_name :: "nat \<Rightarrow> db \<Rightarrow> string \<Rightarrow> (error + account_tree) option" where
  "get_accounts_by_parent_name fuel s parent_name =
     (case find (\<lambda>a. name a = parent_name) (accounts s) of
        None \<Rightarrow> Some (Inl (AccountNameNotFoundException parent_name))
      | Some parent \<Rightarrow> map_option Inr (build_account_tree fuel s parent))"


section \<open>An example database\<close>

text \<open>
  The four roots as the bootstrap writes them into an empty database, three accounts
  created under them, and two journal entries.
\<close>

definition demo_accounts :: "account list" where
  "demo_accounts =
     [\<lparr>acc_id = 1, name = ''Assets'', code = ''1000'', parent_id = None,
       nature = Some ''debit'', cc_required = False, account_type = Some ''balance_sheet''\<rparr>,
      \<lparr>acc_id = 2, name = ''Liability & Equity'', code = ''2000'', parent_id = None,
       nature = Some ''credit'', cc_required = False, account_type = Some ''balance_sheet''\<rparr>,
      \<lparr>acc_id = 3, name = ''Expenses'', code = ''3000'', parent_id = None,
       nature = Some ''debit'', cc_required = False, account_type = Some ''p&l''\<rparr>,
      \<lparr>acc_id = 4, name = ''Revenue'', code = ''4000'', parent_id = None,
       nature = Some ''credit'', cc_required = False, account_type = Some ''p&l''\<rparr>,
      \<lparr>acc_id = 5, name = ''Cash'', code = ''1001'', parent_id = Some 1,
       nature = Some ''debit'', cc_required = False, account_type = Some ''balance_sheet''\<rparr>,
      \<lparr>acc_id = 6, name = ''Sales'', code = ''4001'', parent_id = Some 4,
       nature = Some ''credit'', cc_required = False, account_type = Some ''p&l''\<rparr>,
      \<lparr>acc_id = 7, name = ''Interest Income'', code = ''4002'', parent_id = Some 4,
       nature = Some ''credit'', cc_required = False, account_type = Some ''p&l''\<rparr>]"

definition demo_db :: db where
  "demo_db =
     \<lparr>accounts = demo_accounts,
      daily_entries =
        [\<lparr>debit = ''Cash'', credit = ''Capital'', debit_amount = 100, credit_amount = 100\<rparr>,
         \<lparr>debit = ''Rent'', credit = ''Cash'', debit_amount = 40, credit_amount = 40\<rparr>],
      sales_transactions = [6], purchase_transactions = [], expense_transactions = [],
      next_id = 8\<rparr>"

section \<open>Example requests\<close>

text \<open>An update that carries only a name, and one that carries only an account type.\<close>

definition rename_request :: "string \<Rightarrow> update_fields" where
  "rename_request raw = \<lparr>u_name = Some (JStr raw), u_cc_required = None, u_account_type = None\<rparr>"

definition set_type_request :: "jval \<Rightarrow> update_fields" where
  "set_type_request v = \<lparr>u_name = None, u_cc_required = None, u_account_type = Some v\<rparr>"

text \<open>
  The database right after the bootstrap of an empty one (the four roots, ids 1 to 4), a
  creation request that names only the account and its parent, and the two accounts the
  cost-centre scenarios create under \<open>Expenses\<close>.
\<close>

definition new_account_request :: "string \<Rightarrow> nat \<Rightarrow> body" where
  "new_account_request nm parent =
     \<lparr>b_name = nm, b_parent_id = Some parent, b_nature = None, b_cc_required = False,
      b_account_type = None\<rparr>"

definition roots_db :: db where
  "roots_db =
     \<lparr>accounts = take 4 demo_accounts, daily_entries = [], sales_transactions = [],
      purchase_transactions = [], expense_transactions = [], next_id = 5\<rparr>"



text \<open>
  The account \<open>Cash\<close> as a creation under \<open>Assets\<close> stores it, and the example database
  after the account type of \<open>Cash\<close> has been cleared.
\<close>

definition cash :: account where
  "cash = \<lparr>acc_id = 5, name = ''Cash'', code = ''1001'', parent_id = Some 1,
           nature = Some ''debit'', cc_required = False, account_type = Some ''balance_sheet''\<rparr>"

definition cleared_db :: db where
  "cleared_db = demo_db\<lparr>accounts := replace_account (cash\<lparr>account_type := None\<rparr>) demo_accounts\<rparr>"

text \<open>
  A database in which \<open>Assets\<close> has had 999 children: the last of them, with code \<open>1999\<close>,
  is still there (the others have been deleted again). The two accounts and the two
  databases that two further creations under \<open>Assets\<close> produce.
\<close>

definition account_999 :: account where
  "account_999 =
     \<lparr>acc_id = 1003, name = ''Account 999'', code = ''1999'', parent_id = Some 1,
      nature = Some ''debit'', cc_required = False, account_type = Some ''balance_sheet''\<rparr>"

definition account_1000 :: account where
  "account_1000 =
     \<lparr>acc_id = 1004, name = ''Account 1000'', code = ''11000'', parent_id = Some 1,
      nature = Some ''debit'', cc_required = False, account_type = Some ''balance_sheet''\<rparr>"

definition account_1001 :: account where
  "account_1001 =
     \<lparr>acc_id = 1005, name = ''Account 1001'', code = ''11000'', parent_id = Some 1,
      nature = Some ''debit'', cc_required = False, account_type = Some ''balance_sheet''\<rparr>"

definition overflow_db :: db where
  "overflow_db = roots_db\<lparr>accounts := accounts roots_db @ [account_999], next_id := 1004\<rparr>"

definition overflow_db' :: db where
  "overflow_db' = overflow_db\<lparr>accounts := accounts overflow_db @ [account_1000], next_id := 1005\<rparr>"

definition overflow_db'' :: db where
  "overflow_db'' = overflow_db'\<lparr>accounts := accounts overflow_db' @ [account_1001], next_id := 1006\<rparr>"

text \<open>
  The example database after \<open>Sales\<close> has been renamed to \<open>Sales2\<close>, after it has then been
  renamed to \<open>SALES\<close>, and the example database after the root \<open>Assets\<close> has been renamed
  to \<open>Fixed Assets\<close>.
\<close>

definition sales2_db :: db where
  "sales2_db = demo_db\<lparr>accounts := replace_account ((demo_accounts ! 5)\<lparr>name := ''Sales2''\<rparr>) demo_accounts\<rparr>"

definition sales_upper_db :: db where
  "sales_upper_db = demo_db\<lparr>accounts := replace_account ((demo_accounts ! 5)\<lparr>name := ''SALES''\<rparr>) demo_accounts\<rparr>"

definition fixed_db :: db where
  "fixed_db = demo_db\<lparr>accounts := replace_account ((demo_accounts ! 0)\<lparr>name := ''Fixed Assets''\<rparr>) demo_accounts\<rparr>"

section \<open>Notions used to state the properties\<close>

text \<open>Invoking the root bootstrap \<open>n\<close> times in a row, stopping at the first failure.\<close>

fun validate_root_accounts_times :: "nat \<Rightarrow> db \<Rightarrow> error + db" where
  "validate_root_accounts_times 0 s = Inr s"
| "validate_root_accounts_times (Suc n) s =
     (case validate_root_accounts s of
        Inl e \<Rightarrow> Inl e
      | Inr s' \<Rightarrow> validate_root_accounts_times n s')"

text \<open>The root accounts of a database: the rows without a parent, in table order.\<close>

definition roots :: "db \<Rightarrow> account list" where
  "roots s = filter is_root (accounts s)"

text \<open>
  The primary key of the accounts table: ids are pairwise different and below the next
  value of the sequence.
\<close>

definition ids_ok :: "db \<Rightarrow> bool" where
  "ids_ok s = (distinct (map acc_id (accounts s)) \<and> list_all (\<lambda>a. acc_id a < next_id s) (accounts s))"

text \<open>
  An account is canonical when its name, nature, account type and cost-centre flag are
  those of one entry of \<open>root_accounts\<close>; it has a canonical nature when its name and
  nature are.
\<close>

definition canonical :: "account \<Rightarrow> bool" where
  "canonical a =
     ((name a, nature a, account_type a, cc_required a)
        \<in> set (map (\<lambda>(nm, nat', ty, cc). (nm, Some nat', Some ty, cc)) root_accounts))"

definition canonical_nature :: "account \<Rightarrow> bool" where
  "canonical_nature a =
     ((name a, nature a) \<in> set (map (\<lambda>(nm, nat', ty, cc). (nm, Some nat')) root_accounts))"

text \<open>
  The starting databases of the bootstrap theorem: the root accounts have pairwise
  different names, each is named as one of the four canonical roots and has that root's
  nature, and its code is a number. The empty database is one of them.
\<close>

definition roots_known :: "db \<Rightarrow> bool" where
  "roots_known s =
     (distinct (map name (roots s))
      \<and> list_all (\<lambda>a. canonical_nature a \<and> py_int (code a) \<noteq> None) (roots s))"

text \<open>Exactly four roots, named as the four entries of \<open>root_accounts\<close>, each canonical.\<close>

definition four_canonical_roots :: "db \<Rightarrow> bool" where
  "four_canonical_roots s =
     (length (roots s) = 4 \<and> set (map name (roots s)) = set (map fst root_accounts)
      \<and> list_all canonical (roots s))"

text \<open>
  The database \<open>fixed_db\<close> (the root \<open>Assets\<close> renamed to \<open>Fixed Assets\<close>) after a
  bootstrap.
\<close>

definition five_roots_db :: db where
  "five_roots_db =
     fixed_db\<lparr>accounts := accounts fixed_db @
        [\<lparr>acc_id = 8, name = ''Assets'', code = ''5000'', parent_id = None,
          nature = Some ''debit'', cc_required = False, account_type = Some ''balance_sheet''\<rparr>],
       next_id := 9\<rparr>"

text \<open>
  The accounts form a forest when every parent id is the id of a row and is smaller than
  the id of the child (creation gives a new account the next id of the sequence, so a
  parent is older than its children).
\<close>

definition parents_ok :: "db \<Rightarrow> bool" where
  "parents_ok s =
     list_all (\<lambda>a. case parent_id a of
                      None \<Rightarrow> True
                    | Some p \<Rightarrow> p < acc_id a \<and> get_by_id s p \<noteq> None) (accounts s)"

text \<open>The leaf accounts: the rows that no row names as its parent.\<close>

definition leaves :: "db \<Rightarrow> account list" where
  "leaves s = filter (\<lambda>a. children_of s (acc_id a) = []) (accounts s)"

text \<open>
  The example database with one journal entry, which debits the root \<open>Assets\<close> and credits
  the root \<open>Revenue\<close>; both have children.
\<close>

definition parent_entry_db :: db where
  "parent_entry_db =
     demo_db\<lparr>daily_entries :=
       [\<lparr>debit = ''Assets'', credit = ''Revenue'', debit_amount = 70, credit_amount = 70\<rparr>]\<rparr>"

section \<open>Properties\<close>

subsection \<open>Rows and their ids\<close>

lemma find_id_Some: "find (\<lambda>b. acc_id b = i) xs = Some a \<Longrightarrow> acc_id a = i \<and> a \<in> set xs"
  by (induction xs) (auto split: if_splits)

lemma find_remove_account:
  "find (\<lambda>b. acc_id b = i) xs = Some a \<Longrightarrow> remove_account i xs = remove1 a xs"
proof (induction xs)
  case Nil
  then show ?case by simp
next
  case (Cons b bs)
  show ?case
  proof (cases "acc_id b = i")
    case True
    with Cons.prems have "a = b" by simp
    with True show ?thesis by simp
  next
    case False
    with Cons.prems have f: "find (\<lambda>b. acc_id b = i) bs = Some a" by simp
    then have "acc_id a = i" using find_id_Some by blast
    with False have "a \<noteq> b" by auto
    with False Cons.IH [OF f] show ?thesis by simp
  qed
qed

lemma remove_account_absent:
  "distinct (map acc_id xs) \<Longrightarrow> find (\<lambda>b. acc_id b = i) (remove_account i xs) = None"
proof (induction xs)
  case Nil
  then show ?case by simp
next
  case (Cons b bs)
  show ?case
  proof (cases "acc_id b = i")
    case True
    with Cons.prems have "i \<notin> acc_id ` set bs" by auto
    then have "find (\<lambda>b. acc_id b = i) bs = None" by (auto simp: find_None_iff)
    with True show ?thesis by simp
  next
    case False
    with Cons show ?thesis by simp
  qed
qed


lemma delete_account_found:
  assumes "get_by_id s i = Some a"
  shows "delete_account s i =
     (if children_of s i \<noteq> [] then (s, Inl (BadRequest (IsParentAccount i)))
      else if related_entries s (name a) \<noteq> 0
      then (s, Inl (BadRequest (UsedInTransactions (name a))))
      else if count_refs (sales_transactions s) i \<noteq> 0
      then (s, Inl (BadRequest (SalesReferenced i (count_refs (sales_transactions s) i))))
      else if count_refs (purchase_transactions s) i \<noteq> 0
      then (s, Inl (BadRequest (PurchaseReferenced i (count_refs (purchase_transactions s) i))))
      else if count_refs (expense_transactions s) i \<noteq> 0
      then (s, Inl (BadRequest (ExpenseReferenced i (count_refs (expense_transactions s) i))))
      else (s\<lparr>accounts := remove1 a (accounts s)\<rparr>, Inr a))"
proof -
  from assms have f: "find (\<lambda>b. acc_id b = i) (accounts s) = Some a"
    by (simp add: get_by_id_def)
  have ida: "acc_id a = i" using find_id_Some [OF f] by simp
  have rm: "remove_account i (accounts s) = remove1 a (accounts s)"
    by (rule find_remove_account [OF f])
  have gs: "get_single_account s i = Inr a"
    using assms by (simp add: get_single_account_def)
  show ?thesis
    unfolding delete_account_def gs by (simp add: ida rm)
qed

subsection \<open>Deletion\<close>

text \<open>
  Claim C5. Let \<open>delete_account\<close> find the account \<open>a\<close> under the id \<open>i\<close>. If \<open>a\<close> has a child
  account, the call fails with the "is a parent account" bad request and the database is
  unchanged. The five blocking reasons are tested in the order children, journal entries
  naming the account as debit or credit, sales, purchase and expense references; each of them
  blocks the deletion on its own, leaves the database unchanged, and is reported by an error
  of its own (five different constructors). With no child and no reference the call
  succeeds, the row of \<open>a\<close> is removed from the table, the returned representation is \<open>a\<close>,
  and (ids being unique) no account is found under \<open>i\<close> afterwards.
\<close>

theorem delete_account_guard:
  assumes "get_by_id s i = Some a"
  shows "(children_of s i \<noteq> [] \<longrightarrow>
            delete_account s i = (s, Inl (BadRequest (IsParentAccount i))))
       \<and> (children_of s i = [] \<and> related_entries s (name a) \<noteq> 0 \<longrightarrow>
            delete_account s i = (s, Inl (BadRequest (UsedInTransactions (name a)))))
       \<and> (children_of s i = [] \<and> related_entries s (name a) = 0
            \<and> count_refs (sales_transactions s) i \<noteq> 0 \<longrightarrow>
            delete_account s i =
              (s, Inl (BadRequest (SalesReferenced i (count_refs (sales_transactions s) i)))))
       \<and> (children_of s i = [] \<and> related_entries s (name a) = 0
            \<and> count_refs (sales_transactions s) i = 0
            \<and> count_refs (purchase_transactions s) i \<noteq> 0 \<longrightarrow>
            delete_account s i =
              (s, Inl (BadRequest (PurchaseReferenced i (count_refs (purchase_transactions s) i)))))
       \<and> (children_of s i = [] \<and> related_entries s (name a) = 0
            \<and> count_refs (sales_transactions s) i = 0
            \<and> count_refs (purchase_transactions s) i = 0
            \<and> count_refs (expense_transactions s) i \<noteq> 0 \<longrightarrow>
            delete_account s i =
              (s, Inl (BadRequest (ExpenseReferenced i (count_refs (expense_transactions s) i)))))
       \<and> (children_of s i \<noteq> [] \<or> related_entries s (name a) \<noteq> 0
            \<or> count_refs (sales_transactions s) i \<noteq> 0
            \<or> count_refs (purchase_transactions s) i \<noteq> 0
            \<or> count_refs (expense_transactions s) i \<noteq> 0 \<longrightarrow>
            (\<exists>e. delete_account s i = (s, Inl (BadRequest e))))
       \<and> (children_of s i = [] \<and> related_entries s (name a) = 0
            \<and> count_refs (sales_transactions s) i = 0
            \<and> count_refs (purchase_transactions s) i = 0
            \<and> count_refs (expense_transactions s) i = 0 \<longrightarrow>
            delete_account s i = (s\<lparr>accounts := remove1 a (accounts s)\<rparr>, Inr a)
            \<and> (distinct (map acc_id (accounts s)) \<longrightarrow>
                 get_by_id (fst (delete_account s i)) i = None))"
proof -
  note d = delete_account_found [OF assms]
  from assms have f: "find (\<lambda>b. acc_id b = i) (accounts s) = Some a"
    by (simp add: get_by_id_def)
  have rm: "remove_account i (accounts s) = remove1 a (accounts s)"
    by (rule find_remove_account [OF f])
  have gone: "distinct (map acc_id (accounts s)) \<Longrightarrow>
      get_by_id (s\<lparr>accounts := remove1 a (accounts s)\<rparr>) i = None"
    using remove_account_absent [of "accounts s" i] rm by (simp add: get_by_id_def)
  have c1: "children_of s i \<noteq> [] \<longrightarrow>
            delete_account s i = (s, Inl (BadRequest (IsParentAccount i)))"
    by (simp add: d)
  have c2: "children_of s i = [] \<and> related_entries s (name a) \<noteq> 0 \<longrightarrow>
            delete_account s i = (s, Inl (BadRequest (UsedInTransactions (name a))))"
    by (simp add: d)
  have c3: "children_of s i = [] \<and> related_entries s (name a) = 0
            \<and> count_refs (sales_transactions s) i \<noteq> 0 \<longrightarrow>
            delete_account s i =
              (s, Inl (BadRequest (SalesReferenced i (count_refs (sales_transactions s) i))))"
    by (simp add: d)
  have c4: "children_of s i = [] \<and> related_entries s (name a) = 0
            \<and> count_refs (sales_transactions s) i = 0
            \<and> count_refs (purchase_transactions s) i \<noteq> 0 \<longrightarrow>
            delete_account s i =
              (s, Inl (BadRequest (PurchaseReferenced i (count_refs (purchase_transactions s) i))))"
    by (simp add: d)
  have c5: "children_of s i = [] \<and> related_entries s (name a) = 0
            \<and> count_refs (sales_transactions s) i = 0
            \<and> count_refs (purchase_transactions s) i = 0
            \<and> count_refs (expense_transactions s) i \<noteq> 0 \<longrightarrow>
            delete_account s i =
              (s, Inl (BadRequest (ExpenseReferenced i (count_refs (expense_transactions s) i))))"
    by (simp add: d)
  have c6: "children_of s i \<noteq> [] \<or> related_entries s (name a) \<noteq> 0
            \<or> count_refs (sales_transactions s) i \<noteq> 0
            \<or> count_refs (purchase_transactions s) i \<noteq> 0
            \<or> count_refs (expense_transactions s) i \<noteq> 0 \<longrightarrow>
            (\<exists>e. delete_account s i = (s, Inl (BadRequest e)))"
    by (simp add: d)
  have c7: "children_of s i = [] \<and> related_entries s (name a) = 0
            \<and> count_refs (sales_transactions s) i = 0
            \<and> count_refs (purchase_transactions s) i = 0
            \<and> count_refs (expense_transactions s) i = 0 \<longrightarrow>
            delete_account s i = (s\<lparr>accounts := remove1 a (accounts s)\<rparr>, Inr a)
            \<and> (distinct (map acc_id (accounts s)) \<longrightarrow>
                 get_by_id (fst (delete_account s i)) i = None)"
    using gone by (simp add: d)
  from c1 c2 c3 c4 c5 c6 c7 show ?thesis by (intro conjI)
qed

theorem delete_account_guard_witness:
  "delete_account demo_db 1 = (demo_db, Inl (BadRequest (IsParentAccount 1)))
   \<and> delete_account demo_db 5 = (demo_db, Inl (BadRequest (UsedInTransactions ''Cash'')))
   \<and> delete_account demo_db 6 = (demo_db, Inl (BadRequest (SalesReferenced 6 1)))
   \<and> delete_account demo_db 7
       = (demo_db\<lparr>accounts := remove1 (demo_accounts ! 6) demo_accounts\<rparr>, Inr (demo_accounts ! 6))
   \<and> get_by_id (fst (delete_account demo_db 7)) 7 = None"
proof -
  have g1: "get_by_id demo_db 1 = Some (demo_accounts ! 0)"
    and g5: "get_by_id demo_db 5 = Some (demo_accounts ! 4)"
    and g6: "get_by_id demo_db 6 = Some (demo_accounts ! 5)"
    and g7: "get_by_id demo_db 7 = Some (demo_accounts ! 6)"
    by (simp_all add: get_by_id_def demo_db_def demo_accounts_def)
  have ch: "children_of demo_db 1 \<noteq> []" "children_of demo_db 5 = []"
    "children_of demo_db 6 = []" "children_of demo_db 7 = []"
    by (simp_all add: children_of_def demo_db_def demo_accounts_def)
  have re: "related_entries demo_db (name (demo_accounts ! 4)) \<noteq> 0"
    "related_entries demo_db (name (demo_accounts ! 5)) = 0"
    "related_entries demo_db (name (demo_accounts ! 6)) = 0"
    by (simp_all add: related_entries_def demo_db_def demo_accounts_def)
  have cr: "count_refs (sales_transactions demo_db) 6 = 1"
    "count_refs (sales_transactions demo_db) 7 = 0"
    "count_refs (purchase_transactions demo_db) 7 = 0"
    "count_refs (expense_transactions demo_db) 7 = 0"
    by (simp_all add: count_refs_def demo_db_def)
  have nm: "name (demo_accounts ! 4) = ''Cash''"
    by (simp add: demo_accounts_def)
  have di: "distinct (map acc_id demo_accounts)" "accounts demo_db = demo_accounts"
    by (simp_all add: demo_db_def demo_accounts_def)
  have w1: "delete_account demo_db 1 = (demo_db, Inl (BadRequest (IsParentAccount 1)))"
    using delete_account_guard [OF g1] ch by blast
  have w5: "delete_account demo_db 5 = (demo_db, Inl (BadRequest (UsedInTransactions ''Cash'')))"
    using delete_account_guard [OF g5] ch re nm by simp
  have w6: "delete_account demo_db 6 = (demo_db, Inl (BadRequest (SalesReferenced 6 1)))"
    using delete_account_guard [OF g6] ch re cr by simp
  have w7: "delete_account demo_db 7
       = (demo_db\<lparr>accounts := remove1 (demo_accounts ! 6) demo_accounts\<rparr>, Inr (demo_accounts ! 6))
     \<and> (distinct (map acc_id demo_accounts) \<longrightarrow>
            get_by_id (fst (delete_account demo_db 7)) 7 = None)"
    using delete_account_guard [OF g7] ch re cr unfolding di by blast
  from w1 w5 w6 w7 di show ?thesis by blast
qed

subsection \<open>Update: the three field handlers\<close>

lemma get_single_account_found:
  "get_by_id s i = Some a \<Longrightarrow> get_single_account s i = Inr a"
  by (simp add: get_single_account_def)

lemma get_by_id_acc_id: "get_by_id s i = Some a \<Longrightarrow> acc_id a = i"
  unfolding get_by_id_def using find_id_Some by blast

lemma find_replace_account:
  "find (\<lambda>b. acc_id b = i) xs = Some a \<Longrightarrow> acc_id a' = i \<Longrightarrow>
   find (\<lambda>b. acc_id b = i) (replace_account a' xs) = Some a'"
  by (induction xs) (simp_all split: if_splits)

lemma update_name_same:
  "strip raw \<noteq> [] \<Longrightarrow> lower (strip raw) = lower (name a) \<Longrightarrow>
   update_name s a (Some (JStr raw)) = Inr (a, [])"
  by (simp add: update_name_def)

lemma update_name_result:
  assumes "update_name s a v = Inr (a', ch)"
  shows "(a' = a \<and> ch = []) \<or>
         (\<exists>raw. v = Some (JStr raw) \<and> a' = a\<lparr>name := strip raw\<rparr> \<and> ch = [''name'']
            \<and> strip raw \<noteq> [] \<and> lower (name a) \<noteq> lower (strip raw)
            \<and> related_entries s (name a) = 0
            \<and> check_if_account_exist s (strip raw) = Inr ())"
proof (cases v)
  case None
  with assms show ?thesis by (simp add: update_name_def)
next
  case (Some jv)
  show ?thesis
  proof (cases jv)
    case (JStr raw)
    with Some assms show ?thesis
      by (simp add: update_name_def Let_def split: if_splits sum.splits)
  qed (use Some assms in \<open>simp_all add: update_name_def\<close>)
qed

lemma update_cc_required_result:
  assumes "update_cc_required s a v = Inr (a', ch)"
  shows "(a' = a \<and> ch = []) \<or>
         (\<exists>cc. a' = a\<lparr>cc_required := cc\<rparr> \<and> ch = [''cost center requirement''])"
proof (cases v)
  case None
  with assms show ?thesis by (simp add: update_cc_required_def)
next
  case (Some jv)
  show ?thesis
  proof (cases jv)
    case (JBool cc)
    with Some assms show ?thesis
      by (auto simp add: update_cc_required_def Let_def split: if_splits)
  qed (use Some assms in \<open>simp_all add: update_cc_required_def\<close>)
qed

lemma update_account_type_result:
  assumes "update_account_type s a v = Some (Inr (a', ch))"
  shows "(a' = a \<and> ch = []) \<or>
         (a' = a\<lparr>account_type := None\<rparr> \<and> ch = [''account type'']) \<or>
         (\<exists>r t. get_root_account s a = Some (Inr r) \<and> a' = a\<lparr>account_type := Some t\<rparr>
            \<and> ch = [''account type'']
            \<and> ((t = ''balance_sheet'' \<and> name r \<in> set [''Assets'', ''Liability & Equity''])
               \<or> (t = ''p&l'' \<and> name r \<in> set [''Revenue'', ''Expenses''])))"
proof (cases v)
  case None
  with assms show ?thesis by (simp add: update_account_type_def)
next
  case (Some jv)
  show ?thesis
  proof (cases "jv = JNull \<or> jv = JStr []")
    case True
    with Some assms show ?thesis
      by (auto simp add: update_account_type_def split: if_splits)
  next
    case False
    show ?thesis
    proof (cases jv)
      case (JStr raw)
      with False have nz: "raw \<noteq> []" by simp
      from assms Some JStr nz show ?thesis
        unfolding update_account_type_def Let_def
        by (auto split: if_splits option.splits sum.splits)
    qed (use Some assms False in \<open>simp_all add: update_account_type_def\<close>)
  qed
qed

lemma update_account_result:
  assumes "get_by_id s i = Some a" and "update_account s i uf = Some (s', r)"
  shows "(s' = s \<and> (r = Inr NoChanges \<or> (\<exists>e. r = Inl e))) \<or>
         (\<exists>a1 ch1 a2 ch2 a3 ch3.
            update_name s a (u_name uf) = Inr (a1, ch1)
            \<and> update_cc_required s a1 (u_cc_required uf) = Inr (a2, ch2)
            \<and> update_account_type s a2 (u_account_type uf) = Some (Inr (a3, ch3))
            \<and> s' = s\<lparr>accounts := replace_account a3 (accounts s)\<rparr>
            \<and> r = Inr (Updated (ch1 @ ch2 @ ch3)))"
  using assms(2) unfolding update_account_def get_single_account_found [OF assms(1)] Let_def
  by (auto split: sum.splits option.splits if_splits prod.splits)

lemma update_steps_fields:
  assumes "update_name s a v1 = Inr (a1, ch1)"
      and "update_cc_required s a1 v2 = Inr (a2, ch2)"
      and "update_account_type s a2 v3 = Some (Inr (a3, ch3))"
  shows "acc_id a3 = acc_id a \<and> parent_id a3 = parent_id a \<and> nature a3 = nature a
         \<and> code a3 = code a \<and> name a3 = name a1"
  using update_name_result [OF assms(1)] update_cc_required_result [OF assms(2)]
    update_account_type_result [OF assms(3)]
  by auto

lemma map_name_replace_account:
  "find (\<lambda>b. acc_id b = i) xs = Some a \<Longrightarrow> acc_id a' = i \<Longrightarrow> name a' = name a \<Longrightarrow>
   map name (replace_account a' xs) = map name xs"
  by (induction xs) (simp_all split: if_splits)

lemma check_if_account_exist_iff:
  "check_if_account_exist s nm =
     (if \<exists>b\<in>set (accounts s). lower (name b) = lower nm
      then Inl (AccountExistsException nm) else Inr ())"
proof (cases "find (\<lambda>a. lower (name a) = lower nm) (accounts s)")
  case None
  then have "\<not> (\<exists>b\<in>set (accounts s). lower (name b) = lower nm)"
    by (simp add: find_None_iff)
  with None show ?thesis by (simp add: check_if_account_exist_def)
next
  case (Some b)
  then have "\<exists>b\<in>set (accounts s). lower (name b) = lower nm"
    unfolding find_Some_iff by (metis nth_mem)
  with Some show ?thesis by (simp add: check_if_account_exist_def)
qed

lemma get_root_account_same_parent:
  assumes "parent_id a' = parent_id a" and "get_root_account s a = Some (Inr r)"
  shows "\<exists>r'. get_root_account s a' = Some (Inr r') \<and> (name a' = name a \<longrightarrow> name r' = name r)"
proof (cases "parent_id a")
  case None
  with assms show ?thesis
    by (subst get_root_account.simps) (simp add: get_root_account.simps [of s a])
next
  case (Some p)
  with assms show ?thesis
    by (subst get_root_account.simps) (simp add: get_root_account.simps [of s a])
qed

subsection \<open>Update: a name that differs only in letter case\<close>

lemma update_cc_required_same:
  "v = None \<or> v = Some (JBool (cc_required a)) \<Longrightarrow> update_cc_required s a v = Inr (a, [])"
  by (auto simp: update_cc_required_def)

lemma update_account_type_same:
  assumes "v = None
         \<or> (account_type a = None \<and> (v = Some JNull \<or> v = Some (JStr [])))
         \<or> (\<exists>t. v = Some (JStr t) \<and> strip t \<in> set [''balance_sheet'', ''p&l'']
                \<and> account_type a = Some (strip t))"
  shows "update_account_type s a v = Some (Inr (a, []))"
  using assms
proof (elim disjE exE conjE)
  fix t
  assume v: "v = Some (JStr t)" and t: "strip t \<in> set [''balance_sheet'', ''p&l'']"
    and a: "account_type a = Some (strip t)"
  from t have "t \<noteq> []" by (auto simp: strip_def)
  with v t a show ?thesis by (auto simp add: update_account_type_def Let_def)
qed (simp_all add: update_account_type_def)

text \<open>
  Claim C10, as stated, fails in its last sentence: the capitalization of a stored name can
  be changed through the update path, by two updates. \<open>Sales\<close> is in no journal entry; the
  first update renames it to \<open>Sales2\<close>, the second renames \<open>Sales2\<close> to \<open>SALES\<close>, and both
  succeed.
\<close>

theorem capitalization_changed_counterexample:
  "update_account demo_db 6 (rename_request ''Sales2'')
     = Some (sales2_db, Inr (Updated [''name'']))
   \<and> update_account sales2_db 6 (rename_request ''SALES'')
     = Some (sales_upper_db, Inr (Updated [''name'']))
   \<and> map_option name (get_by_id demo_db 6) = Some ''Sales''
   \<and> map_option name (get_by_id sales_upper_db 6) = Some ''SALES''
   \<and> lower ''SALES'' = lower ''Sales''
   \<and> ''SALES'' \<noteq> ''Sales''"
  by code_simp

text \<open>
  Claim C10, amended. Let the update find the account \<open>a\<close> under the id \<open>i\<close>, and let the \<^verbatim>\<open>name\<close>
  field of the request be a string that, stripped as the code strips it, is not empty and
  equals the current name of \<open>a\<close> when both are lower-cased. Then:
  \<^item> when no other field differs (the cost-centre flag is absent or equals the stored one; the
    account type is absent, or null or empty with null stored, or one of the two type names and
    equal to the stored one), the update returns "No changes detected" and the database it
    found;
  \<^item> the name handler returns the account unchanged and records no change in every database:
    neither the journal entries nor the other accounts' names are consulted;
  \<^item> any request with this name field that returns leaves every stored name as it was and does
    not list \<open>name\<close> among the changed fields;
  \<^item> consequently no single update changes only the letter case of a stored name: after any
    update that returns, the name of the account is the old one or differs from it even when
    both are lower-cased. (Two updates can change the capitalization, through another name.)
\<close>

theorem update_name_case_only:
  assumes "get_by_id s i = Some a"
      and "strip raw \<noteq> []"
      and "lower (strip raw) = lower (name a)"
  shows "(\<forall>uf. u_name uf = Some (JStr raw)
             \<and> (u_cc_required uf = None \<or> u_cc_required uf = Some (JBool (cc_required a)))
             \<and> (u_account_type uf = None
                \<or> (account_type a = None
                    \<and> (u_account_type uf = Some JNull \<or> u_account_type uf = Some (JStr [])))
                \<or> (\<exists>t. u_account_type uf = Some (JStr t)
                       \<and> strip t \<in> set [''balance_sheet'', ''p&l'']
                       \<and> account_type a = Some (strip t))) \<longrightarrow>
             update_account s i uf = Some (s, Inr NoChanges))
       \<and> (\<forall>s2. update_name s2 a (Some (JStr raw)) = Inr (a, []))
       \<and> (\<forall>uf s' r. u_name uf = Some (JStr raw) \<and> update_account s i uf = Some (s', r) \<longrightarrow>
             map name (accounts s') = map name (accounts s)
             \<and> (\<forall>ch. r = Inr (Updated ch) \<longrightarrow> ''name'' \<notin> set ch))
       \<and> (\<forall>uf s' r a'. update_account s i uf = Some (s', r) \<and> get_by_id s' i = Some a' \<longrightarrow>
             name a' = name a \<or> lower (name a') \<noteq> lower (name a))"
proof -
  have same: "update_name s2 a (Some (JStr raw)) = Inr (a, [])" for s2
    by (rule update_name_same [OF assms(2,3)])
  have ida: "acc_id a = i" by (rule get_by_id_acc_id [OF assms(1)])
  have f: "find (\<lambda>b. acc_id b = i) (accounts s) = Some a"
    using assms(1) by (simp add: get_by_id_def)
  have p1: "update_account s i uf = Some (s, Inr NoChanges)"
    if u: "u_name uf = Some (JStr raw)
             \<and> (u_cc_required uf = None \<or> u_cc_required uf = Some (JBool (cc_required a)))
             \<and> (u_account_type uf = None
                \<or> (account_type a = None
                    \<and> (u_account_type uf = Some JNull \<or> u_account_type uf = Some (JStr [])))
                \<or> (\<exists>t. u_account_type uf = Some (JStr t)
                       \<and> strip t \<in> set [''balance_sheet'', ''p&l'']
                       \<and> account_type a = Some (strip t)))" for uf
  proof -
    from u have n: "u_name uf = Some (JStr raw)" by simp
    from u have c: "update_cc_required s a (u_cc_required uf) = Inr (a, [])"
      by (intro update_cc_required_same) simp
    from u have t: "update_account_type s a (u_account_type uf) = Some (Inr (a, []))"
      by (intro update_account_type_same) simp
    show ?thesis
      unfolding update_account_def get_single_account_found [OF assms(1)]
      by (simp add: n same c t)
  qed
  have p2: "map name (accounts s') = map name (accounts s)
             \<and> (\<forall>ch. r = Inr (Updated ch) \<longrightarrow> ''name'' \<notin> set ch)"
    if u: "u_name uf = Some (JStr raw)" and up: "update_account s i uf = Some (s', r)"
    for uf s' r
  proof -
    from update_account_result [OF assms(1) up]
    consider (unchanged) "s' = s" "r = Inr NoChanges \<or> (\<exists>e. r = Inl e)"
      | (changed) a1 ch1 a2 ch2 a3 ch3 where
        "update_name s a (u_name uf) = Inr (a1, ch1)"
        "update_cc_required s a1 (u_cc_required uf) = Inr (a2, ch2)"
        "update_account_type s a2 (u_account_type uf) = Some (Inr (a3, ch3))"
        "s' = s\<lparr>accounts := replace_account a3 (accounts s)\<rparr>"
        "r = Inr (Updated (ch1 @ ch2 @ ch3))"
      by blast
    then show ?thesis
    proof cases
      case unchanged
      then show ?thesis by auto
    next
      case (changed a1 ch1 a2 ch2 a3 ch3)
      from changed(1) u same have a1: "a1 = a" "ch1 = []" by simp_all
      from update_steps_fields [OF changed(1,2,3)] a1 ida
      have k: "acc_id a3 = i" "name a3 = name a" by simp_all
      have m: "map name (accounts s') = map name (accounts s)"
        using map_name_replace_account [OF f k] changed(4) by simp
      have "''name'' \<notin> set (ch1 @ ch2 @ ch3)"
        using a1 update_cc_required_result [OF changed(2)]
          update_account_type_result [OF changed(3)] by auto
      with m changed(5) show ?thesis by simp
    qed
  qed
  have p3: "name a' = name a \<or> lower (name a') \<noteq> lower (name a)"
    if up: "update_account s i uf = Some (s', r)" and g: "get_by_id s' i = Some a'"
    for uf s' r a'
  proof -
    from update_account_result [OF assms(1) up]
    consider (unchanged) "s' = s"
      | (changed) a1 ch1 a2 ch2 a3 ch3 where
        "update_name s a (u_name uf) = Inr (a1, ch1)"
        "update_cc_required s a1 (u_cc_required uf) = Inr (a2, ch2)"
        "update_account_type s a2 (u_account_type uf) = Some (Inr (a3, ch3))"
        "s' = s\<lparr>accounts := replace_account a3 (accounts s)\<rparr>"
      by blast
    then show ?thesis
    proof cases
      case unchanged
      with g assms(1) show ?thesis by simp
    next
      case (changed a1 ch1 a2 ch2 a3 ch3)
      from update_steps_fields [OF changed(1,2,3)] ida
      have k: "acc_id a3 = i" "name a3 = name a1" by simp_all
      from find_replace_account [OF f k(1)] g changed(4) have "a' = a3"
        by (simp add: get_by_id_def)
      with k update_name_result [OF changed(1)] show ?thesis by auto
    qed
  qed
  from p1 same p2 p3 show ?thesis by blast
qed

theorem update_name_case_only_witness:
  "related_entries demo_db ''Cash'' = 2
   \<and> check_if_account_exist demo_db ''CASH'' = Inl (AccountExistsException ''CASH'')
   \<and> update_account demo_db 5
        \<lparr>u_name = Some (JStr '' CASH ''), u_cc_required = Some (JBool False),
         u_account_type = Some (JStr ''balance_sheet'')\<rparr>
       = Some (demo_db, Inr NoChanges)
   \<and> update_account demo_db 5 (rename_request '' CASH '') = Some (demo_db, Inr NoChanges)"
proof -
  have g: "get_by_id demo_db 5 = Some (demo_accounts ! 4)" by code_simp
  have n: "strip '' CASH '' \<noteq> []" by code_simp
  have l: "lower (strip '' CASH '') = lower (name (demo_accounts ! 4))" by code_simp
  have r: "related_entries demo_db ''Cash'' = 2" by code_simp
  have c: "check_if_account_exist demo_db ''CASH'' = Inl (AccountExistsException ''CASH'')"
    by code_simp
  have cc: "cc_required (demo_accounts ! 4) = False"
    and ty: "account_type (demo_accounts ! 4) = Some (strip ''balance_sheet'')"
    and st: "strip ''balance_sheet'' \<in> set [''balance_sheet'', ''p&l'']"
    by code_simp+
  note t = update_name_case_only [OF g n l, THEN conjunct1, rule_format]
  have w1: "update_account demo_db 5
        \<lparr>u_name = Some (JStr '' CASH ''), u_cc_required = Some (JBool False),
         u_account_type = Some (JStr ''balance_sheet'')\<rparr>
       = Some (demo_db, Inr NoChanges)"
    by (rule t) (use cc ty st in auto)
  have w2: "update_account demo_db 5 (rename_request '' CASH '') = Some (demo_db, Inr NoChanges)"
    by (rule t) (simp add: rename_request_def)
  from r c w1 w2 show ?thesis by (intro conjI)
qed

subsection \<open>Update: renaming\<close>

text \<open>
  Claim C6, as stated, fails: the account \<open>Cash\<close> of the example database is the debit name
  of a journal entry, the request renames it to \<open>cash\<close>, and the update does not fail; it
  answers "No changes detected".
\<close>

theorem rename_used_account_counterexample:
  "get_by_id demo_db 5 = Some (demo_accounts ! 4)
   \<and> name (demo_accounts ! 4) = ''Cash''
   \<and> debit (daily_entries demo_db ! 0) = ''Cash''
   \<and> related_entries demo_db ''Cash'' = 2
   \<and> ''cash'' \<noteq> ''Cash''
   \<and> update_account demo_db 5 (rename_request ''cash'') = Some (demo_db, Inr NoChanges)"
  by code_simp

text \<open>
  Claim C6, amended. Let the update find the account \<open>a\<close> under the id \<open>i\<close>, and let the
  requested name, stripped, be non-empty and differ from the current name of \<open>a\<close> by more than
  letter case. If a journal entry names \<open>a\<close> as debit or credit (exact match of the current
  name), the update fails with the "has existing transactions" bad request and the database
  is unchanged. If none does and some account's name equals the new name when both are
  lower-cased, it fails with \<open>AccountExistsException\<close> and the database is unchanged. If none
  does, no name collides and the request carries no other field, the update succeeds,
  reports \<open>name\<close> as the changed field, and the account is stored under the new name.
\<close>

theorem rename_guard:
  assumes "get_by_id s i = Some a"
      and "u_name uf = Some (JStr raw)"
      and "strip raw \<noteq> []"
      and "lower (strip raw) \<noteq> lower (name a)"
  shows "(related_entries s (name a) \<noteq> 0 \<longrightarrow>
            update_account s i uf = Some (s, Inl (BadRequest (NameHasTransactions (name a)))))
       \<and> (related_entries s (name a) = 0
            \<and> (\<exists>b\<in>set (accounts s). lower (name b) = lower (strip raw)) \<longrightarrow>
            update_account s i uf = Some (s, Inl (AccountExistsException (strip raw))))
       \<and> (related_entries s (name a) = 0
            \<and> (\<forall>b\<in>set (accounts s). lower (name b) \<noteq> lower (strip raw))
            \<and> u_cc_required uf = None \<and> u_account_type uf = None \<longrightarrow>
            update_account s i uf
              = Some (s\<lparr>accounts := replace_account (a\<lparr>name := strip raw\<rparr>) (accounts s)\<rparr>,
                      Inr (Updated [''name'']))
            \<and> get_by_id (s\<lparr>accounts := replace_account (a\<lparr>name := strip raw\<rparr>) (accounts s)\<rparr>) i
              = Some (a\<lparr>name := strip raw\<rparr>))"
proof -
  note gs = get_single_account_found [OF assms(1)]
  have ne: "lower (name a) \<noteq> lower (strip raw)" using assms(4) by simp
  have f: "find (\<lambda>b. acc_id b = i) (accounts s) = Some a"
    using assms(1) by (simp add: get_by_id_def)
  have ida: "acc_id (a\<lparr>name := strip raw\<rparr>) = i"
    using get_by_id_acc_id [OF assms(1)] by simp
  have c1: "related_entries s (name a) \<noteq> 0 \<longrightarrow>
            update_account s i uf = Some (s, Inl (BadRequest (NameHasTransactions (name a))))"
    unfolding update_account_def gs
    by (simp add: update_name_def assms(2,3) ne)
  have c2: "related_entries s (name a) = 0
            \<and> (\<exists>b\<in>set (accounts s). lower (name b) = lower (strip raw)) \<longrightarrow>
            update_account s i uf = Some (s, Inl (AccountExistsException (strip raw)))"
    unfolding update_account_def gs
    by (simp add: update_name_def assms(2,3) ne check_if_account_exist_iff)
  have c3: "related_entries s (name a) = 0
            \<and> (\<forall>b\<in>set (accounts s). lower (name b) \<noteq> lower (strip raw))
            \<and> u_cc_required uf = None \<and> u_account_type uf = None \<longrightarrow>
            update_account s i uf
              = Some (s\<lparr>accounts := replace_account (a\<lparr>name := strip raw\<rparr>) (accounts s)\<rparr>,
                      Inr (Updated [''name'']))
            \<and> get_by_id (s\<lparr>accounts := replace_account (a\<lparr>name := strip raw\<rparr>) (accounts s)\<rparr>) i
              = Some (a\<lparr>name := strip raw\<rparr>)"
    unfolding update_account_def gs
    using find_replace_account [OF f ida]
    by (simp add: update_name_def assms(2,3) ne check_if_account_exist_iff
        update_cc_required_def update_account_type_def get_by_id_def)
  from c1 c2 c3 show ?thesis by (intro conjI)
qed

theorem rename_guard_witness:
  "update_account demo_db 5 (rename_request ''Petty Cash'')
     = Some (demo_db, Inl (BadRequest (NameHasTransactions ''Cash'')))
   \<and> update_account demo_db 6 (rename_request ''cash'')
     = Some (demo_db, Inl (AccountExistsException ''cash''))
   \<and> update_account demo_db 6 (rename_request ''Turnover'')
     = Some (demo_db\<lparr>accounts := replace_account ((demo_accounts ! 5)\<lparr>name := ''Turnover''\<rparr>)
                                     (accounts demo_db)\<rparr>,
             Inr (Updated [''name'']))"
proof -
  have g5: "get_by_id demo_db 5 = Some (demo_accounts ! 4)"
    and g6: "get_by_id demo_db 6 = Some (demo_accounts ! 5)"
    by code_simp+
  have u: "u_name (rename_request raw) = Some (JStr raw)"
    "u_cc_required (rename_request raw) = None" "u_account_type (rename_request raw) = None" for raw
    by (simp_all add: rename_request_def)
  have s1: "strip ''Petty Cash'' = ''Petty Cash''" and s2: "strip ''cash'' = ''cash''"
    and s3: "strip ''Turnover'' = ''Turnover''"
    by code_simp+
  have n1: "strip ''Petty Cash'' \<noteq> []" and n2: "strip ''cash'' \<noteq> []"
    and n3: "strip ''Turnover'' \<noteq> []"
    by code_simp+
  have l1: "lower (strip ''Petty Cash'') \<noteq> lower (name (demo_accounts ! 4))"
    and l2: "lower (strip ''cash'') \<noteq> lower (name (demo_accounts ! 5))"
    and l3: "lower (strip ''Turnover'') \<noteq> lower (name (demo_accounts ! 5))"
    by code_simp+
  have r1: "related_entries demo_db (name (demo_accounts ! 4)) \<noteq> 0"
    and r2: "related_entries demo_db (name (demo_accounts ! 5)) = 0"
    by code_simp+
  have e2: "\<exists>b\<in>set (accounts demo_db). lower (name b) = lower (strip ''cash'')"
    and e3: "\<forall>b\<in>set (accounts demo_db). lower (name b) \<noteq> lower (strip ''Turnover'')"
    by code_simp+
  have nm: "name (demo_accounts ! 4) = ''Cash''" by code_simp
  have w1: "update_account demo_db 5 (rename_request ''Petty Cash'')
     = Some (demo_db, Inl (BadRequest (NameHasTransactions ''Cash'')))"
    using rename_guard [OF g5 u(1) n1 l1] r1 nm by simp
  have w2: "update_account demo_db 6 (rename_request ''cash'')
     = Some (demo_db, Inl (AccountExistsException ''cash''))"
    using rename_guard [OF g6 u(1) n2 l2] r2 e2 s2 by simp
  have w3: "update_account demo_db 6 (rename_request ''Turnover'')
     = Some (demo_db\<lparr>accounts := replace_account ((demo_accounts ! 5)\<lparr>name := ''Turnover''\<rparr>)
                                     (accounts demo_db)\<rparr>,
             Inr (Updated [''name'']))"
    using rename_guard [OF g6 u(1) n3 l3] r2 e3 u(2,3) s3 by simp
  from w1 w2 w3 show ?thesis by (intro conjI)
qed

subsection \<open>Update: account type\<close>

lemma find_replace_account_other:
  "acc_id a' = i \<Longrightarrow> j \<noteq> i \<Longrightarrow>
   find (\<lambda>b. acc_id b = j) (replace_account a' xs) = find (\<lambda>b. acc_id b = j) xs"
  by (induction xs) simp_all

lemma get_by_id_replace:
  assumes "get_by_id s i = Some a" and "acc_id a' = i"
  shows "get_by_id (s\<lparr>accounts := replace_account a' (accounts s)\<rparr>) i = Some a'"
    and "j \<noteq> i \<Longrightarrow> get_by_id (s\<lparr>accounts := replace_account a' (accounts s)\<rparr>) j = get_by_id s j"
  using assms find_replace_account [of i "accounts s" a a']
    find_replace_account_other [of a' i j "accounts s"]
  by (simp_all add: get_by_id_def)

lemma update_cc_required_error:
  "update_cc_required s a v = Inl e \<Longrightarrow> \<exists>b. e = BadRequest b"
  by (cases v) (auto simp: update_cc_required_def Let_def split: jval.splits if_splits)

lemma update_account_type_reject:
  assumes "strip raw = t" and "t = ''balance_sheet'' \<or> t = ''p&l''"
      and "account_type a \<noteq> Some t"
      and "get_root_account s a = Some (Inr r)"
      and "(t = ''balance_sheet'' \<and> name r \<notin> set [''Assets'', ''Liability & Equity''])
           \<or> (t = ''p&l'' \<and> name r \<notin> set [''Revenue'', ''Expenses''])"
  shows "update_account_type s a (Some (JStr raw))
         = Some (Inl (BadRequest (if t = ''balance_sheet'' then BalanceSheetNotAllowed (name r)
                                  else PnlNotAllowed (name r))))"
proof -
  from assms(1,2) have "raw \<noteq> []" by (auto simp: strip_def)
  with assms show ?thesis
    by (auto simp: update_account_type_def Let_def)
qed

lemma update_account_type_accept:
  assumes "strip raw = t" and "t = ''balance_sheet'' \<or> t = ''p&l''"
      and "account_type a \<noteq> Some t"
      and "get_root_account s a = Some (Inr r)"
      and "(t = ''balance_sheet'' \<and> name r \<in> set [''Assets'', ''Liability & Equity''])
           \<or> (t = ''p&l'' \<and> name r \<in> set [''Revenue'', ''Expenses''])"
  shows "update_account_type s a (Some (JStr raw))
         = Some (Inr (a\<lparr>account_type := Some t\<rparr>, [''account type'']))"
proof -
  from assms(1,2) have "raw \<noteq> []" by (auto simp: strip_def)
  with assms show ?thesis
    by (auto simp: update_account_type_def Let_def)
qed

lemma update_account_type_clear:
  "v = JNull \<or> v = JStr [] \<Longrightarrow>
   update_account_type s a (Some v)
     = Some (Inr (if account_type a = None then (a, [])
                  else (a\<lparr>account_type := None\<rparr>, [''account type''])))"
  by (auto simp: update_account_type_def)

text \<open>
  Claim C8, as stated, fails: once the root \<open>Assets\<close> has been renamed to \<open>Fixed Assets\<close>
  (an update that succeeds), the root of \<open>Cash\<close> is neither \<open>Assets\<close> nor
  \<open>Liability & Equity\<close>, and a request that sets the account type of \<open>Cash\<close> to
  \<open>balance_sheet\<close>, the type it already has, is not rejected: it is answered
  "No changes detected".
\<close>

theorem same_account_type_counterexample:
  "update_account demo_db 1 (rename_request ''Fixed Assets'')
     = Some (fixed_db, Inr (Updated [''name'']))
   \<and> get_by_id fixed_db 5 = Some cash
   \<and> map_option (map_sum id name) (get_root_account fixed_db cash) = Some (Inr ''Fixed Assets'')
   \<and> ''Fixed Assets'' \<notin> set [''Assets'', ''Liability & Equity'']
   \<and> update_account fixed_db 5 (set_type_request (JStr ''balance_sheet''))
     = Some (fixed_db, Inr NoChanges)"
  by code_simp

lemma update_account_type_rejected:
  assumes g: "get_by_id s i = Some a"
      and u: "u_account_type uf = Some (JStr raw)"
      and t: "strip raw = t" "t = ''balance_sheet'' \<or> t = ''p&l''"
      and d: "account_type a \<noteq> Some t"
      and n: "update_name s a (u_name uf) = Inr (a1, ch1)"
      and r: "get_root_account s a1 = Some (Inr r)"
      and bad: "(t = ''balance_sheet'' \<and> name r \<notin> set [''Assets'', ''Liability & Equity''])
           \<or> (t = ''p&l'' \<and> name r \<notin> set [''Revenue'', ''Expenses''])"
  shows "(\<exists>b. update_account s i uf = Some (s, Inl (BadRequest b)))
       \<and> ((\<exists>p. update_cc_required s a1 (u_cc_required uf) = Inr p) \<longrightarrow>
            update_account s i uf
              = Some (s, Inl (BadRequest (if t = ''balance_sheet''
                                          then BalanceSheetNotAllowed (name r)
                                          else PnlNotAllowed (name r)))))"
proof (cases "update_cc_required s a1 (u_cc_required uf)")
  case (Inl e)
  from update_cc_required_error [OF Inl] obtain b where "e = BadRequest b" by blast
  with Inl have "update_account s i uf = Some (s, Inl (BadRequest b))"
    unfolding update_account_def get_single_account_found [OF g] by (simp add: n)
  with Inl show ?thesis by auto
next
  case (Inr p)
  obtain a2 ch2 where p: "p = (a2, ch2)" by (cases p)
  from update_name_result [OF n] have t1: "account_type a1 = account_type a" by auto
  from update_cc_required_result [OF Inr [unfolded p]]
  have same: "parent_id a2 = parent_id a1" "account_type a2 = account_type a1" "name a2 = name a1"
    by auto
  from get_root_account_same_parent [OF same(1) r] same(3)
  obtain r2 where r2: "get_root_account s a2 = Some (Inr r2)" "name r2 = name r" by auto
  from d t1 same(2) have d2: "account_type a2 \<noteq> Some t" by simp
  from bad r2(2) have bad2:
    "(t = ''balance_sheet'' \<and> name r2 \<notin> set [''Assets'', ''Liability & Equity''])
           \<or> (t = ''p&l'' \<and> name r2 \<notin> set [''Revenue'', ''Expenses''])" by simp
  note rej = update_account_type_reject [OF t d2 r2(1) bad2, unfolded r2(2)]
  have "update_account s i uf
              = Some (s, Inl (BadRequest (if t = ''balance_sheet''
                                          then BalanceSheetNotAllowed (name r)
                                          else PnlNotAllowed (name r))))"
    unfolding update_account_def get_single_account_found [OF g]
    by (simp add: n Inr p u rej)
  then show ?thesis by auto
qed

lemma update_account_type_cleared:
  assumes g: "get_by_id s i = Some a"
      and u: "u_account_type uf = Some v" "v = JNull \<or> v = JStr []"
      and n: "update_name s a (u_name uf) = Inr (a1, ch1)"
      and c: "update_cc_required s a1 (u_cc_required uf) = Inr (a2, ch2)"
  shows "\<exists>s' res. update_account s i uf = Some (s', Inr res)
           \<and> get_by_id s' i = Some (a2\<lparr>account_type := None\<rparr>)"
proof -
  have ida: "acc_id a = i" by (rule get_by_id_acc_id [OF g])
  note cl = update_account_type_clear [OF u(2), of s a2]
  from update_name_result [OF n] update_cc_required_result [OF c]
  have id2: "acc_id a2 = i" using ida by auto
  show ?thesis
  proof (cases "ch1 = [] \<and> ch2 = [] \<and> account_type a2 = None")
    case True
    with update_name_result [OF n] update_cc_required_result [OF c]
    have "a2 = a" by auto
    with True have "a2\<lparr>account_type := None\<rparr> = a" by simp
    moreover from True have "update_account s i uf = Some (s, Inr NoChanges)"
      unfolding update_account_def get_single_account_found [OF g]
      by (simp add: n c u(1) cl)
    ultimately show ?thesis using g by auto
  next
    case False
    define a3 where "a3 = (if account_type a2 = None then a2 else a2\<lparr>account_type := None\<rparr>)"
    define ch3 where "ch3 = (if account_type a2 = None then [] else [''account type''])"
    have a3: "a3 = a2\<lparr>account_type := None\<rparr>" and id3: "acc_id a3 = i"
      using id2 by (auto simp: a3_def)
    from False have ne: "ch1 @ ch2 @ ch3 \<noteq> []" by (auto simp: ch3_def)
    have t3: "update_account_type s a2 (u_account_type uf) = Some (Inr (a3, ch3))"
      unfolding u(1) cl a3_def ch3_def by (cases "account_type a2 = None") simp_all
    have "update_account s i uf
        = Some (s\<lparr>accounts := replace_account a3 (accounts s)\<rparr>, Inr (Updated (ch1 @ ch2 @ ch3)))"
      unfolding update_account_def get_single_account_found [OF g] Let_def
      using ne by (simp add: n c t3)
    with get_by_id_replace(1) [OF g id3] a3 show ?thesis by auto
  qed
qed

text \<open>
  Claim C8, amended. Let the update find the account \<open>a\<close> under the id \<open>i\<close>. The root is resolved
  from the account as the name field of the same request leaves it (\<open>a1\<close>; it is \<open>a\<close> when the
  request has no name).
  \<^item> A request that sets the account type to \<open>balance_sheet\<close>, which \<open>a\<close> does not have yet, is
    rejected with a bad request and the database unchanged when the root is named neither
    \<open>Assets\<close> nor \<open>Liability & Equity\<close>; when the cost-centre field of the request is absent or
    accepted, the error is the "cannot set account type to balance_sheet" one, naming the root.
  \<^item> The same for \<open>p&l\<close> when the root is named neither \<open>Revenue\<close> nor \<open>Expenses\<close>.
  \<^item> A request whose name field is rejected is rejected with that error, database unchanged.
  \<^item> A request that only sets the account type to the type the account already has is
    answered "No changes detected", whatever the root.
  \<^item> A request that only sets the account type to a new value allowed under the root succeeds,
    and the account is stored with the new type.
  \<^item> A request that only clears the account type (null or the empty string) succeeds for every
    account: "No changes detected" when the type is already null, otherwise the account is
    stored with a null type and every other account is as before.
  \<^item> More generally a request that clears the account type succeeds whenever its name and
    cost-centre fields are accepted, and the account is then stored with a null type.
\<close>

theorem update_account_type_guard:
  assumes "get_by_id s i = Some a"
  shows "(\<forall>uf raw a1 ch1 r.
            u_account_type uf = Some (JStr raw) \<and> strip raw = ''balance_sheet''
            \<and> account_type a \<noteq> Some ''balance_sheet''
            \<and> update_name s a (u_name uf) = Inr (a1, ch1)
            \<and> get_root_account s a1 = Some (Inr r)
            \<and> name r \<notin> set [''Assets'', ''Liability & Equity''] \<longrightarrow>
            (\<exists>b. update_account s i uf = Some (s, Inl (BadRequest b)))
            \<and> ((\<exists>p. update_cc_required s a1 (u_cc_required uf) = Inr p) \<longrightarrow>
                 update_account s i uf
                   = Some (s, Inl (BadRequest (BalanceSheetNotAllowed (name r))))))
       \<and> (\<forall>uf raw a1 ch1 r.
            u_account_type uf = Some (JStr raw) \<and> strip raw = ''p&l''
            \<and> account_type a \<noteq> Some ''p&l''
            \<and> update_name s a (u_name uf) = Inr (a1, ch1)
            \<and> get_root_account s a1 = Some (Inr r)
            \<and> name r \<notin> set [''Revenue'', ''Expenses''] \<longrightarrow>
            (\<exists>b. update_account s i uf = Some (s, Inl (BadRequest b)))
            \<and> ((\<exists>p. update_cc_required s a1 (u_cc_required uf) = Inr p) \<longrightarrow>
                 update_account s i uf = Some (s, Inl (BadRequest (PnlNotAllowed (name r))))))
       \<and> (\<forall>uf e. update_name s a (u_name uf) = Inl e \<longrightarrow>
            update_account s i uf = Some (s, Inl e))
       \<and> (\<forall>raw. strip raw \<in> set [''balance_sheet'', ''p&l'']
            \<and> account_type a = Some (strip raw) \<longrightarrow>
            update_account s i (set_type_request (JStr raw)) = Some (s, Inr NoChanges))
       \<and> (\<forall>raw r. account_type a \<noteq> Some (strip raw)
            \<and> get_root_account s a = Some (Inr r)
            \<and> ((strip raw = ''balance_sheet'' \<and> name r \<in> set [''Assets'', ''Liability & Equity''])
               \<or> (strip raw = ''p&l'' \<and> name r \<in> set [''Revenue'', ''Expenses''])) \<longrightarrow>
            update_account s i (set_type_request (JStr raw))
              = Some (s\<lparr>accounts := replace_account (a\<lparr>account_type := Some (strip raw)\<rparr>)
                                      (accounts s)\<rparr>,
                      Inr (Updated [''account type'']))
            \<and> get_by_id (s\<lparr>accounts := replace_account (a\<lparr>account_type := Some (strip raw)\<rparr>)
                                           (accounts s)\<rparr>) i
              = Some (a\<lparr>account_type := Some (strip raw)\<rparr>))
       \<and> (\<forall>v. v = JNull \<or> v = JStr [] \<longrightarrow>
            update_account s i (set_type_request v)
              = Some (if account_type a = None then (s, Inr NoChanges)
                      else (s\<lparr>accounts := replace_account (a\<lparr>account_type := None\<rparr>) (accounts s)\<rparr>,
                            Inr (Updated [''account type''])))
            \<and> get_by_id (s\<lparr>accounts := replace_account (a\<lparr>account_type := None\<rparr>) (accounts s)\<rparr>) i
              = Some (a\<lparr>account_type := None\<rparr>)
            \<and> (\<forall>j. j \<noteq> i \<longrightarrow>
                 get_by_id (s\<lparr>accounts := replace_account (a\<lparr>account_type := None\<rparr>) (accounts s)\<rparr>) j
                   = get_by_id s j))
       \<and> (\<forall>uf v a1 ch1 a2 ch2.
            u_account_type uf = Some v \<and> (v = JNull \<or> v = JStr [])
            \<and> update_name s a (u_name uf) = Inr (a1, ch1)
            \<and> update_cc_required s a1 (u_cc_required uf) = Inr (a2, ch2) \<longrightarrow>
            (\<exists>s' res. update_account s i uf = Some (s', Inr res)
               \<and> get_by_id s' i = Some (a2\<lparr>account_type := None\<rparr>)))"
proof -
  note gs = get_single_account_found [OF assms]
  have ida: "acc_id a = i" by (rule get_by_id_acc_id [OF assms])
  have only: "update_account s i (set_type_request v)
      = (case update_account_type s a (Some v) of
           None \<Rightarrow> None
         | Some (Inl e) \<Rightarrow> Some (s, Inl e)
         | Some (Inr (a3, ch3)) \<Rightarrow>
             if ch3 = [] then Some (s, Inr NoChanges)
             else Some (s\<lparr>accounts := replace_account a3 (accounts s)\<rparr>, Inr (Updated ch3)))" for v
    unfolding update_account_def gs set_type_request_def
    by (simp add: update_name_def update_cc_required_def Let_def
        split: option.splits sum.splits prod.splits)
  have c1: "(\<exists>b. update_account s i uf = Some (s, Inl (BadRequest b)))
            \<and> ((\<exists>p. update_cc_required s a1 (u_cc_required uf) = Inr p) \<longrightarrow>
                 update_account s i uf
                   = Some (s, Inl (BadRequest (BalanceSheetNotAllowed (name r)))))"
    if h: "u_account_type uf = Some (JStr raw) \<and> strip raw = ''balance_sheet''
            \<and> account_type a \<noteq> Some ''balance_sheet''
            \<and> update_name s a (u_name uf) = Inr (a1, ch1)
            \<and> get_root_account s a1 = Some (Inr r)
            \<and> name r \<notin> set [''Assets'', ''Liability & Equity'']" for uf raw a1 ch1 r
    using update_account_type_rejected [OF assms, of uf raw "''balance_sheet''" a1 ch1 r] h
    by simp
  have c2: "(\<exists>b. update_account s i uf = Some (s, Inl (BadRequest b)))
            \<and> ((\<exists>p. update_cc_required s a1 (u_cc_required uf) = Inr p) \<longrightarrow>
                 update_account s i uf = Some (s, Inl (BadRequest (PnlNotAllowed (name r)))))"
    if h: "u_account_type uf = Some (JStr raw) \<and> strip raw = ''p&l''
            \<and> account_type a \<noteq> Some ''p&l''
            \<and> update_name s a (u_name uf) = Inr (a1, ch1)
            \<and> get_root_account s a1 = Some (Inr r)
            \<and> name r \<notin> set [''Revenue'', ''Expenses'']" for uf raw a1 ch1 r
    using update_account_type_rejected [OF assms, of uf raw "''p&l''" a1 ch1 r] h
    by simp
  have c3: "update_account s i uf = Some (s, Inl e)"
    if "update_name s a (u_name uf) = Inl e" for uf e
    unfolding update_account_def gs using that by simp
  have c4: "update_account s i (set_type_request (JStr raw)) = Some (s, Inr NoChanges)"
    if h: "strip raw \<in> set [''balance_sheet'', ''p&l''] \<and> account_type a = Some (strip raw)"
    for raw
  proof -
    have "update_account_type s a (Some (JStr raw)) = Some (Inr (a, []))"
      by (rule update_account_type_same) (use h in auto)
    then show ?thesis by (simp add: only)
  qed
  have c5: "update_account s i (set_type_request (JStr raw))
              = Some (s\<lparr>accounts := replace_account (a\<lparr>account_type := Some (strip raw)\<rparr>)
                                      (accounts s)\<rparr>,
                      Inr (Updated [''account type'']))
            \<and> get_by_id (s\<lparr>accounts := replace_account (a\<lparr>account_type := Some (strip raw)\<rparr>)
                                           (accounts s)\<rparr>) i
              = Some (a\<lparr>account_type := Some (strip raw)\<rparr>)"
    if h: "account_type a \<noteq> Some (strip raw)
            \<and> get_root_account s a = Some (Inr r)
            \<and> ((strip raw = ''balance_sheet'' \<and> name r \<in> set [''Assets'', ''Liability & Equity''])
               \<or> (strip raw = ''p&l'' \<and> name r \<in> set [''Revenue'', ''Expenses'']))"
    for raw r
  proof -
    have "update_account_type s a (Some (JStr raw))
         = Some (Inr (a\<lparr>account_type := Some (strip raw)\<rparr>, [''account type'']))"
      by (rule update_account_type_accept [OF refl, where r = r]) (use h in auto)
    then have "update_account s i (set_type_request (JStr raw))
              = Some (s\<lparr>accounts := replace_account (a\<lparr>account_type := Some (strip raw)\<rparr>)
                                      (accounts s)\<rparr>,
                      Inr (Updated [''account type'']))"
      by (simp add: only)
    moreover have "get_by_id (s\<lparr>accounts := replace_account (a\<lparr>account_type := Some (strip raw)\<rparr>)
                                           (accounts s)\<rparr>) i
              = Some (a\<lparr>account_type := Some (strip raw)\<rparr>)"
      by (rule get_by_id_replace(1) [OF assms]) (simp add: ida)
    ultimately show ?thesis by simp
  qed
  have c6: "update_account s i (set_type_request v)
              = Some (if account_type a = None then (s, Inr NoChanges)
                      else (s\<lparr>accounts := replace_account (a\<lparr>account_type := None\<rparr>) (accounts s)\<rparr>,
                            Inr (Updated [''account type''])))
            \<and> get_by_id (s\<lparr>accounts := replace_account (a\<lparr>account_type := None\<rparr>) (accounts s)\<rparr>) i
              = Some (a\<lparr>account_type := None\<rparr>)
            \<and> (\<forall>j. j \<noteq> i \<longrightarrow>
                 get_by_id (s\<lparr>accounts := replace_account (a\<lparr>account_type := None\<rparr>) (accounts s)\<rparr>) j
                   = get_by_id s j)"
    if h: "v = JNull \<or> v = JStr []" for v
  proof -
    have ia: "acc_id (a\<lparr>account_type := None\<rparr>) = i" by (simp add: ida)
    have "update_account s i (set_type_request v)
              = Some (if account_type a = None then (s, Inr NoChanges)
                      else (s\<lparr>accounts := replace_account (a\<lparr>account_type := None\<rparr>) (accounts s)\<rparr>,
                            Inr (Updated [''account type''])))"
      by (simp add: only update_account_type_clear [OF h])
    with get_by_id_replace [OF assms ia] show ?thesis by simp
  qed
  have c7: "\<exists>s' res. update_account s i uf = Some (s', Inr res)
               \<and> get_by_id s' i = Some (a2\<lparr>account_type := None\<rparr>)"
    if h: "u_account_type uf = Some v \<and> (v = JNull \<or> v = JStr [])
            \<and> update_name s a (u_name uf) = Inr (a1, ch1)
            \<and> update_cc_required s a1 (u_cc_required uf) = Inr (a2, ch2)"
    for uf v a1 ch1 a2 ch2
    by (rule update_account_type_cleared [OF assms, of uf v a1 ch1 a2 ch2]) (use h in simp_all)
  show ?thesis
    apply (intro conjI allI impI)
    subgoal for uf raw a1 ch1 r using c1 [of uf raw a1 ch1 r] by blast
    subgoal for uf raw a1 ch1 r using c1 [of uf raw a1 ch1 r] by blast
    subgoal for uf raw a1 ch1 r using c2 [of uf raw a1 ch1 r] by blast
    subgoal for uf raw a1 ch1 r using c2 [of uf raw a1 ch1 r] by blast
    subgoal for uf e by (rule c3)
    subgoal for raw by (rule c4)
    subgoal for raw r using c5 [of raw r] by blast
    subgoal for raw r using c5 [of raw r] by blast
    subgoal for v using c6 [of v] by blast
    subgoal for v using c6 [of v] by blast
    subgoal for v j using c6 [of v] by blast
    subgoal for uf v a1 ch1 a2 ch2 by (rule c7)
    done
qed


theorem update_account_type_guard_witness:
  "update_account demo_db 6 (set_type_request (JStr ''balance_sheet''))
     = Some (demo_db, Inl (BadRequest (BalanceSheetNotAllowed ''Revenue'')))
   \<and> update_account demo_db 6
        \<lparr>u_name = Some (JStr ''Turnover''), u_cc_required = None,
         u_account_type = Some (JStr ''balance_sheet'')\<rparr>
     = Some (demo_db, Inl (BadRequest (BalanceSheetNotAllowed ''Revenue'')))
   \<and> update_account demo_db 5 (set_type_request (JStr ''p&l''))
     = Some (demo_db, Inl (BadRequest (PnlNotAllowed ''Assets'')))
   \<and> update_account demo_db 5
        \<lparr>u_name = Some (JStr ''Petty Cash''), u_cc_required = None, u_account_type = Some JNull\<rparr>
     = Some (demo_db, Inl (BadRequest (NameHasTransactions ''Cash'')))
   \<and> update_account demo_db 5 (set_type_request (JStr ''balance_sheet''))
     = Some (demo_db, Inr NoChanges)
   \<and> update_account cleared_db 5 (set_type_request (JStr ''balance_sheet''))
     = Some (demo_db, Inr (Updated [''account type'']))
   \<and> get_by_id demo_db 5 = Some cash
   \<and> update_account demo_db 5 (set_type_request JNull)
     = Some (cleared_db, Inr (Updated [''account type'']))
   \<and> get_by_id cleared_db 5 = Some (cash\<lparr>account_type := None\<rparr>)
   \<and> get_by_id cleared_db 6 = get_by_id demo_db 6
   \<and> (\<exists>s' res. update_account demo_db 5
          \<lparr>u_name = None, u_cc_required = Some (JBool True), u_account_type = Some JNull\<rparr>
            = Some (s', Inr res)
          \<and> get_by_id s' 5 = Some (cash\<lparr>cc_required := True, account_type := None\<rparr>))"
proof -
  have g5: "get_by_id demo_db 5 = Some cash"
    and g6: "get_by_id demo_db 6 = Some (demo_accounts ! 5)"
    and gc: "get_by_id cleared_db 5 = Some (cash\<lparr>account_type := None\<rparr>)"
    by code_simp+
  note t5 = update_account_type_guard [OF g5]
  note t6 = update_account_type_guard [OF g6]
  note tc = update_account_type_guard [OF gc]
  have u: "u_name (set_type_request v) = None" "u_cc_required (set_type_request v) = None"
    "u_account_type (set_type_request v) = Some v" for v
    by (simp_all add: set_type_request_def)
  have n0: "update_name s a None = Inr (a, [])" for s a
    by (simp add: update_name_def)
  have c0: "update_cc_required s a None = Inr (a, [])" for s a
    by (simp add: update_cc_required_def)
  have st: "strip ''balance_sheet'' = ''balance_sheet''" "strip ''p&l'' = ''p&l''"
    by code_simp+
  have r6: "get_root_account demo_db (demo_accounts ! 5) = Some (Inr (demo_accounts ! 3))"
    and r5: "get_root_account demo_db cash = Some (Inr (demo_accounts ! 0))"
    and rc: "get_root_account cleared_db (cash\<lparr>account_type := None\<rparr>) = Some (Inr (demo_accounts ! 0))"
    and rt: "get_root_account demo_db ((demo_accounts ! 5)\<lparr>name := ''Turnover''\<rparr>)
               = Some (Inr (demo_accounts ! 3))"
    by code_simp+
  have nm: "name (demo_accounts ! 3) = ''Revenue''" "name (demo_accounts ! 0) = ''Assets''"
    by code_simp+
  have ty: "account_type (demo_accounts ! 5) \<noteq> Some ''balance_sheet''"
    "account_type cash \<noteq> Some ''p&l''" "account_type cash = Some ''balance_sheet''"
    "account_type cash \<noteq> None"
    "account_type (cash\<lparr>account_type := None\<rparr>) \<noteq> Some ''balance_sheet''"
    by code_simp+
  have turn: "update_name demo_db (demo_accounts ! 5) (Some (JStr ''Turnover''))
      = Inr ((demo_accounts ! 5)\<lparr>name := ''Turnover''\<rparr>, [''name''])"
    and petty: "update_name demo_db cash (Some (JStr ''Petty Cash''))
      = Inl (BadRequest (NameHasTransactions ''Cash''))"
    and cct: "update_cc_required demo_db cash (Some (JBool True))
      = Inr (cash\<lparr>cc_required := True\<rparr>, [''cost center requirement''])"
    by code_simp+
  have w1: "update_account demo_db 6 (set_type_request (JStr ''balance_sheet''))
     = Some (demo_db, Inl (BadRequest (BalanceSheetNotAllowed ''Revenue'')))"
    using t6 [THEN conjunct1, rule_format,
        of "set_type_request (JStr ''balance_sheet'')" "''balance_sheet''" "demo_accounts ! 5" "[]"
          "demo_accounts ! 3"]
    by (simp add: u n0 c0 st ty r6 nm)
  have w2: "update_account demo_db 6
        \<lparr>u_name = Some (JStr ''Turnover''), u_cc_required = None,
         u_account_type = Some (JStr ''balance_sheet'')\<rparr>
     = Some (demo_db, Inl (BadRequest (BalanceSheetNotAllowed ''Revenue'')))"
    using t6 [THEN conjunct1, rule_format,
        of "\<lparr>u_name = Some (JStr ''Turnover''), u_cc_required = None,
             u_account_type = Some (JStr ''balance_sheet'')\<rparr>" "''balance_sheet''"
          "(demo_accounts ! 5)\<lparr>name := ''Turnover''\<rparr>" "[''name'']" "demo_accounts ! 3"]
    by (simp add: turn c0 st ty rt nm)
  have w3: "update_account demo_db 5 (set_type_request (JStr ''p&l''))
     = Some (demo_db, Inl (BadRequest (PnlNotAllowed ''Assets'')))"
    using t5 [THEN conjunct2, THEN conjunct1, rule_format,
        of "set_type_request (JStr ''p&l'')" "''p&l''" cash "[]" "demo_accounts ! 0"]
    by (simp add: u n0 c0 st ty r5 nm)
  have w4: "update_account demo_db 5
        \<lparr>u_name = Some (JStr ''Petty Cash''), u_cc_required = None, u_account_type = Some JNull\<rparr>
     = Some (demo_db, Inl (BadRequest (NameHasTransactions ''Cash'')))"
    using t5 [THEN conjunct2, THEN conjunct2, THEN conjunct1, rule_format,
        of "\<lparr>u_name = Some (JStr ''Petty Cash''), u_cc_required = None,
             u_account_type = Some JNull\<rparr>" "BadRequest (NameHasTransactions ''Cash'')"]
    by (simp add: petty)
  have w5: "update_account demo_db 5 (set_type_request (JStr ''balance_sheet''))
     = Some (demo_db, Inr NoChanges)"
    using t5 [THEN conjunct2, THEN conjunct2, THEN conjunct2, THEN conjunct1, rule_format,
        of "''balance_sheet''"]
    by (simp add: st ty)
  have e6: "cleared_db\<lparr>accounts := replace_account
        (cash\<lparr>account_type := Some ''balance_sheet''\<rparr>) (accounts cleared_db)\<rparr> = demo_db"
    by code_simp
  have w6: "update_account cleared_db 5 (set_type_request (JStr ''balance_sheet''))
     = Some (demo_db, Inr (Updated [''account type'']))"
    using tc [THEN conjunct2, THEN conjunct2, THEN conjunct2, THEN conjunct2, THEN conjunct1,
        rule_format, of "''balance_sheet''" "demo_accounts ! 0"]
    by (simp add: st ty rc nm e6)
  have e7: "demo_db\<lparr>accounts := replace_account (cash\<lparr>account_type := None\<rparr>) (accounts demo_db)\<rparr>
      = cleared_db"
    by code_simp
  note c6 = t5 [THEN conjunct2, THEN conjunct2, THEN conjunct2, THEN conjunct2, THEN conjunct2,
        THEN conjunct1, rule_format, of JNull, unfolded e7]
  have w7: "update_account demo_db 5 (set_type_request JNull)
     = Some (cleared_db, Inr (Updated [''account type'']))"
    and w8: "get_by_id cleared_db 5 = Some (cash\<lparr>account_type := None\<rparr>)"
    and w9: "get_by_id cleared_db 6 = get_by_id demo_db 6"
    using c6 by (simp_all add: ty)
  have w10: "\<exists>s' res. update_account demo_db 5
          \<lparr>u_name = None, u_cc_required = Some (JBool True), u_account_type = Some JNull\<rparr>
            = Some (s', Inr res)
          \<and> get_by_id s' 5 = Some (cash\<lparr>cc_required := True, account_type := None\<rparr>)"
    using t5 [THEN conjunct2, THEN conjunct2, THEN conjunct2, THEN conjunct2, THEN conjunct2,
        THEN conjunct2, rule_format,
        of "\<lparr>u_name = None, u_cc_required = Some (JBool True), u_account_type = Some JNull\<rparr>"
          JNull cash "[]" "cash\<lparr>cc_required := True\<rparr>" "[''cost center requirement'']"]
    by (simp add: n0 cct)
  from w1 w2 w3 w4 w5 w6 g5 w7 w8 w9 w10 show ?thesis by (intro conjI)
qed

subsection \<open>Creation: what a successful request stores\<close>

lemma fill_new_account_info_child:
  assumes "get_root_account s p = Some (Inr root)"
  shows "fill_new_account_info s nm nat' (Some p) cc ty =
     (case generate_code s (Some p) of
        None \<Rightarrow> Some (Inl ValueError)
      | Some c \<Rightarrow>
          Some (Inr \<lparr>acc_id = 0, name = nm, code = c, parent_id = Some (acc_id p), nature = nat',
                     cc_required = (if cc then True else default_cc_required (name root) nm),
                     account_type = (if ty = None then infer_account_type (name root) else ty)\<rparr>))"
  unfolding fill_new_account_info_def
  by (cases ty; cases cc; cases "generate_code s (Some p)") (simp_all add: assms)

lemma create_success:
  assumes "create_account_in_account_tree s b = Some (s', Inr v)"
  shows "\<exists>s1 parent root nature'' account_type'' c.
           validate_root_accounts s = Inr s1
         \<and> get_parent_account_with_id s1 (b_parent_id b) = Inr (Some parent)
         \<and> get_root_account s1 parent = Some (Inr root)
         \<and> check_if_account_exist s1 (strip (strip (b_name b))) = Inr ()
         \<and> apply_root_policy (name root) (map_option (\<lambda>n. lower (strip n)) (b_nature b))
              (b_account_type b) = Inr (nature'', account_type'')
         \<and> generate_code s1 (Some parent) = Some c
         \<and> v = \<lparr>acc_id = next_id s1, name = strip (b_name b), code = c,
                 parent_id = Some (acc_id parent), nature = nature'',
                 cc_required = (if b_cc_required b then True
                                else default_cc_required (name root) (strip (b_name b))),
                 account_type = (if account_type'' = None then infer_account_type (name root)
                                 else account_type'')\<rparr>
         \<and> s' = s1\<lparr>accounts := accounts s1 @ [v], next_id := Suc (next_id s1)\<rparr>"
proof (cases "validate_root_accounts s")
  case (Inl e)
  with assms show ?thesis by (simp add: create_account_in_account_tree_def)
next
  case (Inr s1)
  note vr = this
  show ?thesis
  proof (cases "extract_body b")
    case (Inl e)
    with assms vr show ?thesis by (simp add: create_account_in_account_tree_def)
  next
    case (Inr t)
    then have eb: "extract_body b = Inr (strip (b_name b), b_parent_id b,
        map_option (\<lambda>n. lower (strip n)) (b_nature b), b_cc_required b, b_account_type b)"
      by (auto simp: extract_body_def Let_def split: if_splits)
    show ?thesis
    proof (cases "check_if_account_exist s1 (strip (strip (b_name b)))")
      case (Inl e)
      with assms vr eb show ?thesis by (simp add: create_account_in_account_tree_def)
    next
      case (Inr u)
      note ce = this
      show ?thesis
      proof (cases "get_parent_account_with_id s1 (b_parent_id b)")
        case (Inl e)
        with assms vr eb ce show ?thesis
          by (simp add: create_account_in_account_tree_def split: if_splits)
      next
        case (Inr po)
        note gp = this
        show ?thesis
        proof (cases po)
          case None
          with assms vr eb ce gp show ?thesis
            by (simp add: create_account_in_account_tree_def split: if_splits)
        next
          case (Some parent)
          note po = this
          show ?thesis
          proof (cases "get_root_account s1 parent")
            case None
            with assms vr eb ce gp po show ?thesis
              by (simp add: create_account_in_account_tree_def split: if_splits)
          next
            case (Some rr)
            note gr = this
            show ?thesis
            proof (cases rr)
              case (Inl e)
              with assms vr eb ce gp po gr show ?thesis
                by (simp add: create_account_in_account_tree_def split: if_splits)
            next
              case (Inr root)
              note rr = this
              show ?thesis
              proof (cases "apply_root_policy (name root)
                  (map_option (\<lambda>n. lower (strip n)) (b_nature b)) (b_account_type b)")
                case (Inl e)
                with assms vr eb ce gp po gr rr show ?thesis
                  by (simp add: create_account_in_account_tree_def split: if_splits)
              next
                case (Inr pol)
                obtain n2 t2 where pol: "pol = (n2, t2)" by (cases pol)
                note fill = fill_new_account_info_child [OF gr [unfolded rr], of "strip (b_name b)" n2
                    "b_cc_required b" t2]
                show ?thesis
                proof (cases "generate_code s1 (Some parent)")
                  case None
                  with assms vr eb ce gp po gr rr Inr pol fill show ?thesis
                    by (simp add: create_account_in_account_tree_def split: if_splits)
                next
                  case (Some c)
                  with assms vr eb ce gp po gr rr Inr pol fill
                  have "v = \<lparr>acc_id = next_id s1, name = strip (b_name b), code = c,
                      parent_id = Some (acc_id parent), nature = n2,
                      cc_required = (if b_cc_required b then True
                                else default_cc_required (name root) (strip (b_name b))),
                      account_type = (if t2 = None then infer_account_type (name root) else t2)\<rparr>
                    \<and> s' = s1\<lparr>accounts := accounts s1 @ [v], next_id := Suc (next_id s1)\<rparr>"
                    by (auto simp add: create_account_in_account_tree_def add_and_commit_def
                        add_account_def Let_def split: if_splits)
                  with vr ce gp po gr rr Inr pol Some show ?thesis by simp
                qed
              qed
            qed
          qed
        qed
      qed
    qed
  qed
qed


subsection \<open>Creation: the cost-centre default\<close>



subsection \<open>Nature and account type against the root's policy\<close>

lemma apply_root_policy_result:
  assumes "apply_root_policy rn nat' ty = Inr (nat'', ty'')"
  shows "(lower rn = ''assets'' \<longrightarrow>
            nat'' = Some ''debit'' \<and> ty'' = Some ''balance_sheet''
            \<and> (truthy nat' \<longrightarrow> nat' = Some ''debit'')
            \<and> (truthy ty \<longrightarrow> ty = Some ''balance_sheet''))
       \<and> (lower rn = ''liability & equity'' \<longrightarrow>
            nat'' = Some ''credit'' \<and> ty'' = Some ''balance_sheet''
            \<and> (truthy nat' \<longrightarrow> nat' = Some ''credit'')
            \<and> (truthy ty \<longrightarrow> ty = Some ''balance_sheet''))
       \<and> (lower rn = ''expenses'' \<longrightarrow>
            nat'' = (if truthy nat' then nat' else Some ''debit'') \<and> ty'' = Some ''p&l''
            \<and> (truthy ty \<longrightarrow> ty = Some ''p&l''))
       \<and> (lower rn = ''revenue'' \<longrightarrow>
            nat'' = (if truthy nat' then nat' else Some ''credit'') \<and> ty'' = Some ''p&l''
            \<and> (truthy ty \<longrightarrow> ty = Some ''p&l''))"
proof -
  consider (a) "lower rn = ''assets''" | (l) "lower rn = ''liability & equity''"
    | (e) "lower rn = ''expenses''" | (r) "lower rn = ''revenue''"
    | (o) "lower rn \<noteq> ''assets''" "lower rn \<noteq> ''liability & equity''"
          "lower rn \<noteq> ''expenses''" "lower rn \<noteq> ''revenue''"
    by blast
  then show ?thesis
  proof cases
    case a
    with assms show ?thesis
      by (auto simp: apply_root_policy_def split: if_splits)
  next
    case l
    with assms show ?thesis
      by (auto simp: apply_root_policy_def split: if_splits)
  next
    case e
    with assms show ?thesis
      by (auto simp: apply_root_policy_def Let_def split: if_splits)
  next
    case r
    with assms show ?thesis
      by (auto simp: apply_root_policy_def Let_def split: if_splits)
  next
    case o
    then show ?thesis by simp
  qed
qed

lemma create_policy:
  assumes "create_account_in_account_tree s b = Some (s', Inr v)"
  shows "\<exists>s1 parent root.
           validate_root_accounts s = Inr s1
         \<and> get_parent_account_with_id s1 (b_parent_id b) = Inr (Some parent)
         \<and> get_root_account s1 parent = Some (Inr root)
         \<and> parent_id v = Some (acc_id parent)
         \<and> (lower (name root) = ''assets'' \<longrightarrow>
               nature v = Some ''debit'' \<and> account_type v = Some ''balance_sheet''
               \<and> (truthy (map_option (\<lambda>n. lower (strip n)) (b_nature b)) \<longrightarrow>
                    map_option (\<lambda>n. lower (strip n)) (b_nature b) = Some ''debit'')
               \<and> (truthy (b_account_type b) \<longrightarrow> b_account_type b = Some ''balance_sheet''))
         \<and> (lower (name root) = ''liability & equity'' \<longrightarrow>
               nature v = Some ''credit'' \<and> account_type v = Some ''balance_sheet''
               \<and> (truthy (map_option (\<lambda>n. lower (strip n)) (b_nature b)) \<longrightarrow>
                    map_option (\<lambda>n. lower (strip n)) (b_nature b) = Some ''credit'')
               \<and> (truthy (b_account_type b) \<longrightarrow> b_account_type b = Some ''balance_sheet''))
         \<and> (lower (name root) = ''expenses'' \<longrightarrow>
               nature v = (if truthy (map_option (\<lambda>n. lower (strip n)) (b_nature b))
                           then map_option (\<lambda>n. lower (strip n)) (b_nature b)
                           else Some ''debit'')
               \<and> account_type v = Some ''p&l''
               \<and> (truthy (b_account_type b) \<longrightarrow> b_account_type b = Some ''p&l''))
         \<and> (lower (name root) = ''revenue'' \<longrightarrow>
               nature v = (if truthy (map_option (\<lambda>n. lower (strip n)) (b_nature b))
                           then map_option (\<lambda>n. lower (strip n)) (b_nature b)
                           else Some ''credit'')
               \<and> account_type v = Some ''p&l''
               \<and> (truthy (b_account_type b) \<longrightarrow> b_account_type b = Some ''p&l''))"
proof -
  from create_success [OF assms]
  obtain s1 parent root nature'' account_type'' c where
    h: "validate_root_accounts s = Inr s1"
       "get_parent_account_with_id s1 (b_parent_id b) = Inr (Some parent)"
       "get_root_account s1 parent = Some (Inr root)"
    and pol: "apply_root_policy (name root) (map_option (\<lambda>n. lower (strip n)) (b_nature b))
              (b_account_type b) = Inr (nature'', account_type'')"
    and v: "v = \<lparr>acc_id = next_id s1, name = strip (b_name b), code = c,
                 parent_id = Some (acc_id parent), nature = nature'',
                 cc_required = (if b_cc_required b then True
                                else default_cc_required (name root) (strip (b_name b))),
                 account_type = (if account_type'' = None then infer_account_type (name root)
                                 else account_type'')\<rparr>"
    by blast
  note p = apply_root_policy_result [OF pol]
  have n: "nature v = nature''" and pa: "parent_id v = Some (acc_id parent)"
    using v by simp_all
  have t: "account_type v = account_type''" if "account_type'' = Some y" for y
    using v that by simp
  have c1: "lower (name root) = ''assets'' \<longrightarrow>
               nature v = Some ''debit'' \<and> account_type v = Some ''balance_sheet''
               \<and> (truthy (map_option (\<lambda>n. lower (strip n)) (b_nature b)) \<longrightarrow>
                    map_option (\<lambda>n. lower (strip n)) (b_nature b) = Some ''debit'')
               \<and> (truthy (b_account_type b) \<longrightarrow> b_account_type b = Some ''balance_sheet'')"
    using p [THEN conjunct1] n t by auto
  have c2: "lower (name root) = ''liability & equity'' \<longrightarrow>
               nature v = Some ''credit'' \<and> account_type v = Some ''balance_sheet''
               \<and> (truthy (map_option (\<lambda>n. lower (strip n)) (b_nature b)) \<longrightarrow>
                    map_option (\<lambda>n. lower (strip n)) (b_nature b) = Some ''credit'')
               \<and> (truthy (b_account_type b) \<longrightarrow> b_account_type b = Some ''balance_sheet'')"
    using p [THEN conjunct2, THEN conjunct1] n t by auto
  have c3: "lower (name root) = ''expenses'' \<longrightarrow>
               nature v = (if truthy (map_option (\<lambda>n. lower (strip n)) (b_nature b))
                           then map_option (\<lambda>n. lower (strip n)) (b_nature b)
                           else Some ''debit'')
               \<and> account_type v = Some ''p&l''
               \<and> (truthy (b_account_type b) \<longrightarrow> b_account_type b = Some ''p&l'')"
    using p [THEN conjunct2, THEN conjunct2, THEN conjunct1] n t by auto
  have c4: "lower (name root) = ''revenue'' \<longrightarrow>
               nature v = (if truthy (map_option (\<lambda>n. lower (strip n)) (b_nature b))
                           then map_option (\<lambda>n. lower (strip n)) (b_nature b)
                           else Some ''credit'')
               \<and> account_type v = Some ''p&l''
               \<and> (truthy (b_account_type b) \<longrightarrow> b_account_type b = Some ''p&l'')"
    using p [THEN conjunct2, THEN conjunct2, THEN conjunct2] n t by auto
  from h pa c1 c2 c3 c4 show ?thesis by blast
qed

lemma update_policy:
  assumes "get_by_id s i = Some a" and "update_account s i uf = Some (s', Inr r)"
  shows "\<exists>a'. get_by_id s' i = Some a' \<and> parent_id a' = parent_id a \<and> nature a' = nature a
           \<and> (account_type a' = account_type a \<or> account_type a' = None
                \<or> (\<exists>root. get_root_account s a' = Some (Inr root)
                     \<and> ((account_type a' = Some ''balance_sheet''
                            \<and> name root \<in> set [''Assets'', ''Liability & Equity''])
                         \<or> (account_type a' = Some ''p&l''
                            \<and> name root \<in> set [''Revenue'', ''Expenses'']))))"
proof -
  have f: "find (\<lambda>b. acc_id b = i) (accounts s) = Some a"
    using assms(1) by (simp add: get_by_id_def)
  have ida: "acc_id a = i" by (rule get_by_id_acc_id [OF assms(1)])
  from update_account_result [OF assms]
  consider (unchanged) "s' = s"
    | (changed) a1 ch1 a2 ch2 a3 ch3 where
        "update_name s a (u_name uf) = Inr (a1, ch1)"
        "update_cc_required s a1 (u_cc_required uf) = Inr (a2, ch2)"
        "update_account_type s a2 (u_account_type uf) = Some (Inr (a3, ch3))"
        "s' = s\<lparr>accounts := replace_account a3 (accounts s)\<rparr>"
    by blast
  then show ?thesis
  proof cases
    case unchanged
    with assms(1) show ?thesis by simp
  next
    case (changed a1 ch1 a2 ch2 a3 ch3)
    note n = changed(1) and c = changed(2) and t = changed(3) and s' = changed(4)
    from update_steps_fields [OF n c t] ida
    have k: "acc_id a3 = i" "parent_id a3 = parent_id a" "nature a3 = nature a" by simp_all
    have g: "get_by_id s' i = Some a3"
      using find_replace_account [OF f k(1)] s' by (simp add: get_by_id_def)
    have ty2: "account_type a2 = account_type a"
      using update_name_result [OF n] update_cc_required_result [OF c] by auto
    from update_account_type_result [OF t]
    consider (same) "a3 = a2" | (clear) "a3 = a2\<lparr>account_type := None\<rparr>"
      | (set) r0 t0 where "get_root_account s a2 = Some (Inr r0)"
          "a3 = a2\<lparr>account_type := Some t0\<rparr>"
          "t0 = ''balance_sheet'' \<and> name r0 \<in> set [''Assets'', ''Liability & Equity'']
           \<or> t0 = ''p&l'' \<and> name r0 \<in> set [''Revenue'', ''Expenses'']"
      by blast
    then have "account_type a3 = account_type a \<or> account_type a3 = None
                \<or> (\<exists>root. get_root_account s a3 = Some (Inr root)
                     \<and> ((account_type a3 = Some ''balance_sheet''
                            \<and> name root \<in> set [''Assets'', ''Liability & Equity''])
                         \<or> (account_type a3 = Some ''p&l''
                            \<and> name root \<in> set [''Revenue'', ''Expenses''])))"
    proof cases
      case same
      with ty2 show ?thesis by simp
    next
      case clear
      then show ?thesis by simp
    next
      case (set r0 t0)
      from set(2) have same: "parent_id a3 = parent_id a2" "name a3 = name a2" by simp_all
      from get_root_account_same_parent [OF same(1) set(1)] same(2)
      obtain r' where r': "get_root_account s a3 = Some (Inr r')" "name r' = name r0" by auto
      from set(2) have "account_type a3 = Some t0" by simp
      with set(3) r' show ?thesis by auto
    qed
    with g k show ?thesis by blast
  qed
qed

text \<open>
  Claim C4, as stated, fails for the update path: clearing the account type of \<open>Cash\<close>
  succeeds, and the account, whose root is \<open>Assets\<close>, is left without the account type
  \<open>balance_sheet\<close>.
\<close>

theorem cleared_account_type_counterexample:
  "update_account demo_db 5 (set_type_request JNull)
     = Some (cleared_db, Inr (Updated [''account type'']))
   \<and> get_by_id cleared_db 5 = Some (cash\<lparr>account_type := None\<rparr>)
   \<and> get_root_account cleared_db (cash\<lparr>account_type := None\<rparr>) = Some (Inr (demo_accounts ! 0))
   \<and> name (demo_accounts ! 0) = ''Assets''
   \<and> account_type (cash\<lparr>account_type := None\<rparr>) \<noteq> Some ''balance_sheet''"
  by code_simp

text \<open>
  Claim C4, amended. Creation: every account that a creation stores has a parent whose root
  is found, and, the root's name compared in lower case, under \<open>Assets\<close> its nature is
  \<open>debit\<close> and its account type \<open>balance_sheet\<close>, under \<open>Liability & Equity\<close> they are
  \<open>credit\<close> and \<open>balance_sheet\<close>, under \<open>Expenses\<close> and \<open>Revenue\<close> the account type is
  \<open>p&l\<close> and the nature is the requested one or, when none is requested, \<open>debit\<close> resp.
  \<open>credit\<close>; and the request had no conflicting explicit value (a creation with one does not
  succeed). Update: an update that succeeds never changes the nature or the parent, and
  leaves the account type as it was, or null (clearing is always allowed), or set to
  \<open>balance_sheet\<close> under a root named \<open>Assets\<close> or \<open>Liability & Equity\<close>, or to \<open>p&l\<close> under a
  root named \<open>Revenue\<close> or \<open>Expenses\<close> (the root being the one the update resolves from the
  account in the database it found).
\<close>

theorem root_policy_on_mutation:
  "(\<forall>s b s' v. create_account_in_account_tree s b = Some (s', Inr v) \<longrightarrow>
      (\<exists>s1 parent root.
           validate_root_accounts s = Inr s1
         \<and> get_parent_account_with_id s1 (b_parent_id b) = Inr (Some parent)
         \<and> get_root_account s1 parent = Some (Inr root)
         \<and> parent_id v = Some (acc_id parent)
         \<and> (lower (name root) = ''assets'' \<longrightarrow>
               nature v = Some ''debit'' \<and> account_type v = Some ''balance_sheet''
               \<and> (truthy (map_option (\<lambda>n. lower (strip n)) (b_nature b)) \<longrightarrow>
                    map_option (\<lambda>n. lower (strip n)) (b_nature b) = Some ''debit'')
               \<and> (truthy (b_account_type b) \<longrightarrow> b_account_type b = Some ''balance_sheet''))
         \<and> (lower (name root) = ''liability & equity'' \<longrightarrow>
               nature v = Some ''credit'' \<and> account_type v = Some ''balance_sheet''
               \<and> (truthy (map_option (\<lambda>n. lower (strip n)) (b_nature b)) \<longrightarrow>
                    map_option (\<lambda>n. lower (strip n)) (b_nature b) = Some ''credit'')
               \<and> (truthy (b_account_type b) \<longrightarrow> b_account_type b = Some ''balance_sheet''))
         \<and> (lower (name root) = ''expenses'' \<longrightarrow>
               nature v = (if truthy (map_option (\<lambda>n. lower (strip n)) (b_nature b))
                           then map_option (\<lambda>n. lower (strip n)) (b_nature b)
                           else Some ''debit'')
               \<and> account_type v = Some ''p&l''
               \<and> (truthy (b_account_type b) \<longrightarrow> b_account_type b = Some ''p&l''))
         \<and> (lower (name root) = ''revenue'' \<longrightarrow>
               nature v = (if truthy (map_option (\<lambda>n. lower (strip n)) (b_nature b))
                           then map_option (\<lambda>n. lower (strip n)) (b_nature b)
                           else Some ''credit'')
               \<and> account_type v = Some ''p&l''
               \<and> (truthy (b_account_type b) \<longrightarrow> b_account_type b = Some ''p&l''))))
   \<and> (\<forall>s i uf s' r a. get_by_id s i = Some a \<and> update_account s i uf = Some (s', Inr r) \<longrightarrow>
      (\<exists>a'. get_by_id s' i = Some a' \<and> parent_id a' = parent_id a \<and> nature a' = nature a
           \<and> (account_type a' = account_type a \<or> account_type a' = None
                \<or> (\<exists>root. get_root_account s a' = Some (Inr root)
                     \<and> ((account_type a' = Some ''balance_sheet''
                            \<and> name root \<in> set [''Assets'', ''Liability & Equity''])
                         \<or> (account_type a' = Some ''p&l''
                            \<and> name root \<in> set [''Revenue'', ''Expenses'']))))))"
proof (intro conjI allI impI)
  fix s b s' v
  assume "create_account_in_account_tree s b = Some (s', Inr v)"
  then show "\<exists>s1 parent root.
           validate_root_accounts s = Inr s1
         \<and> get_parent_account_with_id s1 (b_parent_id b) = Inr (Some parent)
         \<and> get_root_account s1 parent = Some (Inr root)
         \<and> parent_id v = Some (acc_id parent)
         \<and> (lower (name root) = ''assets'' \<longrightarrow>
               nature v = Some ''debit'' \<and> account_type v = Some ''balance_sheet''
               \<and> (truthy (map_option (\<lambda>n. lower (strip n)) (b_nature b)) \<longrightarrow>
                    map_option (\<lambda>n. lower (strip n)) (b_nature b) = Some ''debit'')
               \<and> (truthy (b_account_type b) \<longrightarrow> b_account_type b = Some ''balance_sheet''))
         \<and> (lower (name root) = ''liability & equity'' \<longrightarrow>
               nature v = Some ''credit'' \<and> account_type v = Some ''balance_sheet''
               \<and> (truthy (map_option (\<lambda>n. lower (strip n)) (b_nature b)) \<longrightarrow>
                    map_option (\<lambda>n. lower (strip n)) (b_nature b) = Some ''credit'')
               \<and> (truthy (b_account_type b) \<longrightarrow> b_account_type b = Some ''balance_sheet''))
         \<and> (lower (name root) = ''expenses'' \<longrightarrow>
               nature v = (if truthy (map_option (\<lambda>n. lower (strip n)) (b_nature b))
                           then map_option (\<lambda>n. lower (strip n)) (b_nature b)
                           else Some ''debit'')
               \<and> account_type v = Some ''p&l''
               \<and> (truthy (b_account_type b) \<longrightarrow> b_account_type b = Some ''p&l''))
         \<and> (lower (name root) = ''revenue'' \<longrightarrow>
               nature v = (if truthy (map_option (\<lambda>n. lower (strip n)) (b_nature b))
                           then map_option (\<lambda>n. lower (strip n)) (b_nature b)
                           else Some ''credit'')
               \<and> account_type v = Some ''p&l''
               \<and> (truthy (b_account_type b) \<longrightarrow> b_account_type b = Some ''p&l''))"
    by (rule create_policy)
next
  fix s i uf s' r a
  assume "get_by_id s i = Some a \<and> update_account s i uf = Some (s', Inr r)"
  then have "get_by_id s i = Some a" "update_account s i uf = Some (s', Inr r)" by simp_all
  then show "\<exists>a'. get_by_id s' i = Some a' \<and> parent_id a' = parent_id a \<and> nature a' = nature a
           \<and> (account_type a' = account_type a \<or> account_type a' = None
                \<or> (\<exists>root. get_root_account s a' = Some (Inr root)
                     \<and> ((account_type a' = Some ''balance_sheet''
                            \<and> name root \<in> set [''Assets'', ''Liability & Equity''])
                         \<or> (account_type a' = Some ''p&l''
                            \<and> name root \<in> set [''Revenue'', ''Expenses'']))))"
    by (rule update_policy)
qed

theorem root_policy_on_mutation_witness:
  "create_account_in_account_tree roots_db (new_account_request ''Cash'' 1)
     = Some (roots_db\<lparr>accounts := accounts roots_db @ [cash], next_id := 6\<rparr>, Inr cash)
   \<and> nature cash = Some ''debit'' \<and> account_type cash = Some ''balance_sheet''
   \<and> map_option snd (create_account_in_account_tree roots_db
         ((new_account_request ''Cash'' 1)\<lparr>b_nature := Some ''credit''\<rparr>))
       = Some (Inl (BadRequest AssetsNature))
   \<and> update_account cleared_db 5 (set_type_request (JStr ''balance_sheet''))
       = Some (demo_db, Inr (Updated [''account type'']))
   \<and> (\<exists>a'. get_by_id demo_db 5 = Some a' \<and> parent_id a' = parent_id (cash\<lparr>account_type := None\<rparr>)
           \<and> nature a' = nature (cash\<lparr>account_type := None\<rparr>)
           \<and> (account_type a' = account_type (cash\<lparr>account_type := None\<rparr>) \<or> account_type a' = None
                \<or> (\<exists>root. get_root_account cleared_db a' = Some (Inr root)
                     \<and> ((account_type a' = Some ''balance_sheet''
                            \<and> name root \<in> set [''Assets'', ''Liability & Equity''])
                         \<or> (account_type a' = Some ''p&l''
                            \<and> name root \<in> set [''Revenue'', ''Expenses''])))))"
proof -
  have h: "create_account_in_account_tree roots_db (new_account_request ''Cash'' 1)
     = Some (roots_db\<lparr>accounts := accounts roots_db @ [cash], next_id := 6\<rparr>, Inr cash)"
    by code_simp
  have rej: "map_option snd (create_account_in_account_tree roots_db
         ((new_account_request ''Cash'' 1)\<lparr>b_nature := Some ''credit''\<rparr>))
       = Some (Inl (BadRequest AssetsNature))"
    by code_simp
  have g: "get_by_id cleared_db 5 = Some (cash\<lparr>account_type := None\<rparr>)" by code_simp
  have u: "update_account cleared_db 5 (set_type_request (JStr ''balance_sheet''))
       = Some (demo_db, Inr (Updated [''account type'']))"
    by code_simp
  note c = root_policy_on_mutation [THEN conjunct1, rule_format, OF h]
  note p = root_policy_on_mutation [THEN conjunct2, rule_format, OF conjI [OF g u]]
  have r: "lower ''Assets'' = ''assets''" by code_simp
  have pr: "get_parent_account_with_id roots_db (Some 1) = Inr (Some (demo_accounts ! 0))"
    and vr: "validate_root_accounts roots_db = Inr roots_db"
    and rt: "get_root_account roots_db (demo_accounts ! 0) = Some (Inr (demo_accounts ! 0))"
    and nm: "name (demo_accounts ! 0) = ''Assets''"
    by code_simp+
  from c vr pr rt nm r have "nature cash = Some ''debit'' \<and> account_type cash = Some ''balance_sheet''"
    by (auto simp: new_account_request_def)
  with h rej u p show ?thesis by (intro conjI) simp_all
qed

subsection \<open>Code generator: more than 999 siblings\<close>

text \<open>
  Claim C3 says that the code assigned to a new account is unique across the whole tree.
  \<open>generate_code\<close> increments the last three characters of the greatest sibling code and
  pads to three digits; after the sibling \<open>1999\<close> the suffix is \<open>1000\<close> and the code \<open>11000\<close>,
  which sorts below \<open>1999\<close> as a string, so \<open>1999\<close> stays the last sibling and the next
  creation under the same parent is given \<open>11000\<close> again. Both creations succeed and both
  accounts are stored.
\<close>

theorem sibling_overflow_duplicate_code:
  "create_account_in_account_tree overflow_db (new_account_request ''Account 1000'' 1)
     = Some (overflow_db', Inr account_1000)
   \<and> create_account_in_account_tree overflow_db' (new_account_request ''Account 1001'' 1)
     = Some (overflow_db'', Inr account_1001)
   \<and> code account_1000 = ''11000'' \<and> code account_1001 = ''11000''
   \<and> acc_id account_1000 \<noteq> acc_id account_1001
   \<and> account_1000 \<in> set (accounts overflow_db'') \<and> account_1001 \<in> set (accounts overflow_db'')"
  by code_simp

subsection \<open>Root bootstrap\<close>

lemma replace_account_map:
  "distinct (map acc_id xs) \<Longrightarrow>
   replace_account a xs = map (\<lambda>b. if acc_id b = acc_id a then a else b) xs"
proof (induction xs)
  case Nil
  then show ?case by simp
next
  case (Cons b bs)
  show ?case
  proof (cases "acc_id b = acc_id a")
    case True
    from Cons.prems have "acc_id b \<notin> acc_id ` set bs" by simp
    then have "\<forall>c\<in>set bs. acc_id c \<noteq> acc_id b" by (metis imageI)
    with True have "\<forall>c\<in>set bs. acc_id c \<noteq> acc_id a" by simp
    then have "map (\<lambda>b. if acc_id b = acc_id a then a else b) bs = bs"
      by (simp add: map_idI)
    with True show ?thesis by simp
  next
    case False
    with Cons show ?thesis by simp
  qed
qed

lemma replace_account_same:
  "distinct (map acc_id xs) \<Longrightarrow> a \<in> set xs \<Longrightarrow> replace_account a xs = xs"
proof -
  assume d: "distinct (map acc_id xs)" and a: "a \<in> set xs"
  have "map (\<lambda>b. if acc_id b = acc_id a then a else b) xs = xs"
  proof (rule map_idI)
    fix b assume "b \<in> set xs"
    with d a have "acc_id b = acc_id a \<Longrightarrow> b = a"
      by (meson distinct_map inj_onD)
    then show "(if acc_id b = acc_id a then a else b) = b" by auto
  qed
  with replace_account_map [OF d] show ?thesis by simp
qed

lemma digit_val_digit_char: "d < 10 \<Longrightarrow> digit_val (digit_char d) = Some d"
proof -
  assume "d < 10"
  then have "d = 0 \<or> d = 1 \<or> d = 2 \<or> d = 3 \<or> d = 4 \<or> d = 5 \<or> d = 6 \<or> d = 7 \<or> d = 8 \<or> d = 9"
    by arith
  then show ?thesis
    by (elim disjE) (simp_all add: digit_val_def digit_char_def digit_chars_def)
qed

lemma digits_val_snoc:
  "digits_val acc (xs @ [c]) =
     (case digits_val acc xs of
        None \<Rightarrow> None
      | Some v \<Rightarrow> (case digit_val c of None \<Rightarrow> None | Some d \<Rightarrow> Some (10 * v + d)))"
  by (induction xs arbitrary: acc) (simp_all split: option.splits)

lemma py_str_not_Nil: "py_str n \<noteq> []"
  by (subst py_str.simps) simp

lemma digits_val_py_str: "digits_val 0 (py_str n) = Some n"
proof (induction n rule: py_str.induct)
  case (1 n)
  show ?case
  proof (cases "n < 10")
    case True
    then show ?thesis
      by (subst py_str.simps) (simp add: digit_val_digit_char)
  next
    case False
    with 1 have "digits_val 0 (py_str (n div 10)) = Some (n div 10)" by simp
    with False show ?thesis
      by (subst py_str.simps) (simp add: digits_val_snoc digit_val_digit_char)
  qed
qed

lemma py_int_py_str: "py_int (py_str n) = Some n"
  by (simp add: py_int_def py_str_not_Nil digits_val_py_str)

lemma replace_account_at:
  assumes "distinct (map acc_id xs)" and "a \<in> set xs" and "acc_id a' = acc_id a"
  shows "replace_account a' xs = map (\<lambda>b. if b = a then a' else b) xs"
proof -
  have "map (\<lambda>b. if acc_id b = acc_id a' then a' else b) xs
        = map (\<lambda>b. if b = a then a' else b) xs"
  proof (rule map_cong [OF refl])
    fix b assume b: "b \<in> set xs"
    have "acc_id b = acc_id a \<longleftrightarrow> b = a"
      using assms(1,2) b by (meson distinct_map inj_onD)
    with assms(3) show "(if acc_id b = acc_id a' then a' else b) = (if b = a then a' else b)"
      by simp
  qed
  with replace_account_map [OF assms(1)] show ?thesis by simp
qed

lemma find_root_Some:
  assumes "find (\<lambda>a. name a = nm \<and> parent_id a = None) xs = Some a"
  shows "a \<in> set xs" and "name a = nm" and "is_root a"
  using assms unfolding find_Some_iff is_root_def by (auto simp: in_set_conv_nth)

lemma find_root_None:
  assumes "find (\<lambda>a. name a = nm \<and> parent_id a = None) xs = None"
  shows "nm \<notin> set (map name (filter is_root xs))"
  using assms unfolding find_None_iff is_root_def by auto

lemma find_root_first:
  assumes "a \<in> set xs" and "name a = nm" and "is_root a"
      and "distinct (map name (filter is_root xs))"
  shows "find (\<lambda>a. name a = nm \<and> parent_id a = None) xs = Some a"
proof (cases "find (\<lambda>a. name a = nm \<and> parent_id a = None) xs")
  case None
  with assms(1-3) show ?thesis by (auto simp: find_None_iff is_root_def)
next
  case (Some b)
  note fb = find_root_Some [OF Some]
  from fb assms(1,3) have "a \<in> set (filter is_root xs)" "b \<in> set (filter is_root xs)"
    by simp_all
  moreover have "name a = name b" using fb(2) assms(2) by simp
  ultimately have "a = b" using assms(4) by (meson distinct_map inj_onD)
  with Some show ?thesis by simp
qed

lemma validate_root_eq:
  "validate_root s (nm, nat', ty, cc) =
     (case find (\<lambda>a. name a = nm \<and> parent_id a = None) (accounts s) of
        None \<Rightarrow>
          (case generate_code s None of
             None \<Rightarrow> Inl ValueError
           | Some c \<Rightarrow>
               Inr (s\<lparr>accounts := accounts s @
                       [\<lparr>acc_id = next_id s, name = nm, code = c, parent_id = None,
                         nature = Some nat', cc_required = cc, account_type = Some ty\<rparr>],
                      next_id := Suc (next_id s)\<rparr>))
      | Some a \<Rightarrow>
          Inr (s\<lparr>accounts := replace_account (a\<lparr>account_type := Some ty, cc_required := cc\<rparr>)
                                 (accounts s)\<rparr>))"
proof (cases "find (\<lambda>a. name a = nm \<and> parent_id a = None) (accounts s)")
  case None
  then show ?thesis
    by (simp add: validate_root_def add_account_def Let_def split: option.splits)
next
  case (Some a)
  have "(if cc_required (if account_type a \<noteq> Some ty then a\<lparr>account_type := Some ty\<rparr> else a) \<noteq> cc
         then (if account_type a \<noteq> Some ty then a\<lparr>account_type := Some ty\<rparr> else a)\<lparr>cc_required := cc\<rparr>
         else (if account_type a \<noteq> Some ty then a\<lparr>account_type := Some ty\<rparr> else a))
        = a\<lparr>account_type := Some ty, cc_required := cc\<rparr>"
    by (cases a) auto
  then show ?thesis
    unfolding validate_root_def Let_def prod.case Some option.case by (simp only:)
qed

lemma last_by_code_mem: "last_by_code xs = Some a \<Longrightarrow> a \<in> set xs"
  by (induction xs arbitrary: a) (auto split: option.splits if_splits)

lemma generate_code_root:
  assumes "list_all (\<lambda>a. py_int (code a) \<noteq> None) (filter is_root (accounts s))"
  shows "\<exists>c. generate_code s None = Some c \<and> py_int c \<noteq> None"
proof (cases "last_by_code (filter is_root (accounts s))")
  case None
  have "py_int ''1000'' = Some 1000" by code_simp
  with None show ?thesis by (simp add: generate_code_def)
next
  case (Some a)
  from last_by_code_mem [OF Some] assms obtain n where "py_int (code a) = Some n"
    by (auto simp: list_all_iff)
  with Some show ?thesis by (simp add: generate_code_def py_int_py_str)
qed

lemma root_accounts_cases:
  "p \<in> set root_accounts \<longleftrightarrow>
     p = (''Assets'', ''debit'', ''balance_sheet'', False)
   \<or> p = (''Liability & Equity'', ''credit'', ''balance_sheet'', False)
   \<or> p = (''Expenses'', ''debit'', ''p&l'', False)
   \<or> p = (''Revenue'', ''credit'', ''p&l'', False)"
  by (simp add: root_accounts_def)

lemma root_accounts_functional:
  assumes "(nm, nat1, ty1, cc1) \<in> set root_accounts" and "(nm, nat2, ty2, cc2) \<in> set root_accounts"
  shows "nat1 = nat2 \<and> ty1 = ty2 \<and> cc1 = cc2"
  using assms unfolding root_accounts_cases by auto

lemma canonical_iff:
  "canonical a \<longleftrightarrow>
     (\<exists>nat' ty. (name a, nat', ty, cc_required a) \<in> set root_accounts
        \<and> nature a = Some nat' \<and> account_type a = Some ty)"
  unfolding canonical_def by (auto simp: root_accounts_def)

lemma canonical_nature_iff:
  "canonical_nature a \<longleftrightarrow>
     (\<exists>nat' ty cc. (name a, nat', ty, cc) \<in> set root_accounts \<and> nature a = Some nat')"
  unfolding canonical_nature_def by (auto simp: root_accounts_def)

lemma canonical_fields:
  assumes "(nm, nat', ty, cc) \<in> set root_accounts" and "canonical a" and "name a = nm"
  shows "nature a = Some nat'" and "account_type a = Some ty" and "cc_required a = cc"
proof -
  from assms(2) obtain nat2 ty2 where
    h: "(name a, nat2, ty2, cc_required a) \<in> set root_accounts"
       "nature a = Some nat2" "account_type a = Some ty2"
    unfolding canonical_iff by blast
  from root_accounts_functional [OF assms(1) h(1) [unfolded assms(3)]] h
  show "nature a = Some nat'" and "account_type a = Some ty" and "cc_required a = cc"
    by simp_all
qed

lemma canonical_after_update:
  assumes "(nm, nat', ty, cc) \<in> set root_accounts" and "canonical_nature a" and "name a = nm"
  shows "canonical (a\<lparr>account_type := Some ty, cc_required := cc\<rparr>)"
proof -
  from assms(2) obtain nat2 ty2 cc2 where
    h: "(name a, nat2, ty2, cc2) \<in> set root_accounts" "nature a = Some nat2"
    unfolding canonical_nature_iff by blast
  from root_accounts_functional [OF assms(1) h(1) [unfolded assms(3)]] h(2)
  have "nature a = Some nat'" by simp
  with assms(1,3) show ?thesis unfolding canonical_iff by auto
qed

lemma validate_root_append:
  assumes ok: "ids_ok s" and known: "roots_known s"
      and p: "(nm, nat', ty, cc) \<in> set root_accounts"
      and canon: "\<forall>a\<in>set (roots s). name a \<in> M \<longrightarrow> canonical a"
      and none: "find (\<lambda>a. name a = nm \<and> parent_id a = None) (accounts s) = None"
  shows "\<exists>s'. validate_root s (nm, nat', ty, cc) = Inr s' \<and> ids_ok s' \<and> roots_known s'
           \<and> set (map name (roots s')) = insert nm (set (map name (roots s)))
           \<and> (\<forall>a\<in>set (roots s'). name a \<in> insert nm M \<longrightarrow> canonical a)
           \<and> (\<exists>ys. map acc_id (accounts s') = map acc_id (accounts s) @ ys)"
proof -
  from known have codes: "list_all (\<lambda>a. py_int (code a) \<noteq> None) (filter is_root (accounts s))"
    by (simp add: roots_known_def roots_def list_all_iff)
  from generate_code_root [OF codes] obtain c where
    c: "generate_code s None = Some c" "py_int c \<noteq> None" by blast
  define new where "new = \<lparr>acc_id = next_id s, name = nm, code = c, parent_id = None,
      nature = Some nat', cc_required = cc, account_type = Some ty\<rparr>"
  define s' where "s' = s\<lparr>accounts := accounts s @ [new], next_id := Suc (next_id s)\<rparr>"
  have v: "validate_root s (nm, nat', ty, cc) = Inr s'"
    unfolding validate_root_eq none c s'_def new_def by simp
  have fresh: "next_id s \<notin> set (map acc_id (accounts s))"
    using ok by (auto simp: ids_ok_def list_all_iff)
  have ok': "ids_ok s'"
    using ok fresh by (auto simp: ids_ok_def s'_def new_def list_all_iff)
  have r': "roots s' = roots s @ [new]"
    by (simp add: roots_def s'_def new_def is_root_def)
  have nm: "nm \<notin> set (map name (roots s))"
    using find_root_None [OF none] by (simp add: roots_def)
  have cn: "canonical new" "canonical_nature new"
    using p unfolding canonical_iff canonical_nature_iff new_def by auto
  have known': "roots_known s'"
    using known nm cn(2) c(2) by (simp add: roots_known_def r' new_def)
  have names: "set (map name (roots s')) = insert nm (set (map name (roots s)))"
    by (simp add: r' new_def)
  have canon': "\<forall>a\<in>set (roots s'). name a \<in> insert nm M \<longrightarrow> canonical a"
  proof (intro ballI impI)
    fix a assume a: "a \<in> set (roots s')" "name a \<in> insert nm M"
    show "canonical a"
    proof (cases "a = new")
      case True
      with cn show ?thesis by simp
    next
      case False
      with a(1) have m: "a \<in> set (roots s)" by (simp add: r')
      with nm have "name a \<noteq> nm" by auto
      with a(2) m canon show ?thesis by simp
    qed
  qed
  have "map acc_id (accounts s') = map acc_id (accounts s) @ [next_id s]"
    by (simp add: s'_def new_def)
  with v ok' known' names canon' show ?thesis by blast
qed

lemma validate_root_update:
  assumes ok: "ids_ok s" and known: "roots_known s"
      and p: "(nm, nat', ty, cc) \<in> set root_accounts"
      and canon: "\<forall>a\<in>set (roots s). name a \<in> M \<longrightarrow> canonical a"
      and some: "find (\<lambda>a. name a = nm \<and> parent_id a = None) (accounts s) = Some a"
  shows "\<exists>s'. validate_root s (nm, nat', ty, cc) = Inr s' \<and> ids_ok s' \<and> roots_known s'
           \<and> set (map name (roots s')) = insert nm (set (map name (roots s)))
           \<and> (\<forall>a\<in>set (roots s'). name a \<in> insert nm M \<longrightarrow> canonical a)
           \<and> (\<exists>ys. map acc_id (accounts s') = map acc_id (accounts s) @ ys)"
proof -
  note fa = find_root_Some [OF some]
  define a' where "a' = a\<lparr>account_type := Some ty, cc_required := cc\<rparr>"
  define f where "f = (\<lambda>b. if b = a then a' else b)"
  define s' where "s' = s\<lparr>accounts := map f (accounts s)\<rparr>"
  have d: "distinct (map acc_id (accounts s))" using ok by (simp add: ids_ok_def)
  have "replace_account a' (accounts s) = map f (accounts s)"
    unfolding f_def by (rule replace_account_at [OF d fa(1)]) (simp add: a'_def)
  then have v: "validate_root s (nm, nat', ty, cc) = Inr s'"
    unfolding validate_root_eq some s'_def a'_def by simp
  have keep: "acc_id (f b) = acc_id b" "name (f b) = name b" "code (f b) = code b"
    "nature (f b) = nature b" "is_root (f b) = is_root b" for b
    by (simp_all add: f_def a'_def is_root_def)
  have ids: "map acc_id (accounts s') = map acc_id (accounts s)"
    by (simp add: s'_def keep)
  have n': "next_id s' = next_id s" by (simp add: s'_def)
  have "\<forall>b\<in>set (accounts s). acc_id (f b) < next_id s"
    using ok by (simp add: ids_ok_def list_all_iff keep(1))
  then have lt: "list_all (\<lambda>a. acc_id a < next_id s') (accounts s')"
    unfolding n' by (simp add: s'_def list_all_iff)
  have ok': "ids_ok s'"
    unfolding ids_ok_def ids by (rule conjI [OF d lt])
  have r': "roots s' = map f (roots s)"
    by (simp add: roots_def s'_def filter_map comp_def keep)
  have nms: "map name (roots s') = map name (roots s)"
    by (simp add: r' keep)
  have keepn: "canonical_nature (f b) = canonical_nature b" for b
    unfolding canonical_nature_def by (simp add: keep)
  have known': "roots_known s'"
    using known unfolding roots_known_def nms by (simp add: r' list_all_iff keep keepn)
  have ar: "a \<in> set (roots s)" using fa by (simp add: roots_def)
  have an: "canonical_nature a" using known ar by (simp add: roots_known_def list_all_iff)
  have ca': "canonical a'"
    unfolding a'_def by (rule canonical_after_update [OF p an fa(2)])
  have names: "set (map name (roots s')) = insert nm (set (map name (roots s)))"
    using ar fa(2) unfolding nms by auto
  have canon': "\<forall>x\<in>set (roots s'). name x \<in> insert nm M \<longrightarrow> canonical x"
  proof (intro ballI impI)
    fix x assume x: "x \<in> set (roots s')" "name x \<in> insert nm M"
    then obtain b where b: "b \<in> set (roots s)" "x = f b" by (auto simp: r')
    show "canonical x"
    proof (cases "b = a")
      case True
      with b ca' show ?thesis by (simp add: f_def)
    next
      case False
      have "name b \<noteq> nm"
      proof
        assume "name b = nm"
        with fa(2) have "name b = name a" by simp
        with b(1) ar known have "b = a"
          unfolding roots_known_def by (meson distinct_map inj_onD)
        with False show False by simp
      qed
      moreover from False b have "x = b" by (simp add: f_def)
      ultimately show ?thesis using x(2) b(1) canon by simp
    qed
  qed
  from ids have ex: "\<exists>ys. map acc_id (accounts s') = map acc_id (accounts s) @ ys" by simp
  from v ok' known' names canon' ex show ?thesis by (intro exI [where x = s'] conjI)
qed

lemma validate_root_step:
  assumes "ids_ok s" and "roots_known s"
      and "(nm, nat', ty, cc) \<in> set root_accounts"
      and "\<forall>a\<in>set (roots s). name a \<in> M \<longrightarrow> canonical a"
  shows "\<exists>s'. validate_root s (nm, nat', ty, cc) = Inr s' \<and> ids_ok s' \<and> roots_known s'
           \<and> set (map name (roots s')) = insert nm (set (map name (roots s)))
           \<and> (\<forall>a\<in>set (roots s'). name a \<in> insert nm M \<longrightarrow> canonical a)
           \<and> (\<exists>ys. map acc_id (accounts s') = map acc_id (accounts s) @ ys)"
proof (cases "find (\<lambda>a. name a = nm \<and> parent_id a = None) (accounts s)")
  case None
  from validate_root_append [OF assms None] show ?thesis .
next
  case (Some a)
  from validate_root_update [OF assms Some] show ?thesis .
qed

lemma validate_roots_fold:
  assumes "ids_ok s" and "roots_known s" and "set ps \<subseteq> set root_accounts"
      and "\<forall>a\<in>set (roots s). name a \<in> M \<longrightarrow> canonical a"
  shows "\<exists>s'. validate_roots s ps = Inr s' \<and> ids_ok s' \<and> roots_known s'
           \<and> set (map name (roots s')) = fst ` set ps \<union> set (map name (roots s))
           \<and> (\<forall>a\<in>set (roots s'). name a \<in> fst ` set ps \<union> M \<longrightarrow> canonical a)
           \<and> (\<exists>ys. map acc_id (accounts s') = map acc_id (accounts s) @ ys)"
  using assms
proof (induction ps arbitrary: s M)
  case Nil
  then show ?case by simp
next
  case (Cons p ps)
  obtain nm nat' ty cc where p: "p = (nm, nat', ty, cc)" by (cases p)
  from Cons.prems(3) p have pin: "(nm, nat', ty, cc) \<in> set root_accounts"
    and sub: "set ps \<subseteq> set root_accounts" by auto
  from validate_root_step [OF Cons.prems(1,2) pin Cons.prems(4)]
  obtain s1 ys1 where s1: "validate_root s (nm, nat', ty, cc) = Inr s1" "ids_ok s1" "roots_known s1"
    "set (map name (roots s1)) = insert nm (set (map name (roots s)))"
    "\<forall>a\<in>set (roots s1). name a \<in> insert nm M \<longrightarrow> canonical a"
    "map acc_id (accounts s1) = map acc_id (accounts s) @ ys1"
    by blast
  from Cons.IH [OF s1(2,3) sub s1(5)]
  obtain s' ys2 where s': "validate_roots s1 ps = Inr s'" "ids_ok s'" "roots_known s'"
    "set (map name (roots s')) = fst ` set ps \<union> set (map name (roots s1))"
    "\<forall>a\<in>set (roots s'). name a \<in> fst ` set ps \<union> insert nm M \<longrightarrow> canonical a"
    "map acc_id (accounts s') = map acc_id (accounts s1) @ ys2"
    by blast
  have v: "validate_roots s (p # ps) = Inr s'"
    by (simp add: p s1(1) s'(1))
  have n: "set (map name (roots s')) = fst ` set (p # ps) \<union> set (map name (roots s))"
    unfolding s'(4) s1(4) by (simp add: p)
  have c: "\<forall>a\<in>set (roots s'). name a \<in> fst ` set (p # ps) \<union> M \<longrightarrow> canonical a"
    using s'(5) by (simp add: p)
  have i: "\<exists>ys. map acc_id (accounts s') = map acc_id (accounts s) @ ys"
    unfolding s'(6) s1(6) by simp
  from v s'(2,3) n c i show ?case by (intro exI [where x = s'] conjI)
qed

lemma roots_known_names:
  assumes "roots_known s"
  shows "set (map name (roots s)) \<subseteq> fst ` set root_accounts"
proof
  fix n assume "n \<in> set (map name (roots s))"
  then obtain a where a: "a \<in> set (roots s)" "n = name a" by auto
  with assms have "canonical_nature a" by (simp add: roots_known_def list_all_iff)
  then show "n \<in> fst ` set root_accounts"
    unfolding canonical_nature_iff a(2) by force
qed

lemma card_root_names: "card (fst ` set root_accounts) = 4"
  by (simp add: root_accounts_def)

lemma bootstrap_establishes:
  assumes "ids_ok s" and "roots_known s"
  shows "\<exists>s1. validate_root_accounts s = Inr s1 \<and> ids_ok s1 \<and> roots_known s1
           \<and> four_canonical_roots s1
           \<and> (\<exists>ys. map acc_id (accounts s1) = map acc_id (accounts s) @ ys)"
proof -
  from validate_roots_fold [OF assms subset_refl, of "{}"]
  obtain s1 where s1: "validate_roots s root_accounts = Inr s1" "ids_ok s1" "roots_known s1"
    "set (map name (roots s1)) = fst ` set root_accounts \<union> set (map name (roots s))"
    "\<forall>a\<in>set (roots s1). name a \<in> fst ` set root_accounts \<union> {} \<longrightarrow> canonical a"
    "\<exists>ys. map acc_id (accounts s1) = map acc_id (accounts s) @ ys"
    by auto
  from s1(4) roots_known_names [OF assms(2)]
  have names: "set (map name (roots s1)) = fst ` set root_accounts" by auto
  have names': "set (map name (roots s1)) = set (map fst root_accounts)"
    unfolding names by simp
  from s1(3) have "distinct (map name (roots s1))" by (simp add: roots_known_def)
  then have "card (set (map name (roots s1))) = length (map name (roots s1))"
    by (rule distinct_card)
  then have len: "length (roots s1) = 4"
    unfolding names card_root_names by simp
  have "\<forall>a\<in>set (roots s1). canonical a"
  proof
    fix a assume a: "a \<in> set (roots s1)"
    then have "name a \<in> set (map name (roots s1))" by simp
    with names have "name a \<in> fst ` set root_accounts \<union> {}" by simp
    with s1(5) a show "canonical a" by blast
  qed
  then have "list_all canonical (roots s1)" by (simp add: list_all_iff)
  with len names' have "four_canonical_roots s1" by (simp add: four_canonical_roots_def)
  with s1(1,2,3,6) show ?thesis
    unfolding validate_root_accounts_def by (intro exI [where x = s1] conjI)
qed

lemma validate_root_stable:
  assumes ok: "ids_ok s" and known: "roots_known s" and four: "four_canonical_roots s"
      and p: "(nm, nat', ty, cc) \<in> set root_accounts"
  shows "validate_root s (nm, nat', ty, cc) = Inr s"
proof -
  from p have "nm \<in> set (map fst root_accounts)" by force
  with four have "nm \<in> set (map name (roots s))" by (simp add: four_canonical_roots_def)
  then obtain a where a: "a \<in> set (roots s)" "name a = nm" by auto
  then have ain: "a \<in> set (accounts s)" and ar: "is_root a" by (simp_all add: roots_def)
  from known have d: "distinct (map name (filter is_root (accounts s)))"
    by (simp add: roots_known_def roots_def)
  note f = find_root_first [OF ain a(2) ar d]
  from four a(1) have "canonical a" by (simp add: four_canonical_roots_def list_all_iff)
  from canonical_fields [OF p this a(2)]
  have "a\<lparr>account_type := Some ty, cc_required := cc\<rparr> = a" by simp
  moreover from ok have "distinct (map acc_id (accounts s))" by (simp add: ids_ok_def)
  then have "replace_account a (accounts s) = accounts s"
    using ain by (rule replace_account_same)
  ultimately show ?thesis unfolding validate_root_eq f by simp
qed

lemma validate_roots_stable:
  assumes "ids_ok s" and "roots_known s" and "four_canonical_roots s"
      and "set ps \<subseteq> set root_accounts"
  shows "validate_roots s ps = Inr s"
  using assms(4)
proof (induction ps)
  case Nil
  then show ?case by simp
next
  case (Cons p ps)
  obtain nm nat' ty cc where p: "p = (nm, nat', ty, cc)" by (cases p)
  with Cons.prems have "(nm, nat', ty, cc) \<in> set root_accounts" by simp
  from validate_root_stable [OF assms(1,2,3) this] Cons show ?case by (simp add: p)
qed

lemma validate_root_accounts_times_stable:
  "validate_root_accounts s = Inr s \<Longrightarrow> validate_root_accounts_times n s = Inr s"
  by (induction n) simp_all

lemma four_canonical_roots_explicit:
  assumes "four_canonical_roots s"
  shows "length (roots s) = 4"
    and "set (map name (roots s)) = set [''Assets'', ''Liability & Equity'', ''Expenses'', ''Revenue'']"
    and "list_all (\<lambda>a. parent_id a = None \<and> cc_required a = False
           \<and> (nature a, account_type a)
               = (if name a = ''Assets'' then (Some ''debit'', Some ''balance_sheet'')
                  else if name a = ''Liability & Equity'' then (Some ''credit'', Some ''balance_sheet'')
                  else if name a = ''Expenses'' then (Some ''debit'', Some ''p&l'')
                  else (Some ''credit'', Some ''p&l''))) (roots s)"
proof -
  from assms show "length (roots s) = 4" by (simp add: four_canonical_roots_def)
  from assms show "set (map name (roots s))
      = set [''Assets'', ''Liability & Equity'', ''Expenses'', ''Revenue'']"
    by (simp add: four_canonical_roots_def root_accounts_def)
  show "list_all (\<lambda>a. parent_id a = None \<and> cc_required a = False
           \<and> (nature a, account_type a)
               = (if name a = ''Assets'' then (Some ''debit'', Some ''balance_sheet'')
                  else if name a = ''Liability & Equity'' then (Some ''credit'', Some ''balance_sheet'')
                  else if name a = ''Expenses'' then (Some ''debit'', Some ''p&l'')
                  else (Some ''credit'', Some ''p&l''))) (roots s)"
    unfolding list_all_iff
  proof
    fix a assume a: "a \<in> set (roots s)"
    then have r: "parent_id a = None" by (simp add: roots_def is_root_def)
    from assms a have "canonical a" by (simp add: four_canonical_roots_def list_all_iff)
    then obtain nat' ty where
      h: "(name a, nat', ty, cc_required a) \<in> set root_accounts"
         "nature a = Some nat'" "account_type a = Some ty"
      unfolding canonical_iff by blast
    from h(1) [unfolded root_accounts_cases] h(2,3) r
    show "parent_id a = None \<and> cc_required a = False
           \<and> (nature a, account_type a)
               = (if name a = ''Assets'' then (Some ''debit'', Some ''balance_sheet'')
                  else if name a = ''Liability & Equity'' then (Some ''credit'', Some ''balance_sheet'')
                  else if name a = ''Expenses'' then (Some ''debit'', Some ''p&l'')
                  else (Some ''credit'', Some ''p&l''))"
      by auto
  qed
qed

lemma validate_root_accounts_empty_db: "validate_root_accounts empty_db = Inr roots_db"
proof -
  let ?e = "\<lambda>k. roots_db\<lparr>accounts := take k demo_accounts, next_id := Suc k\<rparr>"
  have e0: "empty_db = ?e 0" and e4: "?e 4 = roots_db"
    by (simp_all add: empty_db_def roots_db_def)
  have f: "find (\<lambda>a. name a = ''Assets'' \<and> parent_id a = None) (accounts (?e 0)) = None"
    "find (\<lambda>a. name a = ''Liability & Equity'' \<and> parent_id a = None) (accounts (?e 1)) = None"
    "find (\<lambda>a. name a = ''Expenses'' \<and> parent_id a = None) (accounts (?e 2)) = None"
    "find (\<lambda>a. name a = ''Revenue'' \<and> parent_id a = None) (accounts (?e 3)) = None"
    by (simp_all add: demo_accounts_def)
  have g: "generate_code (?e 0) None = Some ''1000''"
    "generate_code (?e 1) None = Some ''2000''"
    "generate_code (?e 2) None = Some ''3000''"
    "generate_code (?e 3) None = Some ''4000''"
    by (simp_all add: generate_code_def demo_accounts_def is_root_def
        py_int_def digit_val_def digit_chars_def py_str.simps digit_char_def)
  have s1: "validate_root (?e 0) (''Assets'', ''debit'', ''balance_sheet'', False) = Inr (?e 1)"
    unfolding validate_root_eq f g by (simp add: demo_accounts_def roots_db_def)
  have s2: "validate_root (?e 1) (''Liability & Equity'', ''credit'', ''balance_sheet'', False)
      = Inr (?e 2)"
    unfolding validate_root_eq f g by (simp add: demo_accounts_def roots_db_def)
  have s3: "validate_root (?e 2) (''Expenses'', ''debit'', ''p&l'', False) = Inr (?e 3)"
    unfolding validate_root_eq f g by (simp add: demo_accounts_def roots_db_def)
  have s4: "validate_root (?e 3) (''Revenue'', ''credit'', ''p&l'', False) = Inr (?e 4)"
    unfolding validate_root_eq f g by (simp add: demo_accounts_def roots_db_def)
  have "validate_roots (?e 0) root_accounts = Inr (?e 4)"
    unfolding root_accounts_def by (simp only: validate_roots.simps s1 s2 s3 s4 sum.case)
  then show ?thesis unfolding validate_root_accounts_def e0 e4 .
qed

text \<open>
  Claim C9, as stated, fails for "any starting store": in the database where the root
  \<open>Assets\<close> has been renamed to \<open>Fixed Assets\<close> (an update that succeeds), the bootstrap finds
  no root named \<open>Assets\<close> and adds one, with code \<open>5000\<close>; the database then has five roots.
\<close>

theorem bootstrap_fifth_root_counterexample:
  "update_account demo_db 1 (rename_request ''Fixed Assets'')
     = Some (fixed_db, Inr (Updated [''name'']))
   \<and> validate_root_accounts fixed_db = Inr five_roots_db
   \<and> map name (filter is_root (accounts five_roots_db))
       = [''Fixed Assets'', ''Liability & Equity'', ''Expenses'', ''Revenue'', ''Assets'']
   \<and> length (filter is_root (accounts five_roots_db)) = 5"
proof -
  have u: "update_account demo_db 1 (rename_request ''Fixed Assets'')
     = Some (fixed_db, Inr (Updated [''name'']))"
    by code_simp
  have f: "find (\<lambda>a. name a = ''Assets'' \<and> parent_id a = None) (accounts fixed_db) = None"
    by code_simp
  have g: "generate_code fixed_db None = Some ''5000''"
    by (simp add: generate_code_def fixed_db_def demo_db_def demo_accounts_def is_root_def
        py_int_def digit_val_def digit_chars_def py_str.simps digit_char_def)
  have s1: "validate_root fixed_db (''Assets'', ''debit'', ''balance_sheet'', False)
      = Inr five_roots_db"
    unfolding validate_root_eq f g by (simp add: five_roots_db_def fixed_db_def demo_db_def)
  have s2: "validate_root five_roots_db (''Liability & Equity'', ''credit'', ''balance_sheet'', False)
      = Inr five_roots_db"
    and s3: "validate_root five_roots_db (''Expenses'', ''debit'', ''p&l'', False)
      = Inr five_roots_db"
    and s4: "validate_root five_roots_db (''Revenue'', ''credit'', ''p&l'', False)
      = Inr five_roots_db"
    by code_simp+
  have v: "validate_root_accounts fixed_db = Inr five_roots_db"
    unfolding validate_root_accounts_def root_accounts_def
    by (simp only: validate_roots.simps s1 s2 s3 s4 sum.case)
  have n: "map name (filter is_root (accounts five_roots_db))
       = [''Fixed Assets'', ''Liability & Equity'', ''Expenses'', ''Revenue'', ''Assets'']"
    by code_simp
  have "length (map name (filter is_root (accounts five_roots_db))) = 5"
    unfolding n by simp
  then have "length (filter is_root (accounts five_roots_db)) = 5"
    by (simp only: length_map)
  with u v n show ?thesis by (intro conjI)
qed

text \<open>
  Claim C9, amended. Let the ids of the starting database be pairwise different and below
  the sequence, and let its roots be among the four canonical ones: pairwise different names,
  each named \<open>Assets\<close>, \<open>Liability & Equity\<close>, \<open>Expenses\<close> or \<open>Revenue\<close> with that root's nature,
  and a numeric code (the empty database is such a database). Then the bootstrap returns, and
  invoking it \<open>N\<close> times gives the same database \<open>s1\<close> for every \<open>N \<ge> 1\<close>, so no id changes after
  the first invocation; \<open>s1\<close> has exactly four roots, named \<open>Assets\<close>, \<open>Liability & Equity\<close>,
  \<open>Expenses\<close> and \<open>Revenue\<close>, each without a parent, with \<open>cc_required\<close> false and with nature and
  account type debit/balance_sheet, credit/balance_sheet, debit/p&l and credit/p&l; and the
  rows that were there before keep their ids.
\<close>

theorem root_bootstrap_idempotent:
  assumes "ids_ok s" and "roots_known s"
  shows "\<exists>s1. (\<forall>n. validate_root_accounts_times (Suc n) s = Inr s1)
           \<and> length (roots s1) = 4
           \<and> set (map name (roots s1))
               = set [''Assets'', ''Liability & Equity'', ''Expenses'', ''Revenue'']
           \<and> list_all (\<lambda>a. parent_id a = None \<and> cc_required a = False
                \<and> (nature a, account_type a)
                    = (if name a = ''Assets'' then (Some ''debit'', Some ''balance_sheet'')
                       else if name a = ''Liability & Equity''
                       then (Some ''credit'', Some ''balance_sheet'')
                       else if name a = ''Expenses'' then (Some ''debit'', Some ''p&l'')
                       else (Some ''credit'', Some ''p&l''))) (roots s1)
           \<and> (\<exists>ys. map acc_id (accounts s1) = map acc_id (accounts s) @ ys)"
proof -
  from bootstrap_establishes [OF assms]
  obtain s1 where s1: "validate_root_accounts s = Inr s1" "ids_ok s1" "roots_known s1"
    "four_canonical_roots s1"
    "\<exists>ys. map acc_id (accounts s1) = map acc_id (accounts s) @ ys"
    by blast
  have "validate_root_accounts s1 = Inr s1"
    unfolding validate_root_accounts_def
    by (rule validate_roots_stable [OF s1(2,3,4) subset_refl])
  then have "validate_root_accounts_times n s1 = Inr s1" for n
    by (rule validate_root_accounts_times_stable)
  with s1(1) have t: "\<forall>n. validate_root_accounts_times (Suc n) s = Inr s1" by simp
  note e = four_canonical_roots_explicit [OF s1(4)]
  from t e s1(5) show ?thesis by (intro exI [where x = s1] conjI)
qed

theorem root_bootstrap_idempotent_witness:
  "ids_ok empty_db \<and> roots_known empty_db
   \<and> (\<forall>n. validate_root_accounts_times (Suc n) empty_db = Inr roots_db)
   \<and> map acc_id (roots roots_db) = [1, 2, 3, 4]
   \<and> map name (roots roots_db) = [''Assets'', ''Liability & Equity'', ''Expenses'', ''Revenue'']"
proof -
  have i: "ids_ok empty_db" and k: "roots_known empty_db"
    by (simp_all add: ids_ok_def roots_known_def roots_def empty_db_def)
  from root_bootstrap_idempotent [OF i k]
  obtain s1 where s1: "\<forall>n. validate_root_accounts_times (Suc n) empty_db = Inr s1" by blast
  then have "validate_root_accounts_times (Suc 0) empty_db = Inr s1" by blast
  then have "s1 = roots_db" by (simp add: validate_root_accounts_empty_db)
  with s1 have t: "\<forall>n. validate_root_accounts_times (Suc n) empty_db = Inr roots_db" by simp
  have "map acc_id (roots roots_db) = [1, 2, 3, 4]"
    and "map name (roots roots_db) = [''Assets'', ''Liability & Equity'', ''Expenses'', ''Revenue'']"
    by (simp_all add: roots_def roots_db_def demo_accounts_def is_root_def)
  with i k t show ?thesis by (intro conjI)
qed

subsection \<open>The four roots under creation, update and deletion\<close>

lemma find_id_distinct:
  assumes "distinct (map acc_id xs)" and "a \<in> set xs"
  shows "find (\<lambda>b. acc_id b = acc_id a) xs = Some a"
  using assms
proof (induction xs)
  case Nil
  then show ?case by simp
next
  case (Cons b bs)
  show ?case
  proof (cases "acc_id b = acc_id a")
    case True
    from Cons.prems(1) have "acc_id b \<notin> acc_id ` set bs" by simp
    with True have "a \<notin> set bs" by (metis imageI)
    with Cons.prems(2) have "a = b" by simp
    then show ?thesis by simp
  next
    case False
    then have "a \<noteq> b" by auto
    with Cons False show ?thesis by simp
  qed
qed

lemma map_acc_id_replace_account:
  "map acc_id (replace_account a xs) = map acc_id xs"
  by (induction xs) simp_all

lemma roots_ids_replace_account:
  assumes "find (\<lambda>b. acc_id b = acc_id a') xs = Some a" and "parent_id a' = parent_id a"
  shows "map acc_id (filter is_root (replace_account a' xs)) = map acc_id (filter is_root xs)"
  using assms by (induction xs) (auto simp: is_root_def split: if_splits)

lemma roots_names_replace_account:
  assumes "find (\<lambda>b. acc_id b = acc_id a') xs = Some a" and "parent_id a' = parent_id a"
      and "name a' = name a \<or> parent_id a \<noteq> None"
  shows "map name (filter is_root (replace_account a' xs)) = map name (filter is_root xs)"
  using assms by (induction xs) (auto simp: is_root_def split: if_splits)

lemma validate_root_found:
  assumes ok: "ids_ok s" and nm: "nm \<in> set (map name (roots s))"
  shows "\<exists>s'. validate_root s (nm, nat', ty, cc) = Inr s' \<and> ids_ok s'
           \<and> map acc_id (roots s') = map acc_id (roots s)
           \<and> map name (roots s') = map name (roots s)"
proof -
  from nm obtain r where r: "r \<in> set (accounts s)" "is_root r" "name r = nm"
    by (auto simp: roots_def)
  then have "find (\<lambda>a. name a = nm \<and> parent_id a = None) (accounts s) \<noteq> None"
    by (auto simp: find_None_iff is_root_def)
  then obtain a where some: "find (\<lambda>a. name a = nm \<and> parent_id a = None) (accounts s) = Some a"
    by blast
  note fa = find_root_Some [OF some]
  define a' where "a' = a\<lparr>account_type := Some ty, cc_required := cc\<rparr>"
  define s' where "s' = s\<lparr>accounts := replace_account a' (accounts s)\<rparr>"
  have v: "validate_root s (nm, nat', ty, cc) = Inr s'"
    unfolding validate_root_eq some s'_def a'_def by simp
  have d: "distinct (map acc_id (accounts s))" using ok by (simp add: ids_ok_def)
  have "find (\<lambda>b. acc_id b = acc_id a) (accounts s) = Some a"
    by (rule find_id_distinct [OF d fa(1)])
  then have f: "find (\<lambda>b. acc_id b = acc_id a') (accounts s) = Some a"
    by (simp add: a'_def)
  have p: "parent_id a' = parent_id a" and n: "name a' = name a \<or> parent_id a \<noteq> None"
    by (simp_all add: a'_def)
  have ids: "map acc_id (accounts s') = map acc_id (accounts s)"
    by (simp add: s'_def map_acc_id_replace_account)
  have "list_all (\<lambda>i. i < next_id s) (map acc_id (accounts s))"
    using ok by (simp add: ids_ok_def list_all_iff)
  then have "list_all (\<lambda>i. i < next_id s') (map acc_id (accounts s'))"
    unfolding ids by (simp add: s'_def)
  then have lt: "list_all (\<lambda>a. acc_id a < next_id s') (accounts s')"
    by (simp add: list_all_iff)
  from d have "distinct (map acc_id (accounts s'))" unfolding ids .
  with lt have ok': "ids_ok s'" by (simp add: ids_ok_def)
  have ri: "map acc_id (roots s') = map acc_id (roots s)"
    unfolding roots_def s'_def using roots_ids_replace_account [OF f p] by simp
  have rn: "map name (roots s') = map name (roots s)"
    unfolding roots_def s'_def using roots_names_replace_account [OF f p n] by simp
  from v ok' ri rn show ?thesis by (intro exI [where x = s'] conjI)
qed

lemma validate_roots_found:
  assumes "ids_ok s" and "fst ` set ps \<subseteq> set (map name (roots s))"
  shows "\<exists>s'. validate_roots s ps = Inr s' \<and> ids_ok s'
           \<and> map acc_id (roots s') = map acc_id (roots s)
           \<and> map name (roots s') = map name (roots s)"
  using assms
proof (induction ps arbitrary: s)
  case Nil
  then show ?case by simp
next
  case (Cons p ps)
  obtain nm nat' ty cc where p: "p = (nm, nat', ty, cc)" by (cases p)
  from Cons.prems(2) p have nm: "nm \<in> set (map name (roots s))"
    and sub: "fst ` set ps \<subseteq> set (map name (roots s))" by auto
  from validate_root_found [OF Cons.prems(1) nm, of nat' ty cc]
  obtain s1 where s1: "validate_root s (nm, nat', ty, cc) = Inr s1" "ids_ok s1"
    "map acc_id (roots s1) = map acc_id (roots s)"
    "map name (roots s1) = map name (roots s)"
    by blast
  from sub have sub1: "fst ` set ps \<subseteq> set (map name (roots s1))"
    unfolding s1(4) .
  from Cons.IH [OF s1(2) sub1]
  obtain s' where s': "validate_roots s1 ps = Inr s'" "ids_ok s'"
    "map acc_id (roots s') = map acc_id (roots s1)"
    "map name (roots s') = map name (roots s1)"
    by blast
  have v: "validate_roots s (p # ps) = Inr s'"
    by (simp add: p s1(1) s'(1))
  from v s'(2) s'(3) [unfolded s1(3)] s'(4) [unfolded s1(4)]
  show ?case by (intro exI [where x = s'] conjI)
qed

lemma bootstrap_keeps_roots:
  assumes "ids_ok s"
      and "set [''Assets'', ''Liability & Equity'', ''Expenses'', ''Revenue'']
             \<subseteq> set (map name (roots s))"
  shows "\<exists>s1. validate_root_accounts s = Inr s1 \<and> ids_ok s1
           \<and> map acc_id (roots s1) = map acc_id (roots s)
           \<and> map name (roots s1) = map name (roots s)"
proof -
  have "fst ` set root_accounts = set [''Assets'', ''Liability & Equity'', ''Expenses'', ''Revenue'']"
    by (simp add: root_accounts_def)
  with assms(2) have "fst ` set root_accounts \<subseteq> set (map name (roots s))" by simp
  from validate_roots_found [OF assms(1) this] show ?thesis
    unfolding validate_root_accounts_def .
qed

lemma create_failure_state:
  assumes "validate_root_accounts s = Inr s1"
      and "create_account_in_account_tree s b = Some (s', Inl e)"
  shows "s' = s1"
  using assms(2) unfolding create_account_in_account_tree_def assms(1) add_and_commit_def
  by (auto split: sum.splits option.splits if_splits prod.splits)

lemma create_keeps_roots:
  assumes ok: "ids_ok s"
      and four: "set [''Assets'', ''Liability & Equity'', ''Expenses'', ''Revenue'']
             \<subseteq> set (map name (roots s))"
      and c: "create_account_in_account_tree s b = Some (s', r)"
  shows "ids_ok s' \<and> map acc_id (roots s') = map acc_id (roots s)
           \<and> map name (roots s') = map name (roots s)"
proof -
  from bootstrap_keeps_roots [OF ok four]
  obtain s1 where s1: "validate_root_accounts s = Inr s1" "ids_ok s1"
    "map acc_id (roots s1) = map acc_id (roots s)"
    "map name (roots s1) = map name (roots s)"
    by blast
  show ?thesis
  proof (cases r)
    case (Inl e)
    with c have "s' = s1" using create_failure_state [OF s1(1)] by simp
    with s1 show ?thesis by simp
  next
    case (Inr v)
    from create_success [OF c [unfolded Inr]] s1(1)
    have "\<exists>p. parent_id v = Some p" and "acc_id v = next_id s1"
      and s': "s' = s1\<lparr>accounts := accounts s1 @ [v], next_id := Suc (next_id s1)\<rparr>"
      by auto
    then have v: "parent_id v \<noteq> None" "acc_id v = next_id s1" by auto
    have r': "roots s' = roots s1"
      by (simp add: roots_def s' is_root_def v)
    have fresh: "next_id s1 \<notin> set (map acc_id (accounts s1))"
      using s1(2) by (auto simp: ids_ok_def list_all_iff)
    have "ids_ok s'"
      using s1(2) fresh by (auto simp: ids_ok_def s' v list_all_iff)
    with r' s1 show ?thesis by simp
  qed
qed

lemma update_not_found:
  assumes "get_by_id s i = None" and "update_account s i uf = Some (s', r)"
  shows "s' = s \<and> (\<exists>e. r = Inl e)"
  using assms by (auto simp: update_account_def get_single_account_def)

lemma update_keeps_roots:
  assumes u: "update_account s i uf = Some (s', r)"
  shows "(ids_ok s \<longrightarrow> ids_ok s') \<and> map acc_id (roots s') = map acc_id (roots s)
         \<and> ((\<forall>a. get_by_id s i = Some a \<longrightarrow> parent_id a \<noteq> None)
              \<or> (\<forall>ch. r = Inr (Updated ch) \<longrightarrow> ''name'' \<notin> set ch)
            \<longrightarrow> map name (roots s') = map name (roots s))"
proof (cases "get_by_id s i")
  case None
  from update_not_found [OF None u] show ?thesis by simp
next
  case (Some a)
  from update_account_result [OF Some u]
  consider (same) "s' = s"
    | (upd) a1 ch1 a2 ch2 a3 ch3 where
        "update_name s a (u_name uf) = Inr (a1, ch1)"
        "update_cc_required s a1 (u_cc_required uf) = Inr (a2, ch2)"
        "update_account_type s a2 (u_account_type uf) = Some (Inr (a3, ch3))"
        "s' = s\<lparr>accounts := replace_account a3 (accounts s)\<rparr>"
        "r = Inr (Updated (ch1 @ ch2 @ ch3))"
    by blast
  then show ?thesis
  proof cases
    case same
    then show ?thesis by simp
  next
    case upd
    note fl = update_steps_fields [OF upd(1,2,3)]
    from Some have f0: "find (\<lambda>b. acc_id b = i) (accounts s) = Some a"
      by (simp add: get_by_id_def)
    have ida: "acc_id a = i" by (rule get_by_id_acc_id [OF Some])
    from f0 fl ida have f: "find (\<lambda>b. acc_id b = acc_id a3) (accounts s) = Some a" by simp
    from fl have p: "parent_id a3 = parent_id a" by simp
    have ids: "map acc_id (accounts s') = map acc_id (accounts s)"
      by (simp add: upd(4) map_acc_id_replace_account)
    have n': "next_id s' = next_id s" by (simp add: upd(4))
    have ok: "ids_ok s \<longrightarrow> ids_ok s'"
    proof
      assume "ids_ok s"
      then have "distinct (map acc_id (accounts s))"
        and "list_all (\<lambda>i. i < next_id s) (map acc_id (accounts s))"
        by (simp_all add: ids_ok_def list_all_iff)
      then have "distinct (map acc_id (accounts s'))"
        and "list_all (\<lambda>i. i < next_id s') (map acc_id (accounts s'))"
        unfolding ids n' by simp_all
      then show "ids_ok s'" by (simp add: ids_ok_def list_all_iff)
    qed
    have ri: "map acc_id (roots s') = map acc_id (roots s)"
      unfolding roots_def upd(4) using roots_ids_replace_account [OF f p] by simp
    have rn: "map name (roots s') = map name (roots s)"
      if h: "(\<forall>a. get_by_id s i = Some a \<longrightarrow> parent_id a \<noteq> None)
              \<or> (\<forall>ch. r = Inr (Updated ch) \<longrightarrow> ''name'' \<notin> set ch)"
    proof -
      have "name a3 = name a \<or> parent_id a \<noteq> None"
      proof (cases "parent_id a = None")
        case False
        then show ?thesis by simp
      next
        case True
        with h Some have "''name'' \<notin> set (ch1 @ ch2 @ ch3)" by (simp add: upd(5))
        then have "ch1 \<noteq> [''name'']" by auto
        with update_name_result [OF upd(1)] have "a1 = a" by auto
        with fl show ?thesis by simp
      qed
      from roots_names_replace_account [OF f p this] show ?thesis
        unfolding roots_def upd(4) by simp
    qed
    from ok ri rn show ?thesis by blast
  qed
qed

lemma delete_failure_state:
  "delete_account s i = (s', Inl e) \<Longrightarrow> s' = s"
  unfolding delete_account_def by (auto split: sum.splits if_splits)

lemma remove_account_ids:
  "distinct (map acc_id xs) \<Longrightarrow>
   distinct (map acc_id (remove_account i xs)) \<and> set (remove_account i xs) \<subseteq> set xs"
  by (induction xs) auto

lemma delete_keeps_roots:
  assumes d: "delete_account s i = (s', r)"
  shows "(ids_ok s \<longrightarrow> ids_ok s')
         \<and> ((\<forall>a. get_by_id s i = Some a \<longrightarrow> parent_id a \<noteq> None) \<or> (\<exists>e. r = Inl e)
            \<longrightarrow> roots s' = roots s)"
proof (cases "s' = s")
  case True
  then show ?thesis by simp
next
  case False
  with d have nr: "\<nexists>e. r = Inl e" using delete_failure_state by blast
  from False d obtain a where g: "get_single_account s i = Inr a"
    and s': "s' = s\<lparr>accounts := remove_account (acc_id a) (accounts s)\<rparr>"
    unfolding delete_account_def by (auto split: sum.splits if_splits)
  from g have ga: "get_by_id s i = Some a"
    by (simp add: get_single_account_def split: option.splits)
  then have f: "find (\<lambda>b. acc_id b = acc_id a) (accounts s) = Some a"
    using get_by_id_acc_id [OF ga] by (simp add: get_by_id_def)
  have rm: "accounts s' = remove1 a (accounts s)"
    by (simp add: s' find_remove_account [OF f])
  have ok: "ids_ok s \<longrightarrow> ids_ok s'"
  proof
    assume o: "ids_ok s"
    then have "distinct (map acc_id (accounts s))" by (simp add: ids_ok_def)
    from remove_account_ids [OF this, of "acc_id a"] o show "ids_ok s'"
      by (auto simp: ids_ok_def s' list_all_iff)
  qed
  have "roots s' = roots s" if "parent_id a \<noteq> None"
  proof -
    from that have "a \<notin> set (filter is_root (accounts s))" by (simp add: is_root_def)
    then have "remove1 a (filter is_root (accounts s)) = filter is_root (accounts s)"
      by (rule remove1_idem)
    then show ?thesis unfolding roots_def rm by (simp add: filter_remove1)
  qed
  with ok nr ga show ?thesis by auto
qed

text \<open>
  Claim C1, as stated, fails: right after the bootstrap of an empty database, deleting the
  root \<open>Revenue\<close> (it has no child and nothing refers to it) succeeds and leaves three roots;
  and renaming the root \<open>Assets\<close> to \<open>Fixed Assets\<close> succeeds and leaves four roots that are
  not named as the claim says.
\<close>

theorem deleted_root_counterexample:
  "validate_root_accounts empty_db = Inr roots_db
   \<and> map name (filter is_root (accounts roots_db))
       = [''Assets'', ''Liability & Equity'', ''Expenses'', ''Revenue'']
   \<and> delete_account roots_db 4
       = (roots_db\<lparr>accounts := take 3 demo_accounts\<rparr>, Inr (demo_accounts ! 3))
   \<and> map name (filter is_root (take 3 demo_accounts))
       = [''Assets'', ''Liability & Equity'', ''Expenses'']
   \<and> update_account roots_db 1 (rename_request ''Fixed Assets'')
       = Some (roots_db\<lparr>accounts := replace_account ((demo_accounts ! 0)\<lparr>name := ''Fixed Assets''\<rparr>)
                                      (accounts roots_db)\<rparr>,
               Inr (Updated [''name'']))
   \<and> map name (filter is_root (replace_account ((demo_accounts ! 0)\<lparr>name := ''Fixed Assets''\<rparr>)
                                      (accounts roots_db)))
       = [''Fixed Assets'', ''Liability & Equity'', ''Expenses'', ''Revenue'']"
proof -
  have d: "delete_account roots_db 4
       = (roots_db\<lparr>accounts := take 3 demo_accounts\<rparr>, Inr (demo_accounts ! 3))"
    by code_simp
  have n: "map name (filter is_root (accounts roots_db))
       = [''Assets'', ''Liability & Equity'', ''Expenses'', ''Revenue'']"
    by code_simp
  have n3: "map name (filter is_root (take 3 demo_accounts))
       = [''Assets'', ''Liability & Equity'', ''Expenses'']"
    by code_simp
  have u: "update_account roots_db 1 (rename_request ''Fixed Assets'')
       = Some (roots_db\<lparr>accounts := replace_account ((demo_accounts ! 0)\<lparr>name := ''Fixed Assets''\<rparr>)
                                      (accounts roots_db)\<rparr>,
               Inr (Updated [''name'']))"
    by code_simp
  have nu: "map name (filter is_root (replace_account ((demo_accounts ! 0)\<lparr>name := ''Fixed Assets''\<rparr>)
                                      (accounts roots_db)))
       = [''Fixed Assets'', ''Liability & Equity'', ''Expenses'', ''Revenue'']"
    by code_simp
  from validate_root_accounts_empty_db n d n3 u nu show ?thesis by (intro conjI)
qed

text \<open>
  Claim C1, amended. The two reads return a result and no database, so they change nothing.
  For the three writes, the roots of the database are the rows without a parent, in table
  order:
  \<^item> creation, accepted or rejected, from a database whose ids are pairwise different and
    below the sequence and in which roots named \<open>Assets\<close>, \<open>Liability & Equity\<close>, \<open>Expenses\<close>
    and \<open>Revenue\<close> exist, leaves the ids and the names of the roots as they were (so none is
    added and none removed), and the ids stay pairwise different and below the sequence;
  \<^item> an update never adds or removes a root (the ids of the roots stay as they were), and it
    leaves their names as they were when its target is not a root or when it reports no
    change of the name;
  \<^item> a deletion leaves the roots as they were when its target is not a root or when it is
    rejected;
  \<^item> update and deletion keep the ids pairwise different and below the sequence;
  \<^item> the bootstrap of the empty database gives a database of this kind, with exactly the
    four roots \<open>Assets\<close>, \<open>Liability & Equity\<close>, \<open>Expenses\<close> and \<open>Revenue\<close>, each without a
    parent.
\<close>

theorem four_roots_preserved:
  "(\<forall>s b s' r. ids_ok s
        \<and> set [''Assets'', ''Liability & Equity'', ''Expenses'', ''Revenue'']
            \<subseteq> set (map name (roots s))
        \<and> create_account_in_account_tree s b = Some (s', r) \<longrightarrow>
      ids_ok s' \<and> map acc_id (roots s') = map acc_id (roots s)
      \<and> map name (roots s') = map name (roots s))
   \<and> (\<forall>s i uf s' r. update_account s i uf = Some (s', r) \<longrightarrow>
      (ids_ok s \<longrightarrow> ids_ok s') \<and> map acc_id (roots s') = map acc_id (roots s)
      \<and> ((\<forall>a. get_by_id s i = Some a \<longrightarrow> parent_id a \<noteq> None)
           \<or> (\<forall>ch. r = Inr (Updated ch) \<longrightarrow> ''name'' \<notin> set ch)
         \<longrightarrow> map name (roots s') = map name (roots s)))
   \<and> (\<forall>s i s' r. delete_account s i = (s', r) \<longrightarrow>
      (ids_ok s \<longrightarrow> ids_ok s')
      \<and> ((\<forall>a. get_by_id s i = Some a \<longrightarrow> parent_id a \<noteq> None) \<or> (\<exists>e. r = Inl e)
         \<longrightarrow> roots s' = roots s))
   \<and> (\<exists>s0. validate_root_accounts empty_db = Inr s0 \<and> ids_ok s0
         \<and> map name (roots s0) = [''Assets'', ''Liability & Equity'', ''Expenses'', ''Revenue'']
         \<and> list_all (\<lambda>a. parent_id a = None) (roots s0))"
proof (intro conjI allI impI)
  fix s b s' r
  assume "ids_ok s
        \<and> set [''Assets'', ''Liability & Equity'', ''Expenses'', ''Revenue'']
            \<subseteq> set (map name (roots s))
        \<and> create_account_in_account_tree s b = Some (s', r)"
  then have h: "ids_ok s"
    "set [''Assets'', ''Liability & Equity'', ''Expenses'', ''Revenue''] \<subseteq> set (map name (roots s))"
    "create_account_in_account_tree s b = Some (s', r)"
    by blast+
  from create_keeps_roots [OF h]
  show "ids_ok s'" and "map acc_id (roots s') = map acc_id (roots s)"
    and "map name (roots s') = map name (roots s)"
    by blast+
next
  fix s i uf s' r
  assume u: "update_account s i uf = Some (s', r)"
  note k = update_keeps_roots [OF u]
  from k show "map acc_id (roots s') = map acc_id (roots s)" by blast
  { assume "ids_ok s" with k show "ids_ok s'" by blast }
  { assume "(\<forall>a. get_by_id s i = Some a \<longrightarrow> parent_id a \<noteq> None)
           \<or> (\<forall>ch. r = Inr (Updated ch) \<longrightarrow> ''name'' \<notin> set ch)"
    with k show "map name (roots s') = map name (roots s)" by blast }
next
  fix s i s' r
  assume d: "delete_account s i = (s', r)"
  note k = delete_keeps_roots [OF d]
  { assume "ids_ok s" with k show "ids_ok s'" by blast }
  { assume "(\<forall>a. get_by_id s i = Some a \<longrightarrow> parent_id a \<noteq> None) \<or> (\<exists>e. r = Inl e)"
    with k show "roots s' = roots s" by blast }
next
  have "ids_ok roots_db"
    and "map name (roots roots_db) = [''Assets'', ''Liability & Equity'', ''Expenses'', ''Revenue'']"
    and "list_all (\<lambda>a. parent_id a = None) (roots roots_db)"
    by (simp_all add: ids_ok_def roots_def roots_db_def demo_accounts_def is_root_def)
  with validate_root_accounts_empty_db
  show "\<exists>s0. validate_root_accounts empty_db = Inr s0 \<and> ids_ok s0
         \<and> map name (roots s0) = [''Assets'', ''Liability & Equity'', ''Expenses'', ''Revenue'']
         \<and> list_all (\<lambda>a. parent_id a = None) (roots s0)"
    by (intro exI [where x = roots_db] conjI)
qed

theorem four_roots_preserved_witness:
  "ids_ok roots_db
   \<and> set [''Assets'', ''Liability & Equity'', ''Expenses'', ''Revenue'']
        \<subseteq> set (map name (roots roots_db))
   \<and> create_account_in_account_tree roots_db (new_account_request ''Cash'' 1)
       = Some (roots_db\<lparr>accounts := accounts roots_db @ [cash], next_id := 6\<rparr>, Inr cash)
   \<and> ids_ok (roots_db\<lparr>accounts := accounts roots_db @ [cash], next_id := 6\<rparr>)
   \<and> map acc_id (roots (roots_db\<lparr>accounts := accounts roots_db @ [cash], next_id := 6\<rparr>))
       = [1, 2, 3, 4]
   \<and> map name (roots (roots_db\<lparr>accounts := accounts roots_db @ [cash], next_id := 6\<rparr>))
       = [''Assets'', ''Liability & Equity'', ''Expenses'', ''Revenue'']
   \<and> update_account demo_db 5 (set_type_request JNull)
       = Some (cleared_db, Inr (Updated [''account type'']))
   \<and> map acc_id (roots cleared_db) = [1, 2, 3, 4]
   \<and> map name (roots cleared_db) = [''Assets'', ''Liability & Equity'', ''Expenses'', ''Revenue'']
   \<and> delete_account demo_db 7
       = (demo_db\<lparr>accounts := take 6 demo_accounts\<rparr>, Inr (demo_accounts ! 6))
   \<and> roots (demo_db\<lparr>accounts := take 6 demo_accounts\<rparr>) = take 4 demo_accounts"
proof -
  have i: "ids_ok roots_db"
    by (simp add: ids_ok_def roots_db_def demo_accounts_def)
  have rr: "map acc_id (roots roots_db) = [1, 2, 3, 4]"
    and rn: "map name (roots roots_db) = [''Assets'', ''Liability & Equity'', ''Expenses'', ''Revenue'']"
    by (simp_all add: roots_def roots_db_def demo_accounts_def is_root_def)
  have sub: "set [''Assets'', ''Liability & Equity'', ''Expenses'', ''Revenue'']
        \<subseteq> set (map name (roots roots_db))"
    unfolding rn by simp
  have h: "create_account_in_account_tree roots_db (new_account_request ''Cash'' 1)
     = Some (roots_db\<lparr>accounts := accounts roots_db @ [cash], next_id := 6\<rparr>, Inr cash)"
    by code_simp
  note c = four_roots_preserved [THEN conjunct1, rule_format, OF conjI [OF i conjI [OF sub h]]]
  from c have c1: "ids_ok (roots_db\<lparr>accounts := accounts roots_db @ [cash], next_id := 6\<rparr>)"
    and c2: "map acc_id (roots (roots_db\<lparr>accounts := accounts roots_db @ [cash], next_id := 6\<rparr>))
       = [1, 2, 3, 4]"
    and c3: "map name (roots (roots_db\<lparr>accounts := accounts roots_db @ [cash], next_id := 6\<rparr>))
       = [''Assets'', ''Liability & Equity'', ''Expenses'', ''Revenue'']"
    unfolding rr rn by blast+
  have dr: "map acc_id (roots demo_db) = [1, 2, 3, 4]"
    and dn: "map name (roots demo_db) = [''Assets'', ''Liability & Equity'', ''Expenses'', ''Revenue'']"
    and dd: "roots demo_db = take 4 demo_accounts"
    by (simp_all add: roots_def demo_db_def demo_accounts_def is_root_def)
  have u: "update_account demo_db 5 (set_type_request JNull)
       = Some (cleared_db, Inr (Updated [''account type'']))"
    by code_simp
  have g5: "get_by_id demo_db 5 = Some (demo_accounts ! 4)"
    and p5: "parent_id (demo_accounts ! 4) \<noteq> None"
    by (simp_all add: get_by_id_def demo_db_def demo_accounts_def)
  note p = four_roots_preserved [THEN conjunct2, THEN conjunct1, rule_format, OF u]
  from p have p1: "map acc_id (roots cleared_db) = [1, 2, 3, 4]"
    unfolding dr by blast
  from p g5 p5 have p2: "map name (roots cleared_db)
      = [''Assets'', ''Liability & Equity'', ''Expenses'', ''Revenue'']"
    unfolding dn by simp
  have d: "delete_account demo_db 7
       = (demo_db\<lparr>accounts := take 6 demo_accounts\<rparr>, Inr (demo_accounts ! 6))"
    by code_simp
  have g7: "get_by_id demo_db 7 = Some (demo_accounts ! 6)"
    and p7: "parent_id (demo_accounts ! 6) \<noteq> None"
    by (simp_all add: get_by_id_def demo_db_def demo_accounts_def)
  note q = four_roots_preserved [THEN conjunct2, THEN conjunct2, THEN conjunct1, rule_format, OF d]
  from q g7 p7 have q1: "roots (demo_db\<lparr>accounts := take 6 demo_accounts\<rparr>) = take 4 demo_accounts"
    unfolding dd by simp
  from i sub h c1 c2 c3 u p1 p2 d q1 show ?thesis by (intro conjI)
qed

subsection \<open>Grand totals of the account tree\<close>

lemma own_debit_eq:
  "own_debit s a = sum_list (map debit_amount (filter (\<lambda>e. debit e = name a) (daily_entries s)))"
proof -
  have "filter (\<lambda>entry. debit entry = name a)
          (filter (\<lambda>e. debit e = name a \<or> credit e = name a) (daily_entries s))
        = filter (\<lambda>e. debit e = name a) (daily_entries s)"
    by (induction "daily_entries s") (auto simp: filter_filter intro: filter_cong)
  then show ?thesis by (simp add: own_debit_def)
qed

lemma own_credit_eq:
  "own_credit s a = sum_list (map credit_amount (filter (\<lambda>e. credit e = name a) (daily_entries s)))"
proof -
  have "filter (\<lambda>entry. credit entry = name a)
          (filter (\<lambda>e. debit e = name a \<or> credit e = name a) (daily_entries s))
        = filter (\<lambda>e. credit e = name a) (daily_entries s)"
    by (auto simp: filter_filter intro: filter_cong)
  then show ?thesis by (simp add: own_credit_def)
qed

lemma sum_insert_by_code:
  fixes f :: "account \<Rightarrow> int"
  shows "sum_list (map f (insert_by_code a xs)) = f a + sum_list (map f xs)"
  by (induction xs) simp_all

lemma set_insert_by_code: "set (insert_by_code a xs) = insert a (set xs)"
  by (induction xs) auto

lemma sum_sort_by_code:
  fixes f :: "account \<Rightarrow> int"
  shows "sum_list (map f (sort_by_code xs)) = sum_list (map f xs)"
  unfolding sort_by_code_def by (induction xs) (simp_all add: sum_insert_by_code)

lemma set_sort_by_code: "set (sort_by_code xs) = set xs"
  unfolding sort_by_code_def by (induction xs) (simp_all add: set_insert_by_code)

lemma those_map_Some:
  "\<forall>x\<in>set xs. f x \<noteq> None \<Longrightarrow> those (map f xs) = Some (map (\<lambda>x. the (f x)) xs)"
  by (induction xs) auto

lemma compute_account_totals_Suc:
  "compute_account_totals (Suc n) s a =
     (case those (map (compute_account_totals n s) (sort_by_code (children_of s (acc_id a)))) of
        None \<Rightarrow> None
      | Some results \<Rightarrow>
          Some (AccountDict a (own_debit s a + sum_list (map (\<lambda>r. fst (snd r)) results))
                  (own_credit s a + sum_list (map (\<lambda>r. snd (snd r)) results)) (map fst results),
                own_debit s a + sum_list (map (\<lambda>r. fst (snd r)) results),
                own_credit s a + sum_list (map (\<lambda>r. snd (snd r)) results)))"
  by (simp add: Let_def split: option.splits)

lemma child_facts:
  assumes ok: "ids_ok s" and par: "parents_ok s"
      and c: "c \<in> set (children_of s i)"
  shows "c \<in> set (accounts s)" and "i < acc_id c" and "acc_id c < next_id s"
proof -
  from c have m: "c \<in> set (accounts s)" and p: "parent_id c = Some i"
    by (simp_all add: children_of_def)
  from m show "c \<in> set (accounts s)" .
  from par m p show "i < acc_id c"
    by (auto simp: parents_ok_def list_all_iff)
  from ok m show "acc_id c < next_id s" by (simp add: ids_ok_def list_all_iff)
qed

lemma compute_account_totals_stable:
  assumes ok: "ids_ok s" and par: "parents_ok s"
  shows "a \<in> set (accounts s) \<Longrightarrow> next_id s - acc_id a \<le> n \<Longrightarrow>
         compute_account_totals (Suc n) s a = compute_account_totals n s a
         \<and> compute_account_totals n s a \<noteq> None"
proof (induction n arbitrary: a)
  case 0
  from ok 0(1) have "acc_id a < next_id s" by (simp add: ids_ok_def list_all_iff)
  with 0(2) show ?case by simp
next
  case (Suc n)
  let ?ch = "sort_by_code (children_of s (acc_id a))"
  have ch: "compute_account_totals (Suc n) s c = compute_account_totals n s c
            \<and> compute_account_totals n s c \<noteq> None" if "c \<in> set ?ch" for c
  proof -
    from that have c: "c \<in> set (children_of s (acc_id a))" by (simp add: set_sort_by_code)
    note cf = child_facts [OF ok par c]
    from cf(2,3) Suc.prems(2) have "next_id s - acc_id c \<le> n" by arith
    from Suc.IH [OF cf(1) this] show ?thesis .
  qed
  then have m: "map (compute_account_totals (Suc n) s) ?ch = map (compute_account_totals n s) ?ch"
    by simp
  from ch have "\<forall>c\<in>set ?ch. compute_account_totals n s c \<noteq> None" by simp
  from those_map_Some [OF this]
  have t: "those (map (compute_account_totals n s) ?ch)
         = Some (map (\<lambda>x. the (compute_account_totals n s x)) ?ch)" .
  have e: "compute_account_totals (Suc (Suc n)) s a = compute_account_totals (Suc n) s a"
    unfolding compute_account_totals_Suc [of "Suc n"] m
    unfolding compute_account_totals_Suc [of n, symmetric] ..
  have "compute_account_totals (Suc n) s a \<noteq> None"
    unfolding compute_account_totals_Suc [of n] t by simp
  with e show ?case by simp
qed

lemma compute_account_totals_enough:
  assumes ok: "ids_ok s" and par: "parents_ok s" and a: "a \<in> set (accounts s)"
      and n: "next_id s \<le> n"
  shows "compute_account_totals n s a = compute_account_totals (next_id s) s a"
  using n
proof (induction n rule: dec_induct)
  case base
  show ?case ..
next
  case (step n)
  from step(1) have "next_id s - acc_id a \<le> n" by simp
  from compute_account_totals_stable [OF ok par a this] step(3) show ?case by simp
qed

lemma sum_filter_split:
  fixes f :: "'a \<Rightarrow> int"
  assumes "\<forall>a\<in>set xs. P a \<longleftrightarrow> (Q a \<or> R a)" and "\<forall>a\<in>set xs. \<not> (Q a \<and> R a)"
  shows "sum_list (map f (filter P xs))
         = sum_list (map f (filter Q xs)) + sum_list (map f (filter R xs))"
  using assms by (induction xs) auto

lemma filter_id_single:
  assumes "distinct (map acc_id xs)" and "x \<in> set xs"
  shows "filter (\<lambda>a. acc_id a = acc_id x) xs = [x]"
  using assms
proof (induction xs)
  case Nil
  then show ?case by simp
next
  case (Cons b bs)
  show ?case
  proof (cases "b = x")
    case True
    from Cons.prems(1) True have "\<forall>c\<in>set bs. acc_id c \<noteq> acc_id x" by (metis distinct.simps(2) imageI list.simps(9) set_map)
    then have "filter (\<lambda>a. acc_id a = acc_id x) bs = []" by (simp add: filter_empty_conv)
    with True show ?thesis by simp
  next
    case False
    with Cons.prems have x: "x \<in> set bs" by simp
    with Cons.prems(1) have "acc_id b \<noteq> acc_id x" by (metis distinct.simps(2) imageI list.simps(9) set_map)
    with Cons.IH x Cons.prems(1) show ?thesis by simp
  qed
qed

lemma forest_sum:
  fixes w T :: "account \<Rightarrow> int"
  assumes ok: "ids_ok s" and par: "parents_ok s"
      and rec: "\<forall>a\<in>set (accounts s). T a = w a + sum_list (map T (children_of s (acc_id a)))"
  shows "sum_list (map T (roots s)) = sum_list (map w (accounts s))"
proof -
  define A where "A = accounts s"
  define B where "B = (\<lambda>k (a::account). k \<le> acc_id a \<and> (case parent_id a of None \<Rightarrow> True | Some p \<Rightarrow> p < k))"
  define Q where "Q = (\<lambda>k. sum_list (map w (filter (\<lambda>a. acc_id a < k) A))
                          + sum_list (map T (filter (B k) A)))"
  have d: "distinct (map acc_id A)" using ok by (simp add: ids_ok_def A_def)
  have lt: "\<forall>a\<in>set A. acc_id a < next_id s" using ok by (simp add: ids_ok_def A_def list_all_iff)
  have pp: "\<forall>a\<in>set A. \<forall>p. parent_id a = Some p \<longrightarrow> p < acc_id a \<and> (\<exists>b\<in>set A. acc_id b = p)"
  proof (intro ballI allI impI)
    fix a p assume a: "a \<in> set A" and p: "parent_id a = Some p"
    with par have h: "p < acc_id a" "get_by_id s p \<noteq> None"
      by (auto simp: parents_ok_def list_all_iff A_def)
    from h(2) obtain b where "find (\<lambda>b. acc_id b = p) (accounts s) = Some b"
      by (auto simp: get_by_id_def)
    then have "acc_id b = p \<and> b \<in> set (accounts s)" by (rule find_id_Some)
    with h(1) show "p < acc_id a \<and> (\<exists>b\<in>set A. acc_id b = p)" by (auto simp: A_def)
  qed
  have step: "Q (Suc k) = Q k" for k
  proof -
    have 1: "sum_list (map w (filter (\<lambda>a. acc_id a < Suc k) A))
           = sum_list (map w (filter (\<lambda>a. acc_id a < k) A))
             + sum_list (map w (filter (\<lambda>a. acc_id a = k) A))"
      by (rule sum_filter_split) auto
    have 2: "sum_list (map T (filter (B (Suc k)) A))
           = sum_list (map T (filter (\<lambda>a. B k a \<and> acc_id a \<noteq> k) A))
             + sum_list (map T (filter (\<lambda>a. parent_id a = Some k) A))"
    proof (rule sum_filter_split)
      show "\<forall>a\<in>set A. B (Suc k) a \<longleftrightarrow> (B k a \<and> acc_id a \<noteq> k) \<or> parent_id a = Some k"
      proof
        fix a assume a: "a \<in> set A"
        show "B (Suc k) a \<longleftrightarrow> (B k a \<and> acc_id a \<noteq> k) \<or> parent_id a = Some k"
        proof (cases "parent_id a")
          case None
          then show ?thesis by (auto simp: B_def)
        next
          case (Some p)
          with pp a have "p < acc_id a" by blast
          with Some show ?thesis by (auto simp: B_def)
        qed
      qed
      show "\<forall>a\<in>set A. \<not> ((B k a \<and> acc_id a \<noteq> k) \<and> parent_id a = Some k)"
        by (auto simp: B_def)
    qed
    have 3: "sum_list (map T (filter (B k) A))
           = sum_list (map T (filter (\<lambda>a. B k a \<and> acc_id a \<noteq> k) A))
             + sum_list (map T (filter (\<lambda>a. acc_id a = k) A))"
    proof (rule sum_filter_split)
      show "\<forall>a\<in>set A. B k a \<longleftrightarrow> (B k a \<and> acc_id a \<noteq> k) \<or> acc_id a = k"
      proof
        fix a assume a: "a \<in> set A"
        show "B k a \<longleftrightarrow> (B k a \<and> acc_id a \<noteq> k) \<or> acc_id a = k"
        proof (cases "parent_id a")
          case None
          then show ?thesis by (auto simp: B_def)
        next
          case (Some p)
          with pp a have "p < acc_id a" by blast
          with Some show ?thesis by (auto simp: B_def)
        qed
      qed
      show "\<forall>a\<in>set A. \<not> ((B k a \<and> acc_id a \<noteq> k) \<and> acc_id a = k)" by simp
    qed
    have 4: "sum_list (map T (filter (\<lambda>a. acc_id a = k) A))
           = sum_list (map w (filter (\<lambda>a. acc_id a = k) A))
             + sum_list (map T (filter (\<lambda>a. parent_id a = Some k) A))"
    proof (cases "\<exists>x\<in>set A. acc_id x = k")
      case True
      then obtain x where x: "x \<in> set A" "acc_id x = k" by blast
      from filter_id_single [OF d x(1)] x(2)
      have f: "filter (\<lambda>a. acc_id a = k) A = [x]" by simp
      from rec x have "T x = w x + sum_list (map T (filter (\<lambda>a. parent_id a = Some k) A))"
        by (simp add: A_def children_of_def)
      then show ?thesis unfolding f by simp
    next
      case False
      then have f: "filter (\<lambda>a. acc_id a = k) A = []" by (simp add: filter_empty_conv)
      from False pp have "\<forall>a\<in>set A. parent_id a \<noteq> Some k" by blast
      then have g: "filter (\<lambda>a. parent_id a = Some k) A = []" by (simp add: filter_empty_conv)
      show ?thesis unfolding f g by simp
    qed
    show ?thesis unfolding Q_def 1 2 3 4 by simp
  qed
  have all: "Q k = Q 0" for k
    by (induction k) (simp_all add: step)
  have "filter (B 0) A = filter is_root A"
    by (rule filter_cong) (auto simp: B_def is_root_def split: option.splits)
  then have q0: "Q 0 = sum_list (map T (roots s))"
    by (simp add: Q_def roots_def A_def)
  have "filter (\<lambda>a. acc_id a < next_id s) A = A" using lt by simp
  moreover have "filter (B (next_id s)) A = []"
    using lt by (auto simp: filter_empty_conv B_def)
  ultimately have qn: "Q (next_id s) = sum_list (map w A)"
    by (simp add: Q_def)
  from all [of "next_id s"] q0 qn show ?thesis by (simp add: A_def)
qed

lemma get_account_tree_totals:
  assumes ok: "ids_ok s" and par: "parents_ok s" and n: "next_id s \<le> fuel"
  shows "\<exists>t. get_account_tree fuel s = Some t
           \<and> get_account_tree fuel s = get_account_tree (next_id s) s
           \<and> grand_total_debit t = sum_list (map (own_debit s) (accounts s))
           \<and> grand_total_credit t = sum_list (map (own_credit s) (accounts s))"
proof -
  define N where "N = next_id s"
  define R where "R = (\<lambda>a. the (compute_account_totals N s a))"
  define Td where "Td = (\<lambda>a. fst (snd (R a)))"
  define Tc where "Tc = (\<lambda>a. snd (snd (R a)))"
  have st: "compute_account_totals (Suc N) s a = compute_account_totals N s a"
    and nn: "compute_account_totals N s a \<noteq> None" if "a \<in> set (accounts s)" for a
    using compute_account_totals_stable [OF ok par that, of N] by (simp_all add: N_def)
  have rec: "Td a = own_debit s a + sum_list (map Td (children_of s (acc_id a)))
           \<and> Tc a = own_credit s a + sum_list (map Tc (children_of s (acc_id a)))"
    if a: "a \<in> set (accounts s)" for a
  proof -
    let ?ch = "sort_by_code (children_of s (acc_id a))"
    have "\<forall>c\<in>set ?ch. compute_account_totals N s c \<noteq> None"
      using nn child_facts(1) [OF ok par] by (auto simp: set_sort_by_code)
    from those_map_Some [OF this]
    have t: "those (map (compute_account_totals N s) ?ch) = Some (map R ?ch)"
      by (simp add: R_def)
    have "compute_account_totals N s a
          = Some (AccountDict a (own_debit s a + sum_list (map (\<lambda>r. fst (snd r)) (map R ?ch)))
                  (own_credit s a + sum_list (map (\<lambda>r. snd (snd r)) (map R ?ch))) (map fst (map R ?ch)),
                own_debit s a + sum_list (map (\<lambda>r. fst (snd r)) (map R ?ch)),
                own_credit s a + sum_list (map (\<lambda>r. snd (snd r)) (map R ?ch)))"
      unfolding st [OF a, symmetric] compute_account_totals_Suc t by simp
    then have "Td a = own_debit s a + sum_list (map Td ?ch)"
      and "Tc a = own_credit s a + sum_list (map Tc ?ch)"
      by (simp_all add: Td_def Tc_def R_def comp_def)
    then show ?thesis by (simp add: sum_sort_by_code)
  qed
  from rec have "\<forall>a\<in>set (accounts s). Td a = own_debit s a + sum_list (map Td (children_of s (acc_id a)))"
    and "\<forall>a\<in>set (accounts s). Tc a = own_credit s a + sum_list (map Tc (children_of s (acc_id a)))"
    by simp_all
  from forest_sum [OF ok par this(1)] forest_sum [OF ok par this(2)]
  have sd: "sum_list (map Td (roots s)) = sum_list (map (own_debit s) (accounts s))"
    and sc: "sum_list (map Tc (roots s)) = sum_list (map (own_credit s) (accounts s))" .
  have rs: "set (roots s) \<subseteq> set (accounts s)" by (auto simp: roots_def)
  have en: "compute_account_totals fuel s a = compute_account_totals N s a"
    if "a \<in> set (accounts s)" for a
    unfolding N_def by (rule compute_account_totals_enough [OF ok par that n])
  with rs have m: "map (compute_account_totals fuel s) (roots s)
                 = map (compute_account_totals N s) (roots s)" by auto
  from nn rs have "\<forall>a\<in>set (roots s). compute_account_totals N s a \<noteq> None" by auto
  from those_map_Some [OF this]
  have t: "those (map (compute_account_totals N s) (roots s)) = Some (map R (roots s))"
    by (simp add: R_def)
  define t0 where "t0 = \<lparr>accounts_list = map fst (map R (roots s)),
                grand_total_debit = sum_list (map (\<lambda>r. fst (snd r)) (map R (roots s))),
                grand_total_credit = sum_list (map (\<lambda>r. snd (snd r)) (map R (roots s)))\<rparr>"
  have gN: "get_account_tree N s = Some t0"
    unfolding get_account_tree_def get_all_accounts_from_stmt_def roots_def [symmetric] t t0_def
    by simp
  have g: "get_account_tree fuel s = Some t0"
    unfolding get_account_tree_def get_all_accounts_from_stmt_def roots_def [symmetric] m t t0_def
    by simp
  have gd: "grand_total_debit t0 = sum_list (map (own_debit s) (accounts s))"
    unfolding sd [symmetric] by (simp add: t0_def Td_def comp_def)
  have gc: "grand_total_credit t0 = sum_list (map (own_credit s) (accounts s))"
    unfolding sc [symmetric] by (simp add: t0_def Tc_def comp_def)
  from g gN have e: "get_account_tree fuel s = get_account_tree (next_id s) s"
    by (simp add: N_def)
  from g e gd gc show ?thesis by (intro exI [where x = t0] conjI)
qed

lemma sum_filter_not:
  fixes f :: "'a \<Rightarrow> int"
  shows "sum_list (map f xs)
         = sum_list (map f (filter P xs)) + sum_list (map f (filter (\<lambda>a. \<not> P a) xs))"
  by (induction xs) simp_all

lemma sum_leaves_split:
  fixes f :: "account \<Rightarrow> int"
  shows "sum_list (map f (accounts s))
         = sum_list (map f (leaves s))
           + sum_list (map f (filter (\<lambda>a. children_of s (acc_id a) \<noteq> []) (accounts s)))"
  unfolding leaves_def by (rule sum_filter_not)

text \<open>
  Claim C2, as stated, fails: the grand totals add the own amounts of every account of the
  forest, not only of the leaves. With one journal entry that debits \<open>Assets\<close> and credits
  \<open>Revenue\<close> by 70, accounts that have children, both grand totals are 70 while the own
  amounts of the leaf accounts sum to 0.
\<close>

theorem parent_entry_counterexample:
  "ids_ok parent_entry_db \<and> parents_ok parent_entry_db
   \<and> map_option grand_total_debit (get_account_tree 8 parent_entry_db) = Some 70
   \<and> map_option grand_total_credit (get_account_tree 8 parent_entry_db) = Some 70
   \<and> map name (leaves parent_entry_db)
       = [''Liability & Equity'', ''Expenses'', ''Cash'', ''Sales'', ''Interest Income'']
   \<and> sum_list (map (own_debit parent_entry_db) (leaves parent_entry_db)) = 0
   \<and> sum_list (map (own_credit parent_entry_db) (leaves parent_entry_db)) = 0"
  by code_simp

text \<open>
  Claim C2, amended. In every database whose ids are pairwise different and below the
  sequence and whose accounts form a forest, and for every list of journal entries, the walk
  of \<^verbatim>\<open>get_account_tree\<close> returns once its depth bound reaches the value of the id
  sequence, with one and the same result for every such bound; the grand totals are the sums
  of the own debit and own credit amounts over all accounts, that is the sum over the leaf
  accounts plus the sum over the accounts that have children; and the own debit (credit)
  amount of an account is the sum of \<open>debit_amount\<close> (\<open>credit_amount\<close>) over the journal entries
  whose debit (credit) name equals the account's name. The read is a function of the
  database and returns no database, so repeating it gives the same totals.
\<close>

theorem grand_totals_all_accounts:
  assumes "ids_ok s" and "parents_ok s" and "next_id s \<le> fuel"
  shows "\<exists>t. get_account_tree fuel s = Some t
           \<and> get_account_tree fuel s = get_account_tree (next_id s) s
           \<and> grand_total_debit t = sum_list (map (own_debit s) (accounts s))
           \<and> grand_total_credit t = sum_list (map (own_credit s) (accounts s))
           \<and> grand_total_debit t
               = sum_list (map (own_debit s) (leaves s))
                 + sum_list (map (own_debit s)
                     (filter (\<lambda>a. children_of s (acc_id a) \<noteq> []) (accounts s)))
           \<and> grand_total_credit t
               = sum_list (map (own_credit s) (leaves s))
                 + sum_list (map (own_credit s)
                     (filter (\<lambda>a. children_of s (acc_id a) \<noteq> []) (accounts s)))
           \<and> (\<forall>a. own_debit s a
                    = sum_list (map debit_amount
                        (filter (\<lambda>e. debit e = name a) (daily_entries s)))
                  \<and> own_credit s a
                    = sum_list (map credit_amount
                        (filter (\<lambda>e. credit e = name a) (daily_entries s))))"
proof -
  from get_account_tree_totals [OF assms]
  obtain t where t: "get_account_tree fuel s = Some t"
    "get_account_tree fuel s = get_account_tree (next_id s) s"
    "grand_total_debit t = sum_list (map (own_debit s) (accounts s))"
    "grand_total_credit t = sum_list (map (own_credit s) (accounts s))"
    by blast
  note d = t(3) [unfolded sum_leaves_split [of "own_debit s" s]]
  note c = t(4) [unfolded sum_leaves_split [of "own_credit s" s]]
  have o: "\<forall>a. own_debit s a
                    = sum_list (map debit_amount
                        (filter (\<lambda>e. debit e = name a) (daily_entries s)))
                  \<and> own_credit s a
                    = sum_list (map credit_amount
                        (filter (\<lambda>e. credit e = name a) (daily_entries s)))"
    using own_debit_eq own_credit_eq by blast
  from t d c o show ?thesis by (intro exI [where x = t] conjI)
qed

theorem grand_totals_all_accounts_witness:
  "ids_ok demo_db \<and> parents_ok demo_db \<and> next_id demo_db \<le> 8
   \<and> (\<exists>t. get_account_tree 8 demo_db = Some t
         \<and> grand_total_debit t = 100 \<and> grand_total_credit t = 40)
   \<and> map name (leaves demo_db)
       = [''Liability & Equity'', ''Expenses'', ''Cash'', ''Sales'', ''Interest Income'']
   \<and> sum_list (map (own_debit demo_db) (leaves demo_db)) = 100
   \<and> sum_list (map (own_credit demo_db) (leaves demo_db)) = 40"
proof -
  have i: "ids_ok demo_db" and p: "parents_ok demo_db" and n: "next_id demo_db \<le> 8"
    by code_simp+
  have l: "map name (leaves demo_db)
       = [''Liability & Equity'', ''Expenses'', ''Cash'', ''Sales'', ''Interest Income'']"
    by code_simp
  have ld: "sum_list (map (own_debit demo_db) (leaves demo_db)) = 100"
    and lc: "sum_list (map (own_credit demo_db) (leaves demo_db)) = 40"
    and nd: "sum_list (map (own_debit demo_db)
               (filter (\<lambda>a. children_of demo_db (acc_id a) \<noteq> []) (accounts demo_db))) = 0"
    and nc: "sum_list (map (own_credit demo_db)
               (filter (\<lambda>a. children_of demo_db (acc_id a) \<noteq> []) (accounts demo_db))) = 0"
    by code_simp+
  from grand_totals_all_accounts [OF i p n]
  obtain t where t: "get_account_tree 8 demo_db = Some t"
    "grand_total_debit t
               = sum_list (map (own_debit demo_db) (leaves demo_db))
                 + sum_list (map (own_debit demo_db)
                     (filter (\<lambda>a. children_of demo_db (acc_id a) \<noteq> []) (accounts demo_db)))"
    "grand_total_credit t
               = sum_list (map (own_credit demo_db) (leaves demo_db))
                 + sum_list (map (own_credit demo_db)
                     (filter (\<lambda>a. children_of demo_db (acc_id a) \<noteq> []) (accounts demo_db)))"
    by blast
  from t(2) t(3) have "grand_total_debit t = 100" and "grand_total_credit t = 40"
    unfolding ld lc nd nc by simp_all
  with t(1) have e: "\<exists>t. get_account_tree 8 demo_db = Some t
         \<and> grand_total_debit t = 100 \<and> grand_total_credit t = 40"
    by blast
  from i p n e l ld lc show ?thesis by (intro conjI)
qed

end
